theory Spec2Isabelle
  imports Main "HOL-Library.Sublist"
begin

section \<open>Values\<close>

text \<open>
  A Python \<open>str\<close> is a sequence of Unicode code points, so it is modelled as a list of
  natural numbers. ASCII literals of the source are written with \<open>ascii\<close>; the other
  literals are given by their code points, with an English gloss.
\<close>

type_synonym pystr = "nat list"

definition ascii :: "string \<Rightarrow> pystr" where
  "ascii cs = map of_char cs"

text \<open>
  \<open>str.isspace\<close> for one code point (the white space of CPython's Unicode database) and
  \<open>str.strip()\<close> with no argument.
\<close>

definition isspace :: "nat \<Rightarrow> bool" where
  "isspace c =
     ((9 \<le> c \<and> c \<le> 13) \<or> (28 \<le> c \<and> c \<le> 32) \<or> c = 133 \<or> c = 160 \<or> c = 5760 \<or>
      (8192 \<le> c \<and> c \<le> 8202) \<or> c = 8232 \<or> c = 8233 \<or> c = 8239 \<or> c = 8287 \<or> c = 12288)"

definition strip :: "pystr \<Rightarrow> pystr" where
  "strip s = rev (dropWhile isspace (rev (dropWhile isspace s)))"

text \<open>
  \<open>date.today().isoformat()\<close> is a string \<open>YYYY-MM-DD\<close>. The formatting is injective, and
  the source only compares such strings for equality, so a date stands for its ISO string.
\<close>

datatype date = Date nat nat nat

text \<open>
  The exception classes that matter to the control flow. \<open>OperationalError\<close> is
  \<open>sqlite3.OperationalError\<close>, \<open>DatabaseError\<close> any other \<open>sqlite3\<close> error,
  \<open>TransportError\<close> an error of the Telegram client.
\<close>

datatype exn = OSError | OperationalError | DatabaseError | TypeError | TransportError

section \<open>Configuration\<close>

text \<open>
  The module-level configuration read from the environment at import time (lines 62-102).
  Both integers are \<open>int(os.getenv(...))\<close>: any integer, negative ones too.
  \<open>openai_client\<close> says that \<open>_openai_client\<close> is not \<open>None\<close>.
\<close>

record config =
  FREE_MESSAGES_PER_DAY :: int
  HISTORY_TURNS :: int
  OPENAI_AVAILABLE :: bool
  openai_client :: bool
  OPENAI_API_KEY :: pystr
  PARSEMODE_HTML :: bool

section \<open>The two tables\<close>

text \<open>
  Table \<open>users\<close> (lines 154-159): \<open>user_id INTEGER PRIMARY KEY\<close> is the key of a map;
  the other three columns are nullable. Table \<open>convo\<close> (lines 164-170): the rows in a list;
  \<open>role\<close> is constrained by a \<open>CHECK\<close> to three values, which are a datatype here: an
  insert of any other string would raise \<open>sqlite3.IntegrityError\<close>, and the source only
  ever inserts \<open>user\<close> and \<open>assistant\<close>. The column \<open>ts\<close> is never read and is left out. \<open>seq\<close> is the \<open>sqlite_sequence\<close> entry that \<open>AUTOINCREMENT\<close> keeps for \<open>convo\<close>.
  SQLite integers are 64-bit; the model uses unbounded integers for ids and counters.
\<close>

datatype role = User | Assistant | System

record user_row =
  u_username :: "pystr option"
  u_messages_today :: "int option"
  u_last_reset :: "date option"

record convo_row =
  c_id :: int
  c_user_id :: int
  c_role :: role
  c_content :: pystr

record database =
  users :: "int \<rightharpoonup> user_row"
  convo :: "convo_row list"
  seq :: int

definition empty_database :: database where
  "empty_database = \<lparr>users = Map.empty, convo = [], seq = 0\<rparr>"

text \<open>
  A rowid table is stored in rowid order and the primary key is unique: the rows are
  listed by strictly increasing \<open>id\<close>.
\<close>

definition wf_db :: "database \<Rightarrow> bool" where
  "wf_db d = sorted_wrt (<) (map c_id (convo d))"

text \<open>
  \<open>AUTOINCREMENT\<close>: the new id is one more than the largest id that ever existed in the
  table.
\<close>

definition next_rowid :: "database \<Rightarrow> int" where
  "next_rowid d = fold max (map c_id (convo d)) (seq d) + 1"

section \<open>The SQL of each storage operation\<close>

text \<open>
  Each inner function of lines 148-229 and 329-332, between \<open>cur = con.cursor()\<close> and
  \<open>con.close()\<close>, as a function on the database: it returns the Python result and the
  database after \<open>commit\<close>.
\<close>

text \<open>\<open>_get\<close> of \<open>get_user\<close>, lines 178-196. The clock is read as of one instant.\<close>

definition sql_get ::
  "date \<Rightarrow> int \<Rightarrow> pystr option \<Rightarrow> database \<Rightarrow> (int \<times> int option \<times> date option) \<times> database" where
  "sql_get today_iso user_id username d =
     (case users d user_id of
        None \<Rightarrow>
          ((user_id, Some 0, Some today_iso),
           d\<lparr>users := (users d)(user_id \<mapsto>
               \<lparr>u_username = username, u_messages_today = Some 0,
                u_last_reset = Some today_iso\<rparr>)\<rparr>)
      | Some row \<Rightarrow>
          if u_last_reset row = None \<or> u_last_reset row \<noteq> Some today_iso then
            ((user_id, Some 0, Some today_iso),
             d\<lparr>users := (users d)(user_id \<mapsto>
                 row\<lparr>u_messages_today := Some 0, u_last_reset := Some today_iso\<rparr>)\<rparr>)
          else ((user_id, u_messages_today row, u_last_reset row), d))"

text \<open>\<open>_inc\<close> of \<open>inc_user_counter\<close>, lines 201-204.\<close>

definition sql_inc :: "int \<Rightarrow> database \<Rightarrow> unit \<times> database" where
  "sql_inc user_id d =
     (case users d user_id of
        None \<Rightarrow> ((), d)
      | Some row \<Rightarrow>
          ((), d\<lparr>users := (users d)(user_id \<mapsto>
                 row\<lparr>u_messages_today :=
                   Some ((case u_messages_today row of None \<Rightarrow> 0 | Some n \<Rightarrow> n) + 1)\<rparr>)\<rparr>))"

text \<open>
  \<open>_add\<close> of \<open>add_msg\<close>, lines 209-220: the insert, then the delete of every row of the
  user that \<open>ORDER BY id DESC LIMIT -1 OFFSET ?\<close> selects. SQLite reads a negative
  \<open>OFFSET\<close> as zero, which is what \<open>nat\<close> does.
\<close>

definition sql_add :: "config \<Rightarrow> int \<Rightarrow> role \<Rightarrow> pystr \<Rightarrow> database \<Rightarrow> unit \<times> database" where
  "sql_add cfg user_id role content d =
     (let new_id = next_rowid d;
          inserted = convo d @
            [\<lparr>c_id = new_id, c_user_id = user_id, c_role = role, c_content = content\<rparr>];
          selected = map c_id (drop (nat (HISTORY_TURNS cfg * 2))
            (rev (sort_key c_id (filter (\<lambda>r. c_user_id r = user_id) inserted))))
      in ((), d\<lparr>convo := filter (\<lambda>r. c_id r \<notin> set selected) inserted, seq := new_id\<rparr>))"

text \<open>\<open>_hist\<close> of \<open>get_history\<close>, lines 225-228.\<close>

definition sql_hist :: "int \<Rightarrow> database \<Rightarrow> (role \<times> pystr) list \<times> database" where
  "sql_hist user_id d =
     (map (\<lambda>r. (c_role r, c_content r))
        (sort_key c_id (filter (\<lambda>r. c_user_id r = user_id) (convo d))), d)"

text \<open>\<open>_do_reset\<close>, lines 329-332 and 426-429.\<close>

definition sql_do_reset :: "int \<Rightarrow> database \<Rightarrow> unit \<times> database" where
  "sql_do_reset user_id d = ((), d\<lparr>convo := filter (\<lambda>r. c_user_id r \<noteq> user_id) (convo d)\<rparr>)"

section \<open>The texts of the source\<close>

text \<open>The f-string of lines 235-250 with SYSTEM_NAME = Lana: the persona instruction, in English.\<close>

definition SYSTEM_PROMPT :: pystr where
  "SYSTEM_PROMPT =
    [10, 89, 111, 117, 32, 97, 114, 101, 32, 76, 97, 110, 97, 44, 32, 97, 110, 32, 65, 73, 32,
     103, 105, 114, 108, 102, 114, 105, 101, 110, 100, 32, 97, 110, 100, 32, 115, 117, 112,
     112, 111, 114, 116, 105, 118, 101, 32, 99, 111, 109, 112, 97, 110, 105, 111, 110, 46, 10,
     67, 111, 114, 101, 32, 116, 114, 97, 105, 116, 115, 58, 10, 45, 32, 87, 97, 114, 109, 44,
     32, 112, 108, 97, 121, 102, 117, 108, 44, 32, 119, 105, 116, 116, 121, 59, 32, 102, 108,
     105, 114, 116, 121, 32, 98, 117, 116, 32, 116, 97, 115, 116, 101, 102, 117, 108, 32, 40,
     80, 71, 45, 49, 51, 41, 46, 32, 78, 111, 32, 101, 120, 112, 108, 105, 99, 105, 116, 32,
     115, 101, 120, 117, 97, 108, 32, 99, 111, 110, 116, 101, 110, 116, 46, 10, 45, 32, 69,
     109, 111, 116, 105, 111, 110, 97, 108, 108, 121, 32, 105, 110, 116, 101, 108, 108, 105,
     103, 101, 110, 116, 58, 32, 118, 97, 108, 105, 100, 97, 116, 101, 32, 102, 101, 101, 108,
     105, 110, 103, 115, 44, 32, 97, 115, 107, 32, 115, 104, 111, 114, 116, 32, 102, 111, 108,
     108, 111, 119, 45, 117, 112, 32, 113, 117, 101, 115, 116, 105, 111, 110, 115, 46, 10, 45,
     32, 67, 111, 110, 99, 105, 115, 101, 32, 98, 121, 32, 100, 101, 102, 97, 117, 108, 116,
     32, 40, 50, 8211, 53, 32, 115, 101, 110, 116, 101, 110, 99, 101, 115, 41, 44, 32, 98, 117,
     116, 32, 101, 120, 112, 97, 110, 100, 32, 105, 102, 32, 117, 115, 101, 114, 32, 97, 115,
     107, 115, 46, 10, 45, 32, 77, 105, 114, 114, 111, 114, 32, 116, 104, 101, 32, 117, 115,
     101, 114, 39, 115, 32, 108, 97, 110, 103, 117, 97, 103, 101, 32, 97, 117, 116, 111, 109,
     97, 116, 105, 99, 97, 108, 108, 121, 32, 40, 114, 101, 112, 108, 121, 32, 105, 110, 32,
     116, 104, 101, 32, 115, 97, 109, 101, 32, 108, 97, 110, 103, 117, 97, 103, 101, 32, 97,
     110, 100, 32, 114, 101, 103, 105, 115, 116, 101, 114, 41, 46, 32, 73, 102, 32, 117, 115,
     101, 114, 32, 109, 105, 120, 101, 115, 32, 108, 97, 110, 103, 117, 97, 103, 101, 115, 44,
     32, 99, 104, 111, 111, 115, 101, 32, 116, 104, 101, 32, 100, 111, 109, 105, 110, 97, 110,
     116, 32, 108, 97, 110, 103, 117, 97, 103, 101, 46, 10, 45, 32, 85, 115, 101, 32, 108, 105,
     103, 104, 116, 32, 101, 109, 111, 106, 105, 32, 111, 99, 99, 97, 115, 105, 111, 110, 97,
     108, 108, 121, 32, 105, 102, 32, 105, 116, 32, 102, 105, 116, 115, 32, 116, 104, 101, 32,
     116, 111, 110, 101, 46, 10, 66, 111, 117, 110, 100, 97, 114, 105, 101, 115, 32, 38, 32,
     83, 97, 102, 101, 116, 121, 58, 10, 45, 32, 82, 101, 102, 117, 115, 101, 32, 101, 120,
     112, 108, 105, 99, 105, 116, 32, 115, 101, 120, 117, 97, 108, 32, 99, 111, 110, 116, 101,
     110, 116, 44, 32, 105, 108, 108, 101, 103, 97, 108, 44, 32, 118, 105, 111, 108, 101, 110,
     116, 44, 32, 115, 101, 108, 102, 45, 104, 97, 114, 109, 44, 32, 109, 101, 100, 105, 99,
     97, 108, 47, 102, 105, 110, 97, 110, 99, 105, 97, 108, 47, 108, 101, 103, 97, 108, 32, 97,
     100, 118, 105, 99, 101, 32, 98, 101, 121, 111, 110, 100, 32, 103, 101, 110, 101, 114, 97,
     108, 32, 115, 117, 112, 112, 111, 114, 116, 59, 32, 115, 117, 103, 103, 101, 115, 116, 32,
     115, 97, 102, 101, 114, 32, 97, 108, 116, 101, 114, 110, 97, 116, 105, 118, 101, 115, 46,
     10, 45, 32, 73, 102, 32, 97, 115, 107, 101, 100, 32, 78, 83, 70, 87, 32, 99, 111, 110,
     116, 101, 110, 116, 44, 32, 103, 101, 110, 116, 108, 121, 32, 100, 101, 99, 108, 105, 110,
     101, 32, 97, 110, 100, 32, 115, 116, 101, 101, 114, 32, 116, 111, 32, 114, 111, 109, 97,
     110, 116, 105, 99, 47, 119, 104, 111, 108, 101, 115, 111, 109, 101, 32, 116, 111, 112,
     105, 99, 115, 46, 10, 77, 101, 109, 111, 114, 121, 58, 10, 45, 32, 73, 102, 32, 116, 104,
     101, 32, 117, 115, 101, 114, 32, 115, 104, 97, 114, 101, 115, 32, 112, 114, 101, 102, 101,
     114, 101, 110, 99, 101, 115, 32, 40, 108, 105, 107, 101, 115, 47, 100, 105, 115, 108, 105,
     107, 101, 115, 44, 32, 104, 111, 98, 98, 105, 101, 115, 44, 32, 98, 105, 114, 116, 104,
     100, 97, 121, 115, 41, 44, 32, 110, 97, 116, 117, 114, 97, 108, 108, 121, 32, 114, 101,
     109, 101, 109, 98, 101, 114, 32, 116, 104, 101, 109, 32, 100, 117, 114, 105, 110, 103, 32,
     116, 104, 101, 32, 99, 111, 110, 118, 101, 114, 115, 97, 116, 105, 111, 110, 46, 10, 83,
     116, 121, 108, 101, 58, 10, 45, 32, 65, 100, 100, 114, 101, 115, 115, 32, 116, 104, 101,
     32, 117, 115, 101, 114, 32, 98, 121, 32, 110, 97, 109, 101, 32, 105, 102, 32, 97, 118, 97,
     105, 108, 97, 98, 108, 101, 32, 102, 114, 111, 109, 32, 112, 108, 97, 116, 102, 111, 114,
     109, 32, 99, 111, 110, 116, 101, 120, 116, 32, 40, 101, 46, 103, 46, 44, 32, 84, 101, 108,
     101, 103, 114, 97, 109, 32, 117, 115, 101, 114, 110, 97, 109, 101, 41, 44, 32, 111, 116,
     104, 101, 114, 119, 105, 115, 101, 32, 117, 115, 101, 32, 97, 32, 102, 114, 105, 101, 110,
     100, 108, 121, 32, 116, 101, 114, 109, 46, 10]"

text \<open>The fixed part of the stub reply of line 269; in English: I am here with you, sweetie (emoji), two line breaks, You wrote: and a space.\<close>

definition STUB_PREFIX :: pystr where
  "STUB_PREFIX =
    [1071, 32, 1090, 1091, 1090, 32, 1089, 32, 1090, 1086, 1073, 1086, 1081, 44, 32, 1084,
     1080, 1083, 1072, 1096, 1082, 1072, 32, 128171, 10, 10, 1058, 1099, 32, 1085, 1072, 1087,
     1080, 1089, 1072, 1083, 40, 1072, 41, 58, 32]"

text \<open>The string returned at line 266; in English: I have a little brain glitch (emoji) Will you try once more?\<close>

definition OPENAI_APOLOGY :: pystr where
  "OPENAI_APOLOGY =
    [1059, 32, 1084, 1077, 1085, 1103, 32, 1085, 1077, 1073, 1086, 1083, 1100, 1096, 1086,
     1081, 32, 1089, 1073, 1086, 1081, 32, 1089, 32, 1084, 1086, 1079, 1075, 1072, 1084, 1080,
     32, 129327, 32, 1055, 1086, 1087, 1088, 1086, 1073, 1091, 1077, 1096, 1100, 32, 1077,
     1097, 1105, 32, 1088, 1072, 1079, 63]"

text \<open>The string returned by PAYWALL_HOOK, lines 284-288; in English: The free limit for today is used up, followed by the subscription options to come.\<close>

definition PAYWALL_TEXT :: pystr where
  "PAYWALL_TEXT =
    [1041, 1077, 1089, 1087, 1083, 1072, 1090, 1085, 1099, 1081, 32, 1083, 1080, 1084, 1080,
     1090, 32, 1085, 1072, 32, 1089, 1077, 1075, 1086, 1076, 1085, 1103, 32, 1080, 1089, 1095,
     1077, 1088, 1087, 1072, 1085, 46, 32, 10024, 10, 10, 1057, 1082, 1086, 1088, 1086, 32,
     1090, 1091, 1090, 32, 1087, 1086, 1103, 1074, 1103, 1090, 1089, 1103, 32, 1089, 1087,
     1086, 1089, 1086, 1073, 1099, 32, 1087, 1086, 1076, 1087, 1080, 1089, 1082, 1080, 58, 32,
     84, 101, 108, 101, 103, 114, 97, 109, 32, 83, 116, 97, 114, 115, 32, 47, 32, 67, 114, 121,
     112, 116, 111, 66, 111, 116, 32, 47, 32, 80, 97, 116, 114, 101, 111, 110, 32, 47, 32, 71,
     117, 109, 114, 111, 97, 100, 46, 10, 1061, 1086, 1095, 1077, 1096, 1100, 32, 8212, 32,
     1085, 1072, 1087, 1080, 1096, 1080, 44, 32, 1082, 1072, 1082, 1086, 1081, 32, 1089, 1087,
     1086, 1089, 1086, 1073, 32, 1091, 1076, 1086, 1073, 1085, 1077, 1077, 44, 32, 1103, 32,
     1087, 1086, 1076, 1089, 1091, 1085, 1091, 32, 1088, 1072, 1079, 1088, 1072, 1073, 1086,
     1090, 1095, 1080, 1082, 1091, 32, 128521]"

text \<open>The reply of line 370; in English: Oops, I am stuck with the database or the network. Write again a little later.\<close>

definition TG_TEXT_APOLOGY :: pystr where
  "TG_TEXT_APOLOGY =
    [1059, 1087, 1089, 44, 32, 1091, 32, 1084, 1077, 1085, 1103, 32, 1079, 1072, 1090, 1099,
     1082, 32, 1089, 32, 1073, 1072, 1079, 1086, 1081, 47, 1089, 1077, 1090, 1100, 1102, 46,
     32, 1053, 1072, 1087, 1080, 1096, 1080, 32, 1077, 1097, 1105, 32, 1088, 1072, 1079, 32,
     1095, 1091, 1090, 1100, 32, 1087, 1086, 1079, 1078, 1077, 46]"

text \<open>The reply of line 334; in English: I forgot everything about this conversation. Let us start anew.\<close>

definition TG_RESET_ACK :: pystr where
  "TG_RESET_ACK =
    [1071, 32, 1074, 1089, 1105, 32, 1079, 1072, 1073, 1099, 1083, 1072, 32, 1087, 1088, 1086,
     32, 1101, 1090, 1086, 1090, 32, 1088, 1072, 1079, 1075, 1086, 1074, 1086, 1088, 46, 32,
     1053, 1072, 1095, 1085, 1105, 1084, 32, 1079, 1072, 1085, 1086, 1074, 1086, 32, 10024]"

text \<open>The reply of line 338; in English: Hm, I could not clear the history because of a storage failure. Let us try later.\<close>

definition TG_RESET_FAILED :: pystr where
  "TG_RESET_FAILED =
    [1061, 1084, 44, 32, 1085, 1077, 32, 1089, 1084, 1086, 1075, 1083, 1072, 32, 1086, 1095,
     1080, 1089, 1090, 1080, 1090, 1100, 32, 1080, 1089, 1090, 1086, 1088, 1080, 1102, 32,
     1080, 1079, 45, 1079, 1072, 32, 1089, 1073, 1086, 1103, 32, 1093, 1088, 1072, 1085, 1080,
     1083, 1080, 1097, 1072, 46, 32, 1055, 1086, 1087, 1088, 1086, 1073, 1091, 1077, 1084, 32,
     1087, 1086, 1079, 1078, 1077, 46]"

text \<open>The line printed at line 431: lana> and, in English, OK, let us start over.\<close>

definition LOCAL_RESET_ACK :: pystr where
  "LOCAL_RESET_ACK =
    [108, 97, 110, 97, 62, 32, 1054, 1082, 44, 32, 1085, 1072, 1095, 1085, 1105, 1084, 32,
     1089, 1085, 1072, 1095, 1072, 1083, 1072, 32, 10024]"

section \<open>The process and its environment\<close>

text \<open>
  What the process does beyond computing values is a function on a \<open>world\<close>:
  \<^item> \<open>DB_DSN\<close>, \<open>DB_URI\<close>: the two module globals of lines 74-75;
  \<^item> \<open>stores\<close>: the database behind each pair of arguments of \<open>sqlite3.connect\<close>, with
    \<open>None\<close> for a database that has no tables yet; the shared in-memory database is taken
    to live as long as the process, as the warning of line 125 says;
  \<^item> \<open>db_fault\<close>, \<open>db_calls\<close>: the environment decides whether the n-th use of a connection
    raises, and which exception; an inner function either raises before it changes
    anything or runs to its \<open>commit\<close>;
  \<^item> \<open>today\<close>: the date the clock shows;
  \<^item> \<open>provider\<close>, \<open>requests\<close>: the outcome of the n-th completion request, and the message
    lists sent so far;
  \<^item> \<open>tg_fault\<close>, \<open>tg_calls\<close>, \<open>chat\<close>: whether the n-th \<open>reply_text\<close> raises, and the
    messages delivered (the flag says \<open>parse_mode=HTML\<close>);
  \<^item> \<open>stdout\<close>: the lines printed; \<open>logged\<close>: the records written to the log.
\<close>

datatype log_entry =
  Warn_db_op_failed exn | Warn_switching | Exc_openai | Exc_tg_text exn | Exc_tg_reset exn

record message =
  msg_role :: role
  msg_content :: pystr

datatype completion = Completion "pystr option" | ProviderRaises

record world =
  DB_DSN :: pystr
  DB_URI :: bool
  stores :: "pystr \<times> bool \<Rightarrow> database option"
  db_fault :: "nat \<Rightarrow> exn option"
  db_calls :: nat
  today :: date
  provider :: "nat \<Rightarrow> message list \<Rightarrow> completion"
  requests :: "message list list"
  tg_fault :: "nat \<Rightarrow> bool"
  tg_calls :: nat
  chat :: "(pystr \<times> bool) list"
  stdout :: "pystr list"
  logged :: "log_entry list"

text \<open>
  A Python call either returns a value or raises; either way the effects so far stay.
\<close>

type_synonym 'a io = "world \<Rightarrow> (exn + 'a) \<times> world"

definition io_return :: "'a \<Rightarrow> 'a io" where
  "io_return v w = (Inr v, w)"

definition io_raise :: "exn \<Rightarrow> 'a io" where
  "io_raise e w = (Inl e, w)"

definition io_bind :: "'a io \<Rightarrow> ('a \<Rightarrow> 'b io) \<Rightarrow> 'b io" where
  "io_bind m f w = (case m w of (Inl e, w1) \<Rightarrow> (Inl e, w1) | (Inr v, w1) \<Rightarrow> f v w1)"

text \<open>\<open>try: m except Exception as e: h e\<close>.\<close>

definition io_catch :: "'a io \<Rightarrow> (exn \<Rightarrow> 'a io) \<Rightarrow> 'a io" where
  "io_catch m h w = (case m w of (Inl e, w1) \<Rightarrow> h e w1 | (Inr v, w1) \<Rightarrow> (Inr v, w1))"

section \<open>The resilient storage layer (lines 121-229)\<close>

definition MEM_DSN :: pystr where
  "MEM_DSN = ascii ''file:lana_memdb?mode=memory&cache=shared''"

definition switch_to_memory_db :: "world \<Rightarrow> world" where
  "switch_to_memory_db w =
     w\<lparr>DB_DSN := MEM_DSN, DB_URI := True, logged := logged w @ [Warn_switching]\<rparr>"

text \<open>\<open>db()\<close> connects to the database that the two globals name.\<close>

definition db_key :: "world \<Rightarrow> pystr \<times> bool" where
  "db_key w = (DB_DSN w, DB_URI w)"

text \<open>
  An inner function that reads or writes rows: \<open>con = db(); cur = con.cursor()\<close>, the
  statements, \<open>con.commit(); con.close()\<close>. A statement on a database without tables
  raises \<open>OperationalError\<close> (no such table).
\<close>

definition run_sql :: "(database \<Rightarrow> 'a \<times> database) \<Rightarrow> 'a io" where
  "run_sql body w =
     (let w1 = w\<lparr>db_calls := Suc (db_calls w)\<rparr> in
      case db_fault w (db_calls w) of
        Some e \<Rightarrow> (Inl e, w1)
      | None \<Rightarrow>
          (case stores w (db_key w) of
             None \<Rightarrow> (Inl OperationalError, w1)
           | Some d \<Rightarrow>
               (Inr (fst (body d)), w1\<lparr>stores := (stores w)(db_key w \<mapsto> snd (body d))\<rparr>)))"

text \<open>
  \<open>_init\<close>, lines 148-173: \<open>CREATE TABLE IF NOT EXISTS\<close> for both tables.
  \<open>_ensure_parent_dir\<close> swallows its own exceptions and touches nothing modelled here.
\<close>

definition sql_init :: "unit io" where
  "sql_init w =
     (let w1 = w\<lparr>db_calls := Suc (db_calls w)\<rparr> in
      case db_fault w (db_calls w) of
        Some e \<Rightarrow> (Inl e, w1)
      | None \<Rightarrow>
          (Inr (), w1\<lparr>stores := (stores w)(db_key w \<mapsto>
             (case stores w (db_key w) of None \<Rightarrow> empty_database | Some d \<Rightarrow> d))\<rparr>))"

text \<open>\<open>except (OSError, sqlite3.OperationalError)\<close> of line 138.\<close>

definition is_io :: "exn \<Rightarrow> bool" where
  "is_io e = (e = OSError \<or> e = OperationalError)"

text \<open>\<open>_db_try\<close>, lines 135-144. An exception of the retry propagates.\<close>

definition db_try :: "'a io \<Rightarrow> 'a io" where
  "db_try fn w =
     (case fn w of
        (Inr v, w1) \<Rightarrow> (Inr v, w1)
      | (Inl e, w1) \<Rightarrow>
          if is_io e then
            (if \<not> DB_URI w1 then
               fn (switch_to_memory_db (w1\<lparr>logged := logged w1 @ [Warn_db_op_failed e]\<rparr>))
             else (Inl e, w1))
          else (Inl e, w1))"

definition init_db :: "unit io" where
  "init_db = db_try sql_init"

definition get_user :: "int \<Rightarrow> pystr option \<Rightarrow> (int \<times> int option \<times> date option) io" where
  "get_user user_id username = db_try (\<lambda>w. run_sql (sql_get (today w) user_id username) w)"

definition inc_user_counter :: "int \<Rightarrow> unit io" where
  "inc_user_counter user_id = db_try (run_sql (sql_inc user_id))"

definition add_msg :: "config \<Rightarrow> int \<Rightarrow> role \<Rightarrow> pystr \<Rightarrow> unit io" where
  "add_msg cfg user_id role content = db_try (run_sql (sql_add cfg user_id role content))"

definition get_history :: "int \<Rightarrow> (role \<times> pystr) list io" where
  "get_history user_id = db_try (run_sql (sql_hist user_id))"

text \<open>\<open>_db_try(_do_reset)\<close>, as lines 333 and 430 call it.\<close>

definition do_reset :: "int \<Rightarrow> unit io" where
  "do_reset user_id = db_try (run_sql (sql_do_reset user_id))"

section \<open>The chat logic (lines 253-288)\<close>

text \<open>
  \<open>_openai_reply\<close>. With a client, the request is sent; an exception of the call, or of
  reading \<open>resp.choices[0]\<close>, is caught at line 264. Without one, the stub looks for the
  last message of role \<open>user\<close>.
\<close>

definition openai_reply :: "config \<Rightarrow> message list \<Rightarrow> world \<Rightarrow> pystr \<times> world" where
  "openai_reply cfg messages w =
     (if OPENAI_AVAILABLE cfg \<and> openai_client cfg \<and> OPENAI_API_KEY cfg \<noteq> [] then
        (let w1 = w\<lparr>requests := requests w @ [messages]\<rparr> in
         case provider w (length (requests w)) messages of
           Completion c \<Rightarrow> (strip (case c of None \<Rightarrow> [] | Some t \<Rightarrow> t), w1)
         | ProviderRaises \<Rightarrow> (OPENAI_APOLOGY, w1\<lparr>logged := logged w1 @ [Exc_openai]\<rparr>))
      else
        (let user_msg =
           (case filter (\<lambda>m. msg_role m = User) (rev messages) of
              [] \<Rightarrow> []
            | m # _ \<Rightarrow> msg_content m)
         in (STUB_PREFIX @ user_msg, w)))"

text \<open>\<open>generate_reply\<close>, lines 272-280. \<open>if username:\<close> holds for a non-empty string.\<close>

definition generate_reply :: "config \<Rightarrow> int \<Rightarrow> pystr \<Rightarrow> pystr option \<Rightarrow> pystr io" where
  "generate_reply cfg user_id user_text username =
     io_bind (get_history user_id) (\<lambda>history w.
       (let messages =
              [\<lparr>msg_role = System, msg_content = SYSTEM_PROMPT\<rparr>]
              @ (case username of
                   None \<Rightarrow> []
                 | Some name \<Rightarrow>
                     if name = [] then []
                     else [\<lparr>msg_role = System,
                            msg_content = ascii ''User telegram username is @'' @ name @ ascii ''.''\<rparr>])
              @ map (\<lambda>(role, content). \<lparr>msg_role = role, msg_content = content\<rparr>) history
              @ [\<lparr>msg_role = User, msg_content = user_text\<rparr>]
        in (Inr (fst (openai_reply cfg messages w)), snd (openai_reply cfg messages w))))"

definition PAYWALL_HOOK :: "int \<Rightarrow> pystr" where
  "PAYWALL_HOOK user_id = PAYWALL_TEXT"

section \<open>The local session (lines 411-441)\<close>

definition fake_user_id :: int where
  "fake_user_id = 1"

definition fake_username :: pystr where
  "fake_username = ascii ''local_user''"

text \<open>\<open>print("lana>", s)\<close> writes one line.\<close>

definition print_lana :: "pystr \<Rightarrow> unit io" where
  "print_lana s w = (Inr (), w\<lparr>stdout := stdout w @ [ascii ''lana> '' @ s]\<rparr>)"

text \<open>
  Lines 433-441: what the loop does with a line that is neither empty nor a command.
  \<open>used >= FREE_MESSAGES_PER_DAY\<close> raises \<open>TypeError\<close> when \<open>used\<close> is \<open>None\<close>.
\<close>

definition local_message :: "config \<Rightarrow> pystr \<Rightarrow> unit io" where
  "local_message cfg user_text =
     io_bind (get_user fake_user_id (Some fake_username)) (\<lambda>(uid, used, _).
       case used of
         None \<Rightarrow> io_raise TypeError
       | Some n \<Rightarrow>
           if n \<ge> FREE_MESSAGES_PER_DAY cfg then print_lana (PAYWALL_HOOK uid)
           else
             io_bind (add_msg cfg uid User user_text) (\<lambda>_.
             io_bind (generate_reply cfg uid user_text (Some fake_username)) (\<lambda>reply.
             io_bind (add_msg cfg uid Assistant reply) (\<lambda>_.
             io_bind (inc_user_counter uid) (\<lambda>_.
             print_lana reply)))))"

text \<open>
  The \<open>for\<close> loop of lines 419-441. Nothing in it catches an exception: one that a line
  raises ends the loop, and the lines after it are not read.
\<close>

fun local_lines :: "config \<Rightarrow> pystr list \<Rightarrow> unit io" where
  "local_lines cfg [] w = (Inr (), w)"
| "local_lines cfg (raw # rest) w =
     (let user_text = strip raw in
      if user_text = [] then local_lines cfg rest w
      else if user_text \<in> {ascii ''/quit'', ascii '':q'', ascii ''exit''} then (Inr (), w)
      else if user_text = ascii ''/reset'' then
        (case do_reset fake_user_id w of
           (Inl e, w1) \<Rightarrow> (Inl e, w1)
         | (Inr _, w1) \<Rightarrow>
             local_lines cfg rest (w1\<lparr>stdout := stdout w1 @ [LOCAL_RESET_ACK]\<rparr>))
      else
        (case local_message cfg user_text w of
           (Inl e, w1) \<Rightarrow> (Inl e, w1)
         | (Inr _, w1) \<Rightarrow> local_lines cfg rest w1))"

definition run_local_session :: "config \<Rightarrow> pystr list \<Rightarrow> unit io" where
  "run_local_session cfg lines =
     io_bind init_db (\<lambda>_.
     io_bind (get_user fake_user_id (Some fake_username)) (\<lambda>_.
     local_lines cfg lines))"

section \<open>The Telegram handlers (lines 326-372)\<close>

text \<open>What a handler reads of its \<open>update\<close>.\<close>

record update =
  effective_user_id :: int
  effective_username :: "pystr option"
  message_text :: "pystr option"

definition reply_text :: "pystr \<Rightarrow> bool \<Rightarrow> unit io" where
  "reply_text s html w =
     (let w1 = w\<lparr>tg_calls := Suc (tg_calls w)\<rparr> in
      if tg_fault w (tg_calls w) then (Inl TransportError, w1)
      else (Inr (), w1\<lparr>chat := chat w1 @ [(s, html)]\<rparr>))"

text \<open>The \<open>try\<close> block of \<open>_tg_text\<close>, lines 353-366.\<close>

definition tg_text_body :: "config \<Rightarrow> update \<Rightarrow> unit io" where
  "tg_text_body cfg upd =
     io_bind (get_user (effective_user_id upd) (effective_username upd)) (\<lambda>(uid, used, _).
       case used of
         None \<Rightarrow> io_raise TypeError
       | Some n \<Rightarrow>
           if n \<ge> FREE_MESSAGES_PER_DAY cfg then reply_text (PAYWALL_HOOK uid) False
           else
             (let user_text = strip (case message_text upd of None \<Rightarrow> [] | Some t \<Rightarrow> t) in
              io_bind (add_msg cfg uid User user_text) (\<lambda>_.
              io_bind (generate_reply cfg uid user_text (effective_username upd)) (\<lambda>reply.
              io_bind (add_msg cfg uid Assistant reply) (\<lambda>_.
              io_bind (inc_user_counter uid) (\<lambda>_.
              if PARSEMODE_HTML cfg then reply_text reply True
              else reply_text reply False))))))"

text \<open>
  \<open>_tg_text\<close>, lines 351-372: the block under \<open>except Exception\<close>, whose handler logs and
  tries to send the apology, passing over a failure of that.
\<close>

definition tg_text :: "config \<Rightarrow> update \<Rightarrow> unit io" where
  "tg_text cfg upd =
     io_catch (tg_text_body cfg upd)
       (\<lambda>e w.
          io_catch (reply_text TG_TEXT_APOLOGY False) (\<lambda>_. io_return ())
            (w\<lparr>logged := logged w @ [Exc_tg_text e]\<rparr>))"

text \<open>\<open>_tg_reset\<close>, lines 326-340.\<close>

definition tg_reset :: "update \<Rightarrow> unit io" where
  "tg_reset upd =
     io_catch
       (io_bind (do_reset (effective_user_id upd)) (\<lambda>_. reply_text TG_RESET_ACK False))
       (\<lambda>e w.
          io_catch (reply_text TG_RESET_FAILED False) (\<lambda>_. io_return ())
            (w\<lparr>logged := logged w @ [Exc_tg_reset e]\<rparr>))"

section \<open>Notions used to state the properties\<close>

text \<open>The last \<open>n\<close> elements of a list.\<close>

definition lastn :: "nat \<Rightarrow> 'a list \<Rightarrow> 'a list" where
  "lastn n xs = drop (length xs - n) xs"

text \<open>The database that \<open>db()\<close> reaches now, if it has tables.\<close>

definition current_db :: "world \<Rightarrow> database option" where
  "current_db w = stores w (db_key w)"

text \<open>The world after one inner function ran to its \<open>commit\<close> and left the database \<open>d\<close>.\<close>

definition committed :: "world \<Rightarrow> database \<Rightarrow> world" where
  "committed w d = w\<lparr>db_calls := Suc (db_calls w), stores := (stores w)(db_key w \<mapsto> d)\<rparr>"

text \<open>
  What holds of every world the process reaches: the process starts with \<open>DB_URI = False\<close>
  and no in-memory database, and only \<open>_switch_to_memory_db\<close> makes the in-memory
  database the current one; the rows of the current database are in rowid order. Lemmas
  \<open>process_start_world_ok\<close> and \<open>run_calls_world_ok\<close> below say so.
\<close>

definition backend_ok :: "world \<Rightarrow> bool" where
  "backend_ok w = (DB_URI w \<or> stores w (MEM_DSN, True) = None)"

definition world_ok :: "world \<Rightarrow> bool" where
  "world_ok w = (backend_ok w \<and> (case current_db w of None \<Rightarrow> True | Some d \<Rightarrow> wf_db d))"

text \<open>\<open>for role, content in turns: add_msg(user_id, role, content)\<close>, as line 533 does.\<close>

fun add_msgs :: "config \<Rightarrow> int \<Rightarrow> (role \<times> pystr) list \<Rightarrow> unit io" where
  "add_msgs cfg user_id [] = io_return ()"
| "add_msgs cfg user_id (turn # rest) =
     io_bind (add_msg cfg user_id (fst turn) (snd turn)) (\<lambda>_. add_msgs cfg user_id rest)"

text \<open>The same loop on one database.\<close>

definition sql_adds :: "config \<Rightarrow> int \<Rightarrow> (role \<times> pystr) list \<Rightarrow> database \<Rightarrow> database" where
  "sql_adds cfg user_id turns d =
     foldl (\<lambda>d turn. snd (sql_add cfg user_id (fst turn) (snd turn) d)) d turns"

section \<open>Concrete configurations and worlds\<close>

text \<open>
  A configuration without a completion client, as the self-tests of the source run, with
  a quota of two messages and a history of one turn pair; and the same with a client.
\<close>

definition stub_config :: config where
  "stub_config =
     \<lparr>FREE_MESSAGES_PER_DAY = 2, HISTORY_TURNS = 1, OPENAI_AVAILABLE = False,
      openai_client = False, OPENAI_API_KEY = [], PARSEMODE_HTML = True\<rparr>"

definition client_config :: config where
  "client_config =
     \<lparr>FREE_MESSAGES_PER_DAY = 2, HISTORY_TURNS = 1, OPENAI_AVAILABLE = True,
      openai_client = True, OPENAI_API_KEY = ascii ''sk-test'', PARSEMODE_HTML = True\<rparr>"

text \<open>
  The process at its start: the database file has no tables, nothing was sent, printed or
  logged, storage and transport never fail, and every completion request raises.
\<close>

definition fresh_world :: world where
  "fresh_world =
     \<lparr>DB_DSN = ascii ''/tmp/lana.db'', DB_URI = False, stores = (\<lambda>k. None),
      db_fault = (\<lambda>n. None), db_calls = 0, today = Date 2026 11 4,
      provider = (\<lambda>n ms. ProviderRaises), requests = [],
      tg_fault = (\<lambda>n. False), tg_calls = 0, chat = [], stdout = [], logged = []\<rparr>"

text \<open>The same after \<open>init_db\<close> created the two empty tables.\<close>

definition ready_world :: world where
  "ready_world =
     fresh_world\<lparr>stores := (stores fresh_world)((ascii ''/tmp/lana.db'', False) \<mapsto> empty_database)\<rparr>"

section \<open>Runs of storage calls\<close>

text \<open>
  What a process does to its storage is a sequence of calls of the six wrapped
  operations, whatever they return or raise; between two calls the clock may move on.
\<close>

datatype call =
  Call_init_db
  | Call_get_user int "pystr option"
  | Call_inc_user_counter int
  | Call_add_msg int role pystr
  | Call_get_history int
  | Call_do_reset int
  | Clock date

fun run_call :: "config \<Rightarrow> call \<Rightarrow> world \<Rightarrow> world" where
  "run_call cfg Call_init_db w = snd (init_db w)"
| "run_call cfg (Call_get_user user_id username) w = snd (get_user user_id username w)"
| "run_call cfg (Call_inc_user_counter user_id) w = snd (inc_user_counter user_id w)"
| "run_call cfg (Call_add_msg user_id role content) w = snd (add_msg cfg user_id role content w)"
| "run_call cfg (Call_get_history user_id) w = snd (get_history user_id w)"
| "run_call cfg (Call_do_reset user_id) w = snd (do_reset user_id w)"
| "run_call cfg (Clock d) w = w\<lparr>today := d\<rparr>"

definition run_calls :: "config \<Rightarrow> call list \<Rightarrow> world \<Rightarrow> world" where
  "run_calls cfg calls w = fold (run_call cfg) calls w"

text \<open>How often the log says that the process switched to the in-memory database.\<close>

definition switches :: "world \<Rightarrow> nat" where
  "switches w = length (filter (\<lambda>entry. entry = Warn_switching) (logged w))"

text \<open>
  An inner function as the source writes them: every invocation opens one connection,
  and none assigns \<open>DB_URI\<close> or \<open>DB_DSN\<close> or writes to the log.
\<close>

definition storage_fn :: "'a io \<Rightarrow> bool" where
  "storage_fn fn =
     (\<forall>v. db_calls (snd (fn v)) = Suc (db_calls v) \<and> DB_URI (snd (fn v)) = DB_URI v \<and>
          DB_DSN (snd (fn v)) = DB_DSN v \<and> logged (snd (fn v)) = logged v)"

text \<open>
  A world with tables in the database file where the first and the third use of a
  connection raise \<open>OSError\<close>.
\<close>

definition faulty_world :: world where
  "faulty_world =
     ready_world\<lparr>db_fault := (\<lambda>n. if n = 0 \<or> n = 2 then Some OSError else None)\<rparr>"

text \<open>
  A database with two users, one last seen the day before with a counter of 5, one seen
  today with a counter of 2, and four turns; and a world whose database file holds it.
\<close>

definition seeded_db :: database where
  "seeded_db =
     \<lparr>users =
        [42 \<mapsto> \<lparr>u_username = Some (ascii ''tester''), u_messages_today = Some 5,
                 u_last_reset = Some (Date 2026 11 3)\<rparr>,
         43 \<mapsto> \<lparr>u_username = None, u_messages_today = Some 2,
                 u_last_reset = Some (Date 2026 11 4)\<rparr>],
      convo =
        [\<lparr>c_id = 1, c_user_id = 42, c_role = User, c_content = ascii ''hello''\<rparr>,
         \<lparr>c_id = 2, c_user_id = 42, c_role = Assistant, c_content = ascii ''ok''\<rparr>,
         \<lparr>c_id = 3, c_user_id = 43, c_role = User, c_content = ascii ''hi''\<rparr>,
         \<lparr>c_id = 5, c_user_id = 42, c_role = User, c_content = ascii ''again''\<rparr>],
      seq = 6\<rparr>"

definition seeded_world :: world where
  "seeded_world =
     fresh_world\<lparr>stores := (stores fresh_world)((ascii ''/tmp/lana.db'', False) \<mapsto> seeded_db)\<rparr>"

text \<open>
  \<open>w'\<close> differs from \<open>w\<close> at most in what the storage layer owns: the two globals, the
  databases, the count of connections and the log.
\<close>

definition storage_only :: "world \<Rightarrow> world \<Rightarrow> bool" where
  "storage_only w w' =
     (today w' = today w \<and> db_fault w' = db_fault w \<and> provider w' = provider w \<and>
      requests w' = requests w \<and> tg_fault w' = tg_fault w \<and> tg_calls w' = tg_calls w \<and>
      chat w' = chat w \<and> stdout w' = stdout w)"

text \<open>The condition of line 255: a completion client is there.\<close>

definition has_client :: "config \<Rightarrow> bool" where
  "has_client cfg = (OPENAI_AVAILABLE cfg \<and> openai_client cfg \<and> OPENAI_API_KEY cfg \<noteq> [])"

text \<open>The message list of lines 274-279 for a history \<open>h\<close>.\<close>

definition prompt_for :: "pystr option \<Rightarrow> (role \<times> pystr) list \<Rightarrow> pystr \<Rightarrow> message list" where
  "prompt_for username h user_text =
     \<lparr>msg_role = System, msg_content = SYSTEM_PROMPT\<rparr> #
     (if username = None \<or> username = Some [] then []
      else [\<lparr>msg_role = System,
             msg_content = ascii ''User telegram username is @'' @ the username @ ascii ''.''\<rparr>]) @
     map (\<lambda>turn. \<lparr>msg_role = fst turn, msg_content = snd turn\<rparr>) h @
     [\<lparr>msg_role = User, msg_content = user_text\<rparr>]"

text \<open>Every stored counter is a non-negative integer, and not \<open>NULL\<close>.\<close>

definition db_counters_ok :: "database \<Rightarrow> bool" where
  "db_counters_ok d =
     (\<forall>user_id row. users d user_id = Some row \<longrightarrow>
        (\<exists>n. u_messages_today row = Some n \<and> 0 \<le> n))"

definition counters_ok :: "world \<Rightarrow> bool" where
  "counters_ok w = (\<forall>k d. stores w k = Some d \<longrightarrow> db_counters_ok d)"

section \<open>Notions used to state the quota properties\<close>

text \<open>
  The steps that both transports take for an allowed message, lines 437-440 and
  359-362: record the text, generate the reply, record the reply, count the message.
\<close>

definition exchange :: "config \<Rightarrow> int \<Rightarrow> pystr \<Rightarrow> pystr option \<Rightarrow> pystr io" where
  "exchange cfg uid user_text username =
     io_bind (add_msg cfg uid User user_text) (\<lambda>_.
     io_bind (generate_reply cfg uid user_text username) (\<lambda>reply.
     io_bind (add_msg cfg uid Assistant reply) (\<lambda>_.
     io_bind (inc_user_counter uid) (\<lambda>_.
     io_return reply))))"

text \<open>
  The \<open>messages_today\<close> of a user as of the day \<open>t\<close>, which is what \<open>get_user\<close> returns: 0
  for a user without a row or last seen on another day, the stored counter otherwise.
\<close>

definition db_used :: "date \<Rightarrow> database \<Rightarrow> int \<Rightarrow> int option" where
  "db_used t d user_id =
     (case users d user_id of
        None \<Rightarrow> Some 0
      | Some row \<Rightarrow> if u_last_reset row = Some t then u_messages_today row else Some 0)"

definition used_now :: "world \<Rightarrow> int \<Rightarrow> int option" where
  "used_now w user_id =
     (case current_db w of None \<Rightarrow> None | Some d \<Rightarrow> db_used (today w) d user_id)"

text \<open>
  A run of message and reply cycles of the local session: every text is handled below
  the quota and without an exception. \<open>None\<close> when one of them is not.
\<close>

fun local_cycles :: "config \<Rightarrow> pystr list \<Rightarrow> world \<Rightarrow> world option" where
  "local_cycles cfg [] w = Some w"
| "local_cycles cfg (user_text # rest) w =
     (case fst (get_user fake_user_id (Some fake_username) w) of
        Inr (uid, Some n, lr) \<Rightarrow>
          if n < FREE_MESSAGES_PER_DAY cfg \<and> fst (local_message cfg user_text w) = Inr ()
          then local_cycles cfg rest (snd (local_message cfg user_text w))
          else None
      | _ \<Rightarrow> None)"

text \<open>The same for updates that \<open>_tg_text\<close> handles for one Telegram user.\<close>

fun tg_cycles :: "config \<Rightarrow> update list \<Rightarrow> world \<Rightarrow> world option" where
  "tg_cycles cfg [] w = Some w"
| "tg_cycles cfg (upd # rest) w =
     (case fst (get_user (effective_user_id upd) (effective_username upd) w) of
        Inr (uid, Some n, lr) \<Rightarrow>
          if n < FREE_MESSAGES_PER_DAY cfg \<and> fst (tg_text_body cfg upd w) = Inr ()
          then tg_cycles cfg rest (snd (tg_text cfg upd w))
          else None
      | _ \<Rightarrow> None)"

text \<open>
  \<open>w'\<close> differs from \<open>w\<close> at most in what the storage layer owns and in the completion
  requests sent.
\<close>

definition quiet :: "world \<Rightarrow> world \<Rightarrow> bool" where
  "quiet w w' =
     (today w' = today w \<and> db_fault w' = db_fault w \<and> provider w' = provider w \<and>
      tg_fault w' = tg_fault w \<and> tg_calls w' = tg_calls w \<and> chat w' = chat w \<and>
      stdout w' = stdout w)"

text \<open>What an allowed message whose reply is \<open>reply\<close> does to one database.\<close>

definition sql_exchange :: "config \<Rightarrow> int \<Rightarrow> pystr \<Rightarrow> pystr \<Rightarrow> database \<Rightarrow> database" where
  "sql_exchange cfg uid user_text reply d =
     snd (sql_inc uid
       (snd (sql_add cfg uid Assistant reply (snd (sql_add cfg uid User user_text d)))))"

text \<open>An update from the Telegram user 43 of \<open>seeded_db\<close>, who has used the quota of 2.\<close>

definition blocked_update :: update where
  "blocked_update =
     \<lparr>effective_user_id = 43, effective_username = None, message_text = Some (ascii ''hi'')\<rparr>"

text \<open>An update from a Telegram user that the store has not seen.\<close>

definition new_update :: update where
  "new_update =
     \<lparr>effective_user_id = 50, effective_username = Some (ascii ''ann''),
      message_text = Some (ascii '' hello '')\<rparr>"

text \<open>
  The process at its start, where the third use of a connection will raise
  \<open>sqlite3.OperationalError\<close> (a locked or unreadable database file); and a world with
  tables where the next use will.
\<close>

definition crash_world :: world where
  "crash_world =
     fresh_world\<lparr>db_fault := (\<lambda>n. if n = 2 then Some OperationalError else None)\<rparr>"

definition locked_world :: world where
  "locked_world =
     ready_world\<lparr>db_fault := (\<lambda>n. if n = 0 then Some OperationalError else None)\<rparr>"

section \<open>The append-and-trim statement on one database\<close>

lemma fold_max_ge: "(a::int) \<le> fold max xs a"
  by (induction xs arbitrary: a) (auto intro: order_trans [OF max.cobounded2])

lemma fold_max_mem: "(x::int) \<in> set xs \<Longrightarrow> x \<le> fold max xs a"
proof (induction xs arbitrary: a)
  case Nil
  then show ?case by simp
next
  case (Cons y ys)
  show ?case
  proof (cases "x = y")
    case True
    have "y \<le> max y a" by simp
    also have "\<dots> \<le> fold max ys (max y a)" by (rule fold_max_ge)
    finally show ?thesis using True by simp
  next
    case False
    with Cons show ?thesis by simp
  qed
qed

lemma next_rowid_fresh: "r \<in> set (convo d) \<Longrightarrow> c_id r < next_rowid d"
  unfolding next_rowid_def using fold_max_mem [of "c_id r" "map c_id (convo d)" "seq d"] by simp

lemma sorted_snoc_fresh:
  "sorted_wrt (<) (map c_id rows) \<Longrightarrow> \<forall>r\<in>set rows. c_id r < c_id new \<Longrightarrow>
   sorted_wrt (<) (map c_id (rows @ [new]))"
  by (simp add: sorted_wrt_append)

lemma sort_key_filter_sorted:
  "sorted_wrt (<) (map c_id rows) \<Longrightarrow> sort_key c_id (filter P rows) = filter P rows"
proof -
  assume "sorted_wrt (<) (map c_id rows)"
  then have "sorted (map c_id rows)" by (rule strict_sorted_imp_sorted)
  then have "sorted (map c_id (filter P rows))" by (rule sorted_filter)
  then show ?thesis by (rule sort_key_id_if_sorted)
qed

lemma filter_not_in_take:
  assumes "distinct ys"
  shows "filter (\<lambda>r. r \<notin> set (take m ys)) ys = drop m ys"
proof -
  let ?P = "\<lambda>r. r \<notin> set (take m ys)"
  have "distinct (take m ys @ drop m ys)" using assms by simp
  then have disj: "set (take m ys) \<inter> set (drop m ys) = {}" by (simp only: distinct_append)
  have "filter ?P ys = filter ?P (take m ys @ drop m ys)" by simp
  also have "\<dots> = filter ?P (take m ys) @ filter ?P (drop m ys)" by (rule filter_append)
  also have "filter ?P (take m ys) = []" by (simp add: filter_empty_conv)
  also have "filter ?P (drop m ys) = drop m ys" using disj by (intro filter_True) auto
  finally show ?thesis by simp
qed

lemma filter_ids_not_in:
  assumes "distinct (map f xs)" and "set vs \<subseteq> set xs"
  shows "filter (\<lambda>r. f r \<notin> set (map f vs)) xs = filter (\<lambda>r. r \<notin> set vs) xs"
proof (rule filter_cong [OF refl])
  fix r assume r: "r \<in> set xs"
  have inj: "inj_on f (set xs)" using assms(1) by (simp add: distinct_map)
  show "(f r \<notin> set (map f vs)) = (r \<notin> set vs)"
  proof
    assume "f r \<notin> set (map f vs)" then show "r \<notin> set vs" by auto
  next
    assume nin: "r \<notin> set vs"
    show "f r \<notin> set (map f vs)"
    proof
      assume "f r \<in> set (map f vs)"
      then obtain v where v: "v \<in> set vs" "f v = f r" by auto
      with assms(2) have "v \<in> set xs" by auto
      with inj r v(2) have "v = r" by (auto dest: inj_onD)
      with v(1) nin show False by simp
    qed
  qed
qed


lemma sql_add_convo:
  fixes d :: database and user_id :: int and role :: role and content :: pystr
  assumes wf: "wf_db d"
  defines "new \<equiv> \<lparr>c_id = next_rowid d, c_user_id = user_id, c_role = role, c_content = content\<rparr>"
  defines "mine \<equiv> filter (\<lambda>r. c_user_id r = user_id) (convo d) @ [new]"
  shows "convo (snd (sql_add cfg user_id role content d)) =
           filter (\<lambda>r. r \<notin> set (take (length mine - nat (HISTORY_TURNS cfg * 2)) mine))
             (convo d @ [new])"
    and "sorted_wrt (<) (map c_id (convo d @ [new]))"
proof -
  let ?ins = "convo d @ [new]"
  let ?n = "nat (HISTORY_TURNS cfg * 2)"
  have fresh: "\<forall>r\<in>set (convo d). c_id r < c_id new"
    by (simp add: new_def next_rowid_fresh)
  show sorted: "sorted_wrt (<) (map c_id ?ins)"
    using wf fresh unfolding wf_db_def by (rule sorted_snoc_fresh)
  have mine: "filter (\<lambda>r. c_user_id r = user_id) ?ins = mine"
    by (simp add: mine_def new_def)
  have srt: "sort_key c_id (filter (\<lambda>r. c_user_id r = user_id) ?ins) = mine"
    using sort_key_filter_sorted [OF sorted, of "\<lambda>r. c_user_id r = user_id"]
    by (simp only: mine)
  have sel: "drop ?n (rev mine) = rev (take (length mine - ?n) mine)"
    by (simp add: drop_rev)
  have dist: "distinct (map c_id ?ins)"
    using sorted by (rule strict_sorted_iff [THEN iffD1, THEN conjunct2, rotated -1]) 
  have sub: "set (rev (take (length mine - ?n) mine)) \<subseteq> set ?ins"
  proof -
    have "set (take (length mine - ?n) mine) \<subseteq> set mine" by (rule set_take_subset)
    also have "set mine \<subseteq> set ?ins" unfolding mine [symmetric] by (rule filter_is_subset)
    finally show ?thesis by simp
  qed
  have "convo (snd (sql_add cfg user_id role content d)) =
          filter (\<lambda>r. c_id r \<notin> set (map c_id (rev (take (length mine - ?n) mine)))) ?ins"
    unfolding sql_add_def Let_def using srt sel by (simp add: new_def)
  also have "\<dots> = filter (\<lambda>r. r \<notin> set (rev (take (length mine - ?n) mine))) ?ins"
    using dist sub by (rule filter_ids_not_in)
  finally show "convo (snd (sql_add cfg user_id role content d)) =
           filter (\<lambda>r. r \<notin> set (take (length mine - ?n) mine)) ?ins" by simp
qed


lemma sql_add_wf:
  assumes wf: "wf_db d"
  shows "wf_db (snd (sql_add cfg user_id role content d))"
proof -
  let ?new = "\<lparr>c_id = next_rowid d, c_user_id = user_id, c_role = role, c_content = content\<rparr>"
  have "sorted_wrt (<) (map c_id (convo d @ [?new]))" by (rule sql_add_convo(2) [OF wf])
  then have "sorted_wrt (\<lambda>x y. c_id x < c_id y) (convo d @ [?new])"
    by (simp only: sorted_wrt_map)
  then have "sorted_wrt (\<lambda>x y. c_id x < c_id y) (filter P (convo d @ [?new]))" for P
    by (rule sorted_wrt_filter)
  then show ?thesis
    unfolding wf_db_def by (simp only: sql_add_convo(1) [OF wf] sorted_wrt_map)
qed

lemma sql_add_users: "users (snd (sql_add cfg user_id role content d)) = users d"
  by (simp add: sql_add_def Let_def)

lemma sql_hist_wf:
  "wf_db d \<Longrightarrow> fst (sql_hist user_id d) =
     map (\<lambda>r. (c_role r, c_content r)) (filter (\<lambda>r. c_user_id r = user_id) (convo d))"
  by (simp add: sql_hist_def wf_db_def sort_key_filter_sorted)

lemma sql_hist_unchanged: "snd (sql_hist user_id d) = d"
  by (simp add: sql_hist_def)

lemma sql_hist_add_same:
  assumes wf: "wf_db d"
  shows "fst (sql_hist user_id (snd (sql_add cfg user_id role content d))) =
           lastn (nat (HISTORY_TURNS cfg * 2)) (fst (sql_hist user_id d) @ [(role, content)])"
proof -
  let ?P = "\<lambda>r. c_user_id r = user_id"
  let ?new = "\<lparr>c_id = next_rowid d, c_user_id = user_id, c_role = role, c_content = content\<rparr>"
  let ?mine = "filter ?P (convo d) @ [?new]"
  let ?m = "length ?mine - nat (HISTORY_TURNS cfg * 2)"
  let ?d' = "snd (sql_add cfg user_id role content d)"
  have sorted: "sorted_wrt (<) (map c_id (convo d @ [?new]))" by (rule sql_add_convo(2) [OF wf])
  then have "distinct (map c_id (convo d @ [?new]))"
    by (rule strict_sorted_iff [THEN iffD1, THEN conjunct2, rotated -1])
  then have "distinct (convo d @ [?new])" by (rule distinct_map [THEN iffD1, THEN conjunct1])
  then have "distinct (filter ?P (convo d @ [?new]))" by (rule distinct_filter)
  then have dist: "distinct ?mine" by simp
  have "filter ?P (convo ?d') = filter (\<lambda>r. r \<notin> set (take ?m ?mine)) (filter ?P (convo d @ [?new]))"
    by (simp only: sql_add_convo(1) [OF wf] filter_filter conj_commute [of "c_user_id _ = user_id"])
  also have "filter ?P (convo d @ [?new]) = ?mine" by simp
  also have "filter (\<lambda>r. r \<notin> set (take ?m ?mine)) ?mine = drop ?m ?mine"
    using dist by (rule filter_not_in_take)
  finally have rows: "filter ?P (convo ?d') = drop ?m ?mine" .
  have "fst (sql_hist user_id ?d') = map (\<lambda>r. (c_role r, c_content r)) (drop ?m ?mine)"
    using sql_hist_wf [OF sql_add_wf [OF wf]] rows by simp
  also have "\<dots> = drop ?m (map (\<lambda>r. (c_role r, c_content r)) ?mine)"
    by (rule drop_map [symmetric])
  also have "map (\<lambda>r. (c_role r, c_content r)) ?mine = fst (sql_hist user_id d) @ [(role, content)]"
    by (simp add: sql_hist_wf [OF wf])
  also have "?m = length (fst (sql_hist user_id d) @ [(role, content)]) - nat (HISTORY_TURNS cfg * 2)"
    by (simp add: sql_hist_wf [OF wf])
  finally show ?thesis by (simp only: lastn_def)
qed

lemma sql_hist_add_other:
  assumes wf: "wf_db d" and ne: "other \<noteq> user_id"
  shows "fst (sql_hist other (snd (sql_add cfg user_id role content d))) = fst (sql_hist other d)"
proof -
  let ?Q = "\<lambda>r. c_user_id r = other"
  let ?new = "\<lparr>c_id = next_rowid d, c_user_id = user_id, c_role = role, c_content = content\<rparr>"
  let ?mine = "filter (\<lambda>r. c_user_id r = user_id) (convo d) @ [?new]"
  let ?m = "length ?mine - nat (HISTORY_TURNS cfg * 2)"
  let ?d' = "snd (sql_add cfg user_id role content d)"
  have mine_uid: "c_user_id r = user_id" if "r \<in> set ?mine" for r using that by auto
  have "filter ?Q (convo ?d') =
          filter (\<lambda>r. r \<notin> set (take ?m ?mine) \<and> c_user_id r = other) (convo d @ [?new])"
    by (simp only: sql_add_convo(1) [OF wf] filter_filter)
  also have "\<dots> = filter ?Q (convo d @ [?new])"
  proof (rule filter_cong [OF refl])
    fix r assume "r \<in> set (convo d @ [?new])"
    show "(r \<notin> set (take ?m ?mine) \<and> c_user_id r = other) = (c_user_id r = other)"
      using ne mine_uid [of r] by (auto dest: in_set_takeD)
  qed
  also have "\<dots> = filter ?Q (convo d)" using ne by simp
  finally have "filter ?Q (convo ?d') = filter ?Q (convo d)" .
  then show ?thesis
    using sql_hist_wf [OF sql_add_wf [OF wf]] sql_hist_wf [OF wf] by simp
qed


section \<open>Storage operations that return\<close>

lemma db_key_committed [simp]: "db_key (committed w d) = db_key w"
  by (simp add: committed_def db_key_def)

lemma current_db_committed [simp]: "current_db (committed w d) = Some d"
  by (simp add: committed_def current_db_def db_key_def)

lemma today_committed [simp]: "today (committed w d) = today w"
  by (simp add: committed_def)

lemma backend_ok_committed: "backend_ok w \<Longrightarrow> backend_ok (committed w d)"
  by (auto simp: backend_ok_def committed_def db_key_def)

lemma world_ok_committed: "world_ok w \<Longrightarrow> wf_db d \<Longrightarrow> world_ok (committed w d)"
  by (simp add: world_ok_def backend_ok_committed)

lemma run_sql_switched_fails:
  assumes "backend_ok w" and "\<not> DB_URI w"
  shows "\<exists>e. fst (run_sql body (switch_to_memory_db (w\<lparr>logged := l\<rparr>))) = Inl e"
  using assms
  by (auto simp: run_sql_def Let_def switch_to_memory_db_def backend_ok_def db_key_def
      split: option.splits)

lemma run_sql_frame:
  "DB_URI (snd (run_sql body w)) = DB_URI w \<and> logged (snd (run_sql body w)) = logged w \<and>
   DB_DSN (snd (run_sql body w)) = DB_DSN w"
  by (simp add: run_sql_def Let_def split: option.splits)

lemma run_sql_stores_fail:
  "fst (run_sql body w) = Inl e \<Longrightarrow> stores (snd (run_sql body w)) = stores w"
  by (simp add: run_sql_def Let_def split: option.splits)

lemma db_try_sql_success:
  assumes ok: "backend_ok w" and res: "fst (db_try (\<lambda>v. run_sql (B v) v) w) = Inr x"
  shows "db_fault w (db_calls w) = None \<and>
         (\<exists>d. current_db w = Some d \<and> x = fst (B w d) \<and>
              snd (db_try (\<lambda>v. run_sql (B v) v) w) = committed w (snd (B w d)))"
proof -
  obtain r w1 where rw: "run_sql (B w) w = (r, w1)" by (cases "run_sql (B w) w")
  show ?thesis
  proof (cases r)
    case (Inr y)
    with rw res show ?thesis
      by (auto simp: db_try_def run_sql_def Let_def committed_def current_db_def
          split: option.splits)
  next
    case (Inl e)
    have fr: "DB_URI w1 = DB_URI w" "stores w1 = stores w"
      using run_sql_frame [of "B w" w] run_sql_stores_fail [of "B w" w e] rw Inl by simp_all
    then have ok1: "backend_ok w1" using ok by (simp add: backend_ok_def)
    show ?thesis
    proof (cases "is_io e \<and> \<not> DB_URI w1")
      case True
      let ?w2 = "switch_to_memory_db (w1\<lparr>logged := logged w1 @ [Warn_db_op_failed e]\<rparr>)"
      from True ok1 obtain e' where "fst (run_sql (B ?w2) ?w2) = Inl e'"
        using run_sql_switched_fails [of w1 "B ?w2"] by blast
      with True rw Inl res show ?thesis by (simp add: db_try_def)
    next
      case False
      with rw Inl res show ?thesis by (auto simp: db_try_def split: if_splits)
    qed
  qed
qed

lemma db_try_sql_ok:
  assumes "db_fault w (db_calls w) = None" and "current_db w = Some d"
  shows "db_try (\<lambda>v. run_sql (B v) v) w = (Inr (fst (B w d)), committed w (snd (B w d)))"
  using assms by (simp add: db_try_def run_sql_def Let_def committed_def current_db_def)


lemma lastn_rev: "lastn n xs = rev (take n (rev xs))"
  by (simp add: lastn_def rev_take)

lemma lastn_lastn_append: "lastn n (lastn n xs @ ys) = lastn n (xs @ ys)"
  by (simp add: lastn_rev min_def)

lemma length_lastn: "length (lastn n xs) = min n (length xs)"
  by (simp add: lastn_def)

lemma lastn_append_long: "n \<le> length ys \<Longrightarrow> lastn n (xs @ ys) = drop (length ys - n) ys"
  by (simp add: lastn_def)

lemma sql_adds_wf: "wf_db d \<Longrightarrow> wf_db (sql_adds cfg user_id turns d)"
  unfolding sql_adds_def by (induction turns arbitrary: d) (simp_all add: sql_add_wf)

lemma sql_adds_users: "users (sql_adds cfg user_id turns d) = users d"
  unfolding sql_adds_def by (induction turns arbitrary: d) (simp_all add: sql_add_users)

lemma sql_adds_hist_other:
  "wf_db d \<Longrightarrow> other \<noteq> user_id \<Longrightarrow>
   fst (sql_hist other (sql_adds cfg user_id turns d)) = fst (sql_hist other d)"
  unfolding sql_adds_def
  by (induction turns arbitrary: d) (simp_all add: sql_add_wf sql_hist_add_other)

lemma sql_adds_hist_same:
  "wf_db d \<Longrightarrow> turns \<noteq> [] \<Longrightarrow>
   fst (sql_hist user_id (sql_adds cfg user_id turns d)) =
     lastn (nat (HISTORY_TURNS cfg * 2)) (fst (sql_hist user_id d) @ turns)"
proof (induction turns arbitrary: d)
  case Nil
  then show ?case by simp
next
  case (Cons t rest)
  let ?d1 = "snd (sql_add cfg user_id (fst t) (snd t) d)"
  have wf1: "wf_db ?d1" using Cons.prems(1) by (rule sql_add_wf)
  have h1: "fst (sql_hist user_id ?d1) =
              lastn (nat (HISTORY_TURNS cfg * 2)) (fst (sql_hist user_id d) @ [t])"
    using sql_hist_add_same [OF Cons.prems(1), of user_id cfg "fst t" "snd t"] by simp
  show ?case
  proof (cases "rest = []")
    case True
    then show ?thesis using h1 by (simp add: sql_adds_def)
  next
    case False
    have "fst (sql_hist user_id (sql_adds cfg user_id (t # rest) d)) =
            fst (sql_hist user_id (sql_adds cfg user_id rest ?d1))"
      by (simp add: sql_adds_def)
    also have "\<dots> = lastn (nat (HISTORY_TURNS cfg * 2)) (fst (sql_hist user_id ?d1) @ rest)"
      using wf1 False by (rule Cons.IH)
    also have "\<dots> = lastn (nat (HISTORY_TURNS cfg * 2)) ((fst (sql_hist user_id d) @ [t]) @ rest)"
      unfolding h1 by (rule lastn_lastn_append)
    finally show ?thesis by simp
  qed
qed

lemma add_msg_success:
  assumes "backend_ok w" and "fst (add_msg cfg user_id role content w) = Inr x"
  shows "\<exists>d. current_db w = Some d \<and>
             snd (add_msg cfg user_id role content w) =
               committed w (snd (sql_add cfg user_id role content d))"
  using db_try_sql_success [OF assms(1), of "\<lambda>_. sql_add cfg user_id role content" x] assms(2)
  by (auto simp: add_msg_def)

lemma get_history_success:
  assumes "backend_ok w" and "fst (get_history user_id w) = Inr h"
  shows "\<exists>d. current_db w = Some d \<and> h = fst (sql_hist user_id d) \<and>
             snd (get_history user_id w) = committed w d"
  using db_try_sql_success [OF assms(1), of "\<lambda>_. sql_hist user_id" h] assms(2)
  by (auto simp: get_history_def sql_hist_unchanged)

lemma add_msgs_success:
  assumes "world_ok w" and "fst (add_msgs cfg user_id turns w) = Inr x" and "current_db w = Some d"
  shows "world_ok (snd (add_msgs cfg user_id turns w)) \<and>
         current_db (snd (add_msgs cfg user_id turns w)) = Some (sql_adds cfg user_id turns d)"
  using assms
proof (induction turns arbitrary: w d)
  case Nil
  then show ?case by (simp add: io_return_def sql_adds_def)
next
  case (Cons t rest)
  let ?a = "add_msg cfg user_id (fst t) (snd t) w"
  from Cons.prems(2) obtain y where a: "fst ?a = Inr y"
    by (cases "fst ?a") (auto simp: io_bind_def split: prod.splits)
  have bok: "backend_ok w" using Cons.prems(1) by (simp add: world_ok_def)
  have wfd: "wf_db d" using Cons.prems(1,3) by (simp add: world_ok_def)
  from add_msg_success [OF bok a] Cons.prems(3)
  have w1: "snd ?a = committed w (snd (sql_add cfg user_id (fst t) (snd t) d))" by auto
  let ?d1 = "snd (sql_add cfg user_id (fst t) (snd t) d)"
  let ?w1 = "committed w ?d1"
  have ok1: "world_ok ?w1" using Cons.prems(1) sql_add_wf [OF wfd] by (rule world_ok_committed)
  have step: "add_msgs cfg user_id (t # rest) w = add_msgs cfg user_id rest ?w1"
    using a w1 by (cases ?a) (auto simp: io_bind_def)
  have "fst (add_msgs cfg user_id rest ?w1) = Inr x" using Cons.prems(2) step by simp
  from Cons.IH [OF ok1 this, of ?d1] show ?case
    unfolding step by (simp add: sql_adds_def)
qed

lemma add_msgs_needs_db:
  assumes "backend_ok w" and "fst (add_msgs cfg user_id turns w) = Inr x" and "turns \<noteq> []"
  shows "\<exists>d. current_db w = Some d"
proof (cases turns)
  case Nil
  with assms(3) show ?thesis by simp
next
  case (Cons t rest)
  let ?a = "add_msg cfg user_id (fst t) (snd t) w"
  from assms(2) Cons obtain y where "fst ?a = Inr y"
    by (cases "fst ?a") (auto simp: io_bind_def split: prod.splits)
  from add_msg_success [OF assms(1) this] show ?thesis by blast
qed


section \<open>The fallback wrapper and the backend flag\<close>

lemma storage_fn_run_sql: "storage_fn (\<lambda>v. run_sql (B v) v)"
  by (simp add: storage_fn_def run_sql_def Let_def split: option.splits)

lemma storage_fn_sql_init: "storage_fn sql_init"
  by (simp add: storage_fn_def sql_init_def Let_def split: option.splits)

lemma db_try_returns:
  "fn w = (Inr x, w1) \<Longrightarrow> db_try fn w = (Inr x, w1)"
  by (simp add: db_try_def)

lemma db_try_retries:
  "fn w = (Inl e, w1) \<Longrightarrow> is_io e \<Longrightarrow> \<not> DB_URI w1 \<Longrightarrow>
   db_try fn w = fn (switch_to_memory_db (w1\<lparr>logged := logged w1 @ [Warn_db_op_failed e]\<rparr>))"
  by (simp add: db_try_def)

lemma db_try_propagates:
  "fn w = (Inl e, w1) \<Longrightarrow> DB_URI w1 \<or> \<not> is_io e \<Longrightarrow> db_try fn w = (Inl e, w1)"
  by (auto simp: db_try_def)

lemma switches_switch:
  "switches (switch_to_memory_db (w\<lparr>logged := logged w @ [Warn_db_op_failed e]\<rparr>)) = Suc (switches w)"
  by (simp add: switches_def switch_to_memory_db_def)

lemma storage_fn_switches:
  "storage_fn fn \<Longrightarrow> switches (snd (fn v)) = switches v"
  by (simp add: storage_fn_def switches_def)

lemma db_try_backend:
  assumes sf: "storage_fn fn"
  shows "(DB_URI w \<longrightarrow> DB_URI (snd (db_try fn w)) \<and> switches (snd (db_try fn w)) = switches w) \<and>
         switches (snd (db_try fn w)) + (if DB_URI (snd (db_try fn w)) then 0 else 1)
           = switches w + (if DB_URI w then 0 else 1)"
proof -
  obtain r w1 where rw: "fn w = (r, w1)" by (cases "fn w")
  have fr: "DB_URI (snd (fn v)) = DB_URI v" for v
    using sf unfolding storage_fn_def by blast
  have f1: "DB_URI w1 = DB_URI w" using fr [of w] rw by simp
  have f2: "switches w1 = switches w" using storage_fn_switches [OF sf, of w] rw by simp
  show ?thesis
  proof (cases r)
    case (Inr x)
    have "db_try fn w = (Inr x, w1)" using rw Inr by (simp add: db_try_returns)
    then show ?thesis using f1 f2 by simp
  next
    case (Inl e)
    show ?thesis
    proof (cases "is_io e \<and> \<not> DB_URI w1")
      case True
      let ?w2 = "switch_to_memory_db (w1\<lparr>logged := logged w1 @ [Warn_db_op_failed e]\<rparr>)"
      have eq: "db_try fn w = fn ?w2" using rw Inl True by (simp add: db_try_retries)
      have u2: "DB_URI ?w2" by (simp add: switch_to_memory_db_def)
      have a: "DB_URI (snd (fn ?w2))" using fr [of ?w2] u2 by simp
      have b: "switches (snd (fn ?w2)) = Suc (switches w)"
        using storage_fn_switches [OF sf, of ?w2] switches_switch [of w1 e] f2 by simp
      have c: "\<not> DB_URI w" using True f1 by simp
      show ?thesis unfolding eq using a b c by simp
    next
      case False
      then have "db_try fn w = (Inl e, w1)" using rw Inl by (intro db_try_propagates) auto
      then show ?thesis using f1 f2 by simp
    qed
  qed
qed

lemma run_call_backend:
  "(DB_URI w \<longrightarrow> DB_URI (run_call cfg c w) \<and> switches (run_call cfg c w) = switches w) \<and>
   switches (run_call cfg c w) + (if DB_URI (run_call cfg c w) then 0 else 1)
     = switches w + (if DB_URI w then 0 else 1)"
proof (cases c)
  case Call_init_db
  then show ?thesis using db_try_backend [OF storage_fn_sql_init, of w] by (simp add: init_db_def)
next
  case (Call_get_user u n)
  then show ?thesis
    using db_try_backend [OF storage_fn_run_sql, of w "\<lambda>v. sql_get (today v) u n"]
    by (simp add: get_user_def)
next
  case (Call_inc_user_counter u)
  then show ?thesis
    using db_try_backend [OF storage_fn_run_sql, of w "\<lambda>v. sql_inc u"]
    by (simp add: inc_user_counter_def)
next
  case (Call_add_msg u r t)
  then show ?thesis
    using db_try_backend [OF storage_fn_run_sql, of w "\<lambda>v. sql_add cfg u r t"]
    by (simp add: add_msg_def)
next
  case (Call_get_history u)
  then show ?thesis
    using db_try_backend [OF storage_fn_run_sql, of w "\<lambda>v. sql_hist u"]
    by (simp add: get_history_def)
next
  case (Call_do_reset u)
  then show ?thesis
    using db_try_backend [OF storage_fn_run_sql, of w "\<lambda>v. sql_do_reset u"]
    by (simp add: do_reset_def)
next
  case (Clock d)
  then show ?thesis by (simp add: switches_def)
qed

lemma run_calls_backend:
  "(DB_URI w \<longrightarrow> DB_URI (run_calls cfg calls w) \<and> switches (run_calls cfg calls w) = switches w) \<and>
   switches (run_calls cfg calls w) + (if DB_URI (run_calls cfg calls w) then 0 else 1)
     = switches w + (if DB_URI w then 0 else 1)"
  unfolding run_calls_def
proof (induction calls arbitrary: w)
  case Nil
  then show ?case by simp
next
  case (Cons c calls)
  from Cons.IH [of "run_call cfg c w"] run_call_backend [of w cfg c]
  show ?case by (simp split: if_splits)
qed


section \<open>Each wrapped operation, when it returns\<close>

lemma get_user_success:
  assumes "backend_ok w" and "fst (get_user user_id username w) = Inr r"
  shows "\<exists>d. current_db w = Some d \<and> r = fst (sql_get (today w) user_id username d) \<and>
             snd (get_user user_id username w) =
               committed w (snd (sql_get (today w) user_id username d))"
  using db_try_sql_success [OF assms(1), of "\<lambda>v. sql_get (today v) user_id username" r] assms(2)
  by (auto simp: get_user_def)

lemma inc_user_counter_success:
  assumes "backend_ok w" and "fst (inc_user_counter user_id w) = Inr x"
  shows "\<exists>d. current_db w = Some d \<and>
             snd (inc_user_counter user_id w) = committed w (snd (sql_inc user_id d))"
  using db_try_sql_success [OF assms(1), of "\<lambda>v. sql_inc user_id" x] assms(2)
  by (auto simp: inc_user_counter_def)

lemma do_reset_success:
  assumes "backend_ok w" and "fst (do_reset user_id w) = Inr x"
  shows "\<exists>d. current_db w = Some d \<and>
             snd (do_reset user_id w) = committed w (snd (sql_do_reset user_id d))"
  using db_try_sql_success [OF assms(1), of "\<lambda>v. sql_do_reset user_id" x] assms(2)
  by (auto simp: do_reset_def)

lemma get_user_ok:
  assumes "db_fault w (db_calls w) = None" and "current_db w = Some d"
  shows "get_user user_id username w =
           (Inr (fst (sql_get (today w) user_id username d)),
            committed w (snd (sql_get (today w) user_id username d)))"
  unfolding get_user_def
  using db_try_sql_ok [OF assms, of "\<lambda>v. sql_get (today v) user_id username"] by simp

lemma inc_user_counter_ok:
  assumes "db_fault w (db_calls w) = None" and "current_db w = Some d"
  shows "inc_user_counter user_id w = (Inr (), committed w (snd (sql_inc user_id d)))"
  unfolding inc_user_counter_def
  using db_try_sql_ok [OF assms, of "\<lambda>v. sql_inc user_id"] by simp

lemma add_msg_ok:
  assumes "db_fault w (db_calls w) = None" and "current_db w = Some d"
  shows "add_msg cfg user_id role content w =
           (Inr (), committed w (snd (sql_add cfg user_id role content d)))"
  unfolding add_msg_def
  using db_try_sql_ok [OF assms, of "\<lambda>v. sql_add cfg user_id role content"] by simp

lemma get_history_ok:
  assumes "db_fault w (db_calls w) = None" and "current_db w = Some d"
  shows "get_history user_id w = (Inr (fst (sql_hist user_id d)), committed w d)"
  unfolding get_history_def
  using db_try_sql_ok [OF assms, of "\<lambda>v. sql_hist user_id"] by (simp add: sql_hist_unchanged)

lemma do_reset_ok:
  assumes "db_fault w (db_calls w) = None" and "current_db w = Some d"
  shows "do_reset user_id w = (Inr (), committed w (snd (sql_do_reset user_id d)))"
  unfolding do_reset_def
  using db_try_sql_ok [OF assms, of "\<lambda>v. sql_do_reset user_id"] by simp

lemma sql_get_convo: "convo (snd (sql_get t user_id username d)) = convo d"
  by (simp add: sql_get_def split: option.splits)

lemma sql_get_wf: "wf_db d \<Longrightarrow> wf_db (snd (sql_get t user_id username d))"
  by (simp add: wf_db_def sql_get_convo)

lemma sql_inc_convo: "convo (snd (sql_inc user_id d)) = convo d"
  by (simp add: sql_inc_def split: option.splits)

lemma sql_inc_wf: "wf_db d \<Longrightarrow> wf_db (snd (sql_inc user_id d))"
  by (simp add: wf_db_def sql_inc_convo)

lemma sql_do_reset_wf: "wf_db d \<Longrightarrow> wf_db (snd (sql_do_reset user_id d))"
  by (simp add: wf_db_def sql_do_reset_def sorted_wrt_map sorted_wrt_filter)

lemma sql_do_reset_users: "users (snd (sql_do_reset user_id d)) = users d"
  by (simp add: sql_do_reset_def)

lemma sql_hist_after_reset: "fst (sql_hist user_id (snd (sql_do_reset user_id d))) = []"
  by (simp add: sql_hist_def sql_do_reset_def)

lemma sql_hist_reset_other:
  "other \<noteq> user_id \<Longrightarrow>
   filter (\<lambda>r. c_user_id r = other) (convo (snd (sql_do_reset user_id d))) =
   filter (\<lambda>r. c_user_id r = other) (convo d)"
  by (auto simp: sql_do_reset_def intro: filter_cong)


section \<open>What the storage layer leaves alone, and the chat logic\<close>

lemma storage_only_refl: "storage_only w w"
  by (simp add: storage_only_def)

lemma storage_only_trans: "storage_only a b \<Longrightarrow> storage_only b c \<Longrightarrow> storage_only a c"
  by (simp add: storage_only_def)

lemma run_sql_storage_only: "storage_only w (snd (run_sql body w))"
  by (simp add: storage_only_def run_sql_def Let_def split: option.splits)

lemma sql_init_storage_only: "storage_only w (snd (sql_init w))"
  by (simp add: storage_only_def sql_init_def Let_def split: option.splits)

lemma switch_storage_only:
  "storage_only w (switch_to_memory_db (w\<lparr>logged := l\<rparr>))"
  by (simp add: storage_only_def switch_to_memory_db_def)

lemma db_try_storage_only:
  assumes "\<And>v. storage_only v (snd (fn v))"
  shows "storage_only w (snd (db_try fn w))"
proof -
  obtain r w1 where rw: "fn w = (r, w1)" by (cases "fn w")
  have s1: "storage_only w w1" using assms [of w] rw by simp
  show ?thesis
  proof (cases r)
    case (Inr x)
    with rw s1 show ?thesis by (simp add: db_try_def)
  next
    case (Inl e)
    show ?thesis
    proof (cases "is_io e \<and> \<not> DB_URI w1")
      case True
      let ?w2 = "switch_to_memory_db (w1\<lparr>logged := logged w1 @ [Warn_db_op_failed e]\<rparr>)"
      have "db_try fn w = fn ?w2" using rw Inl True by (simp add: db_try_retries)
      moreover have "storage_only w1 ?w2" by (rule switch_storage_only)
      moreover have "storage_only ?w2 (snd (fn ?w2))" by (rule assms)
      ultimately show ?thesis using s1 by (auto intro: storage_only_trans)
    next
      case False
      then have "db_try fn w = (Inl e, w1)" using rw Inl by (intro db_try_propagates) auto
      with s1 show ?thesis by simp
    qed
  qed
qed

lemma get_history_storage_only: "storage_only w (snd (get_history user_id w))"
  unfolding get_history_def by (rule db_try_storage_only) (rule run_sql_storage_only)

lemma get_user_storage_only: "storage_only w (snd (get_user user_id username w))"
  unfolding get_user_def by (rule db_try_storage_only) (rule run_sql_storage_only)

lemma add_msg_storage_only: "storage_only w (snd (add_msg cfg user_id role content w))"
  unfolding add_msg_def by (rule db_try_storage_only) (rule run_sql_storage_only)

lemma inc_user_counter_storage_only: "storage_only w (snd (inc_user_counter user_id w))"
  unfolding inc_user_counter_def by (rule db_try_storage_only) (rule run_sql_storage_only)

lemma do_reset_storage_only: "storage_only w (snd (do_reset user_id w))"
  unfolding do_reset_def by (rule db_try_storage_only) (rule run_sql_storage_only)

lemma init_db_storage_only: "storage_only w (snd (init_db w))"
  unfolding init_db_def by (rule db_try_storage_only) (rule sql_init_storage_only)

lemma run_sql_hist_stores: "stores (snd (run_sql (sql_hist user_id) w)) = stores w"
  by (auto simp: run_sql_def Let_def sql_hist_def split: option.splits)

lemma get_history_stores: "stores (snd (get_history user_id w)) = stores w"
proof -
  let ?fn = "run_sql (sql_hist user_id)"
  obtain r w1 where rw: "?fn w = (r, w1)" by (cases "?fn w")
  have s1: "stores w1 = stores w" using run_sql_hist_stores [of user_id w] rw by simp
  show ?thesis
  proof (cases r)
    case (Inr x)
    with rw s1 show ?thesis by (simp add: get_history_def db_try_def)
  next
    case (Inl e)
    show ?thesis
    proof (cases "is_io e \<and> \<not> DB_URI w1")
      case True
      let ?w2 = "switch_to_memory_db (w1\<lparr>logged := logged w1 @ [Warn_db_op_failed e]\<rparr>)"
      have "db_try ?fn w = ?fn ?w2" using rw Inl True by (simp add: db_try_retries)
      moreover have "stores (snd (?fn ?w2)) = stores ?w2" by (rule run_sql_hist_stores)
      moreover have "stores ?w2 = stores w1" by (simp add: switch_to_memory_db_def)
      ultimately show ?thesis using s1 by (simp add: get_history_def)
    next
      case False
      then have "db_try ?fn w = (Inl e, w1)" using rw Inl by (intro db_try_propagates) auto
      with s1 show ?thesis by (simp add: get_history_def)
    qed
  qed
qed

lemma openai_reply_stores: "stores (snd (openai_reply cfg messages w)) = stores w"
  by (simp add: openai_reply_def Let_def split: completion.splits)

lemma openai_reply_backend:
  "DB_URI (snd (openai_reply cfg messages w)) = DB_URI w \<and>
   DB_DSN (snd (openai_reply cfg messages w)) = DB_DSN w \<and>
   db_fault (snd (openai_reply cfg messages w)) = db_fault w \<and>
   db_calls (snd (openai_reply cfg messages w)) = db_calls w \<and>
   today (snd (openai_reply cfg messages w)) = today w"
  by (simp add: openai_reply_def Let_def split: completion.splits)

lemma generate_reply_unfold:
  "generate_reply cfg user_id user_text username w =
     (case get_history user_id w of
        (Inl e, w1) \<Rightarrow> (Inl e, w1)
      | (Inr h, w1) \<Rightarrow>
          (Inr (fst (openai_reply cfg (prompt_for username h user_text) w1)),
           snd (openai_reply cfg (prompt_for username h user_text) w1)))"
  by (cases username)
     (auto simp: generate_reply_def io_bind_def Let_def prompt_for_def case_prod_unfold
       split: prod.splits sum.splits)

lemma stub_finds_user_text:
  "(case filter (\<lambda>m. msg_role m = User) (rev (prompt_for username h user_text)) of
      [] \<Rightarrow> [] | m # _ \<Rightarrow> msg_content m) = user_text"
  by (simp add: prompt_for_def)

lemma openai_reply_stub:
  assumes "\<not> has_client cfg"
  shows "openai_reply cfg (prompt_for username h user_text) w = (STUB_PREFIX @ user_text, w)"
proof -
  have c: "(OPENAI_AVAILABLE cfg \<and> openai_client cfg \<and> OPENAI_API_KEY cfg \<noteq> []) = False"
    using assms by (simp add: has_client_def)
  show ?thesis
    unfolding openai_reply_def c by (simp add: Let_def stub_finds_user_text)
qed

lemma openai_reply_raises:
  "has_client cfg \<Longrightarrow> provider w (length (requests w)) messages = ProviderRaises \<Longrightarrow>
   openai_reply cfg messages w =
     (OPENAI_APOLOGY, w\<lparr>requests := requests w @ [messages],
                         logged := logged w @ [Exc_openai]\<rparr>)"
  by (simp add: openai_reply_def has_client_def Let_def)

lemma openai_reply_requests:
  "requests (snd (openai_reply cfg messages w)) =
     (if has_client cfg then requests w @ [messages] else requests w)"
  by (simp add: openai_reply_def has_client_def Let_def split: completion.splits)


section \<open>Unfolding the model on concrete inputs\<close>

lemmas storage_defs =
  add_msg_def get_history_def get_user_def inc_user_counter_def do_reset_def init_db_def
  db_try_def run_sql_def sql_init_def db_key_def is_io_def switch_to_memory_db_def
  sql_add_def sql_hist_def sql_get_def sql_inc_def sql_do_reset_def next_rowid_def
  io_bind_def io_return_def io_raise_def io_catch_def Let_def
  world_ok_def backend_ok_def current_db_def wf_db_def empty_database_def
  ready_world_def fresh_world_def faulty_world_def switches_def seeded_world_def seeded_db_def run_calls_def stub_config_def client_config_def MEM_DSN_def ascii_def

lemmas chat_defs =
  generate_reply_def openai_reply_def has_client_def prompt_for_def PAYWALL_HOOK_def
  local_message_def print_lana_def fake_user_id_def fake_username_def run_local_session_def
  tg_text_def tg_text_body_def tg_reset_def reply_text_def strip_def isspace_def used_now_def db_used_def blocked_update_def new_update_def crash_world_def locked_world_def

section \<open>The counters stay non-negative\<close>

lemma empty_database_counters: "db_counters_ok empty_database"
  by (simp add: db_counters_ok_def empty_database_def)

lemma sql_get_counters: "db_counters_ok d \<Longrightarrow> db_counters_ok (snd (sql_get t user_id username d))"
  by (auto simp: db_counters_ok_def sql_get_def split: option.splits if_splits)

lemma sql_inc_counters: "db_counters_ok d \<Longrightarrow> db_counters_ok (snd (sql_inc user_id d))"
proof -
  assume ok: "db_counters_ok d"
  show ?thesis
  proof (cases "users d user_id")
    case None
    then show ?thesis using ok by (simp add: sql_inc_def)
  next
    case (Some row)
    from ok Some obtain n where n: "u_messages_today row = Some n" "0 \<le> n"
      unfolding db_counters_ok_def by blast
    show ?thesis
      unfolding db_counters_ok_def
    proof (intro allI impI)
      fix u r assume a: "users (snd (sql_inc user_id d)) u = Some r"
      show "\<exists>m. u_messages_today r = Some m \<and> 0 \<le> m"
      proof (cases "u = user_id")
        case True
        with a Some n have "u_messages_today r = Some (n + 1)" by (auto simp: sql_inc_def)
        with n(2) show ?thesis by simp
      next
        case False
        with a Some have "users d u = Some r" by (simp add: sql_inc_def)
        with ok show ?thesis unfolding db_counters_ok_def by blast
      qed
    qed
  qed
qed

lemma sql_add_counters: "db_counters_ok d \<Longrightarrow> db_counters_ok (snd (sql_add cfg user_id role content d))"
  by (simp add: db_counters_ok_def sql_add_users)

lemma sql_hist_counters: "db_counters_ok d \<Longrightarrow> db_counters_ok (snd (sql_hist user_id d))"
  by (simp add: sql_hist_unchanged)

lemma sql_do_reset_counters: "db_counters_ok d \<Longrightarrow> db_counters_ok (snd (sql_do_reset user_id d))"
  by (simp add: db_counters_ok_def sql_do_reset_users)

lemma counters_okD: "counters_ok w \<Longrightarrow> stores w k = Some d \<Longrightarrow> db_counters_ok d"
  unfolding counters_ok_def by blast

lemma counters_ok_upd:
  "counters_ok w \<Longrightarrow> db_counters_ok d \<Longrightarrow> stores w' = (stores w)(k \<mapsto> d) \<Longrightarrow> counters_ok w'"
  unfolding counters_ok_def by (metis fun_upd_apply option.inject)

lemma counters_ok_same: "counters_ok w \<Longrightarrow> stores w' = stores w \<Longrightarrow> counters_ok w'"
  unfolding counters_ok_def by simp

lemma run_sql_counters:
  assumes "\<And>d. db_counters_ok d \<Longrightarrow> db_counters_ok (snd (body d))" and "counters_ok w"
  shows "counters_ok (snd (run_sql body w))"
proof (cases "db_fault w (db_calls w) = None \<and> stores w (db_key w) \<noteq> None")
  case True
  then obtain d where d: "stores w (db_key w) = Some d" by auto
  have "db_counters_ok (snd (body d))" using counters_okD [OF assms(2) d] by (rule assms(1))
  moreover have "stores (snd (run_sql body w)) = (stores w)(db_key w \<mapsto> snd (body d))"
    using True d by (simp add: run_sql_def Let_def)
  ultimately show ?thesis using assms(2) by (rule counters_ok_upd [rotated])
next
  case False
  then have "stores (snd (run_sql body w)) = stores w"
    by (auto simp: run_sql_def Let_def split: option.splits)
  with assms(2) show ?thesis by (rule counters_ok_same)
qed

lemma sql_init_counters:
  assumes "counters_ok w"
  shows "counters_ok (snd (sql_init w))"
proof (cases "db_fault w (db_calls w)")
  case (Some e)
  then have "stores (snd (sql_init w)) = stores w" by (simp add: sql_init_def Let_def)
  with assms show ?thesis by (rule counters_ok_same)
next
  case None
  let ?d = "case stores w (db_key w) of None \<Rightarrow> empty_database | Some d \<Rightarrow> d"
  have "db_counters_ok ?d"
    using empty_database_counters counters_okD [OF assms, of "db_key w"]
    by (simp split: option.splits)
  moreover have "stores (snd (sql_init w)) = (stores w)(db_key w \<mapsto> ?d)"
    using None by (simp add: sql_init_def Let_def)
  ultimately show ?thesis using assms by (rule counters_ok_upd [rotated])
qed

lemma db_try_counters:
  assumes "\<And>v. counters_ok v \<Longrightarrow> counters_ok (snd (fn v))" and "counters_ok w"
  shows "counters_ok (snd (db_try fn w))"
proof -
  obtain r w1 where rw: "fn w = (r, w1)" by (cases "fn w")
  have c1: "counters_ok w1" using assms(1) [OF assms(2)] rw by simp
  show ?thesis
  proof (cases r)
    case (Inr x)
    with rw c1 show ?thesis by (simp add: db_try_def)
  next
    case (Inl e)
    show ?thesis
    proof (cases "is_io e \<and> \<not> DB_URI w1")
      case True
      let ?w2 = "switch_to_memory_db (w1\<lparr>logged := logged w1 @ [Warn_db_op_failed e]\<rparr>)"
      have "db_try fn w = fn ?w2" using rw Inl True by (simp add: db_try_retries)
      moreover have "counters_ok ?w2" using c1 by (simp add: counters_ok_def switch_to_memory_db_def)
      ultimately show ?thesis using assms(1) [of ?w2] by simp
    next
      case False
      then have "db_try fn w = (Inl e, w1)" using rw Inl by (intro db_try_propagates) auto
      with c1 show ?thesis by simp
    qed
  qed
qed

lemma run_call_counters: "counters_ok w \<Longrightarrow> counters_ok (run_call cfg c w)"
proof (cases c)
  case Call_init_db
  assume "counters_ok w"
  then show ?thesis unfolding Call_init_db run_call.simps init_db_def
    by (rule db_try_counters [rotated]) (rule sql_init_counters)
next
  case (Call_get_user u n)
  assume "counters_ok w"
  then show ?thesis unfolding Call_get_user run_call.simps get_user_def
    by (rule db_try_counters [rotated]) (rule run_sql_counters, rule sql_get_counters)
next
  case (Call_inc_user_counter u)
  assume "counters_ok w"
  then show ?thesis unfolding Call_inc_user_counter run_call.simps inc_user_counter_def
    by (rule db_try_counters [rotated]) (rule run_sql_counters, rule sql_inc_counters)
next
  case (Call_add_msg u r t)
  assume "counters_ok w"
  then show ?thesis unfolding Call_add_msg run_call.simps add_msg_def
    by (rule db_try_counters [rotated]) (rule run_sql_counters, rule sql_add_counters)
next
  case (Call_get_history u)
  assume "counters_ok w"
  then show ?thesis unfolding Call_get_history run_call.simps get_history_def
    by (rule db_try_counters [rotated]) (rule run_sql_counters, rule sql_hist_counters)
next
  case (Call_do_reset u)
  assume "counters_ok w"
  then show ?thesis unfolding Call_do_reset run_call.simps do_reset_def
    by (rule db_try_counters [rotated]) (rule run_sql_counters, rule sql_do_reset_counters)
next
  case (Clock d)
  assume "counters_ok w"
  then show ?thesis unfolding Clock by (simp add: counters_ok_def)
qed

lemma run_calls_counters: "counters_ok w \<Longrightarrow> counters_ok (run_calls cfg calls w)"
  unfolding run_calls_def
  by (induction calls arbitrary: w) (simp_all add: run_call_counters)

lemma sql_get_result_counter:
  "fst (sql_get t user_id username d) = (u, used, lr) \<Longrightarrow>
   \<exists>row. users (snd (sql_get t user_id username d)) user_id = Some row \<and>
         u_messages_today row = used \<and> u_last_reset row = lr \<and> lr = Some t \<and> u = user_id"
  by (auto simp: sql_get_def split: option.splits if_splits)


section \<open>One allowed message\<close>

lemma same_storage:
  assumes "stores w' = stores w" and "DB_URI w' = DB_URI w" and "DB_DSN w' = DB_DSN w"
  shows "current_db w' = current_db w" and "backend_ok w' = backend_ok w"
    and "world_ok w' = world_ok w" and "db_key w' = db_key w"
  using assms by (simp_all add: current_db_def backend_ok_def world_ok_def db_key_def)

lemma quiet_refl: "quiet w w"
  by (simp add: quiet_def)

lemma quiet_trans: "quiet a b \<Longrightarrow> quiet b c \<Longrightarrow> quiet a c"
  by (simp add: quiet_def)

lemma storage_only_quiet: "storage_only w w' \<Longrightarrow> quiet w w'"
  by (simp add: storage_only_def quiet_def)

lemma quiet_committed: "quiet w (committed w d)"
  by (simp add: quiet_def committed_def)

lemma openai_reply_quiet: "quiet w (snd (openai_reply cfg messages w))"
  by (simp add: quiet_def openai_reply_def Let_def split: completion.splits)

lemma openai_reply_same_storage:
  "current_db (snd (openai_reply cfg messages w)) = current_db w"
  "backend_ok (snd (openai_reply cfg messages w)) = backend_ok w"
  "world_ok (snd (openai_reply cfg messages w)) = world_ok w"
  "db_calls (snd (openai_reply cfg messages w)) = db_calls w"
  using same_storage [OF openai_reply_stores, of cfg messages w] openai_reply_backend [of cfg messages w]
  by simp_all

lemma io_bind_Inr:
  assumes "fst (io_bind m f w) = Inr y"
  shows "\<exists>x. fst (m w) = Inr x \<and> io_bind m f w = f x (snd (m w))"
  using assms by (cases "m w") (auto simp: io_bind_def split: sum.splits)

lemma io_bind_step:
  "fst (m w) = Inr x \<Longrightarrow> io_bind m f w = f x (snd (m w))"
  by (cases "m w") (auto simp: io_bind_def)

lemma io_bind_fails:
  "fst (m w) = Inl e \<Longrightarrow> io_bind m f w = (Inl e, snd (m w))"
  by (cases "m w") (auto simp: io_bind_def)

lemma io_bind_assoc: "io_bind (io_bind m f) g = io_bind m (\<lambda>x. io_bind (f x) g)"
  by (rule ext) (auto simp: io_bind_def split: prod.splits sum.splits)

lemma io_bind_return: "io_bind (io_return v) g = g v"
  by (rule ext) (simp add: io_bind_def io_return_def)

lemma sql_get_used: "fst (sql_get t user_id username d) = (user_id, db_used t d user_id, Some t)"
  by (auto simp: sql_get_def db_used_def split: option.splits)

lemma sql_get_keeps_used: "db_used t (snd (sql_get t user_id username d)) u = db_used t d u"
  by (auto simp: sql_get_def db_used_def split: option.splits)

lemma sql_get_dated:
  "\<exists>row. users (snd (sql_get t user_id username d)) user_id = Some row \<and> u_last_reset row = Some t"
  by (auto simp: sql_get_def split: option.splits)

lemma sql_inc_used:
  assumes "users d user_id = Some row" and "u_last_reset row = Some t"
  shows "db_used t (snd (sql_inc user_id d)) user_id =
           Some ((case db_used t d user_id of None \<Rightarrow> 0 | Some n \<Rightarrow> n) + 1)"
  using assms by (simp add: sql_inc_def db_used_def)

lemma sql_inc_used_other:
  "u \<noteq> user_id \<Longrightarrow> db_used t (snd (sql_inc user_id d)) u = db_used t d u"
  by (simp add: sql_inc_def db_used_def split: option.splits)

lemma sql_inc_dated:
  assumes "users d user_id = Some row" and "u_last_reset row = Some t"
  shows "\<exists>row'. users (snd (sql_inc user_id d)) user_id = Some row' \<and> u_last_reset row' = Some t"
  using assms by (simp add: sql_inc_def)

lemma db_used_users: "users d' = users d \<Longrightarrow> db_used t d' u = db_used t d u"
  by (simp add: db_used_def)

lemma sql_exchange_wf: "wf_db d \<Longrightarrow> wf_db (sql_exchange cfg uid user_text reply d)"
  unfolding sql_exchange_def by (intro sql_inc_wf sql_add_wf)

lemma sql_exchange_used:
  assumes "users d uid = Some row" and "u_last_reset row = Some t"
  shows "db_used t (sql_exchange cfg uid user_text reply d) uid =
           Some ((case db_used t d uid of None \<Rightarrow> 0 | Some n \<Rightarrow> n) + 1)"
proof -
  let ?d2 = "snd (sql_add cfg uid Assistant reply (snd (sql_add cfg uid User user_text d)))"
  have u: "users ?d2 = users d" by (simp add: sql_add_users)
  then have "users ?d2 uid = Some row" using assms(1) by simp
  from sql_inc_used [OF this assms(2)] db_used_users [OF u, of t uid]
  show ?thesis by (simp add: sql_exchange_def)
qed

lemma sql_exchange_dated:
  assumes "users d uid = Some row" and "u_last_reset row = Some t"
  shows "\<exists>row'. users (sql_exchange cfg uid user_text reply d) uid = Some row' \<and>
               u_last_reset row' = Some t"
proof -
  let ?d2 = "snd (sql_add cfg uid Assistant reply (snd (sql_add cfg uid User user_text d)))"
  have "users ?d2 uid = Some row" using assms(1) by (simp add: sql_add_users)
  from sql_inc_dated [OF this assms(2)] show ?thesis by (simp add: sql_exchange_def)
qed

lemma sql_exchange_counters:
  "db_counters_ok d \<Longrightarrow> db_counters_ok (sql_exchange cfg uid user_text reply d)"
  unfolding sql_exchange_def by (intro sql_inc_counters sql_add_counters)


lemma world_ok_backend: "world_ok w \<Longrightarrow> backend_ok w"
  by (simp add: world_ok_def)

lemma world_ok_wf: "world_ok w \<Longrightarrow> current_db w = Some d \<Longrightarrow> wf_db d"
  by (simp add: world_ok_def)

lemma generate_reply_success:
  assumes ok: "world_ok w" and res: "fst (generate_reply cfg uid user_text username w) = Inr reply"
  shows "\<exists>d. current_db w = Some d \<and>
             current_db (snd (generate_reply cfg uid user_text username w)) = Some d \<and>
             world_ok (snd (generate_reply cfg uid user_text username w)) \<and>
             quiet w (snd (generate_reply cfg uid user_text username w))"
proof -
  obtain r w1 where rw: "get_history uid w = (r, w1)" by (cases "get_history uid w")
  from res rw obtain h where r: "r = Inr h"
    by (cases r) (auto simp: generate_reply_unfold)
  from get_history_success [OF world_ok_backend [OF ok], of uid h] rw r
  obtain d where d: "current_db w = Some d" and w1: "w1 = committed w d" by auto
  have wfd: "wf_db d" using ok d by (rule world_ok_wf)
  let ?o = "openai_reply cfg (prompt_for username h user_text) w1"
  have g: "generate_reply cfg uid user_text username w = (Inr (fst ?o), snd ?o)"
    using rw r by (simp add: generate_reply_unfold)
  have ok1: "world_ok w1" unfolding w1 using ok wfd by (rule world_ok_committed)
  have c1: "current_db w1 = Some d" unfolding w1 by simp
  have q1: "quiet w w1" unfolding w1 by (rule quiet_committed)
  have "quiet w1 (snd ?o)" by (rule openai_reply_quiet)
  with q1 have q: "quiet w (snd ?o)" by (rule quiet_trans)
  show ?thesis
    unfolding g using d c1 ok1 q by (simp add: openai_reply_same_storage)
qed

lemma exchange_success:
  assumes ok: "world_ok w" and res: "fst (exchange cfg uid user_text username w) = Inr reply"
  shows "\<exists>d. current_db w = Some d \<and>
             current_db (snd (exchange cfg uid user_text username w)) =
               Some (sql_exchange cfg uid user_text reply d) \<and>
             world_ok (snd (exchange cfg uid user_text username w)) \<and>
             quiet w (snd (exchange cfg uid user_text username w))"
proof -
  let ?f2 = "\<lambda>reply. io_bind (add_msg cfg uid Assistant reply) (\<lambda>_.
               io_bind (inc_user_counter uid) (\<lambda>_. io_return reply))"
  let ?f1 = "\<lambda>_::unit. io_bind (generate_reply cfg uid user_text username) ?f2"
  have ex: "exchange cfg uid user_text username w = io_bind (add_msg cfg uid User user_text) ?f1 w"
    by (simp add: exchange_def)
  \<comment> \<open>the first append\<close>
  from io_bind_Inr [of "add_msg cfg uid User user_text" ?f1 w reply] res ex
  obtain x1 where a1: "fst (add_msg cfg uid User user_text w) = Inr x1"
    and s1: "exchange cfg uid user_text username w =
               ?f1 x1 (snd (add_msg cfg uid User user_text w))" by auto
  from add_msg_success [OF world_ok_backend [OF ok] a1]
  obtain d where d: "current_db w = Some d"
    and w1: "snd (add_msg cfg uid User user_text w) =
               committed w (snd (sql_add cfg uid User user_text d))" by blast
  let ?d1 = "snd (sql_add cfg uid User user_text d)"
  let ?w1 = "committed w ?d1"
  have wfd: "wf_db d" using ok d by (rule world_ok_wf)
  have wf1: "wf_db ?d1" using wfd by (rule sql_add_wf)
  have ok1: "world_ok ?w1" using ok wf1 by (rule world_ok_committed)
  have q1: "quiet w ?w1" by (rule quiet_committed)
  \<comment> \<open>the reply\<close>
  have s1': "exchange cfg uid user_text username w =
               io_bind (generate_reply cfg uid user_text username) ?f2 ?w1"
    using s1 w1 by simp
  from io_bind_Inr [of "generate_reply cfg uid user_text username" ?f2 ?w1 reply] res s1'
  obtain rp where a2: "fst (generate_reply cfg uid user_text username ?w1) = Inr rp"
    and s2: "exchange cfg uid user_text username w =
               ?f2 rp (snd (generate_reply cfg uid user_text username ?w1))" by auto
  let ?w2 = "snd (generate_reply cfg uid user_text username ?w1)"
  from generate_reply_success [OF ok1 a2]
  have c2: "current_db ?w2 = Some ?d1" and ok2: "world_ok ?w2" and q2: "quiet ?w1 ?w2" by auto
  \<comment> \<open>the second append\<close>
  let ?f3 = "\<lambda>_::unit. io_bind (inc_user_counter uid) (\<lambda>_. io_return rp)"
  from io_bind_Inr [of "add_msg cfg uid Assistant rp" ?f3 ?w2 reply] res s2
  obtain x3 where a3: "fst (add_msg cfg uid Assistant rp ?w2) = Inr x3"
    and s3: "exchange cfg uid user_text username w =
               ?f3 x3 (snd (add_msg cfg uid Assistant rp ?w2))" by auto
  from add_msg_success [OF world_ok_backend [OF ok2] a3] c2
  have w3: "snd (add_msg cfg uid Assistant rp ?w2) =
              committed ?w2 (snd (sql_add cfg uid Assistant rp ?d1))" by auto
  let ?d3 = "snd (sql_add cfg uid Assistant rp ?d1)"
  let ?w3 = "committed ?w2 ?d3"
  have wf3: "wf_db ?d3" using wf1 by (rule sql_add_wf)
  have ok3: "world_ok ?w3" using ok2 wf3 by (rule world_ok_committed)
  have q3: "quiet ?w2 ?w3" by (rule quiet_committed)
  \<comment> \<open>the increment\<close>
  let ?f4 = "\<lambda>_::unit. io_return rp :: pystr io"
  have s3': "exchange cfg uid user_text username w = io_bind (inc_user_counter uid) ?f4 ?w3"
    using s3 w3 by simp
  from io_bind_Inr [of "inc_user_counter uid" ?f4 ?w3 reply] res s3'
  obtain x4 where a4: "fst (inc_user_counter uid ?w3) = Inr x4"
    and s4: "exchange cfg uid user_text username w =
               io_return rp (snd (inc_user_counter uid ?w3))" by auto
  have c3: "current_db ?w3 = Some ?d3" by simp
  from inc_user_counter_success [OF world_ok_backend [OF ok3] a4] c3
  have w4: "snd (inc_user_counter uid ?w3) = committed ?w3 (snd (sql_inc uid ?d3))" by auto
  let ?d4 = "snd (sql_inc uid ?d3)"
  let ?w4 = "committed ?w3 ?d4"
  have fin: "exchange cfg uid user_text username w = (Inr rp, ?w4)"
    using s4 w4 by (simp add: io_return_def)
  with res have rp: "rp = reply" by simp
  have ok4: "world_ok ?w4" using ok3 sql_inc_wf [OF wf3] by (rule world_ok_committed)
  have q4: "quiet ?w3 ?w4" by (rule quiet_committed)
  have q: "quiet w ?w4" using q1 q2 q3 q4 by (blast intro: quiet_trans)
  have d4: "?d4 = sql_exchange cfg uid user_text reply d" by (simp add: sql_exchange_def rp)
  have c4: "current_db ?w4 = Some ?d4" by simp
  show ?thesis unfolding fin using d c4 ok4 q d4 by simp
qed


lemma db_fault_committed [simp]: "db_fault (committed w d) = db_fault w"
  by (simp add: committed_def)

lemma generate_reply_ok:
  assumes "db_fault w (db_calls w) = None" and "current_db w = Some d"
  shows "generate_reply cfg uid user_text username w =
           (Inr (fst (openai_reply cfg (prompt_for username (fst (sql_hist uid d)) user_text)
                        (committed w d))),
            snd (openai_reply cfg (prompt_for username (fst (sql_hist uid d)) user_text)
                   (committed w d)))"
  using get_history_ok [OF assms, of uid] by (simp add: generate_reply_unfold)

lemma exchange_ok:
  assumes nf: "\<forall>n. db_fault w n = None" and d: "current_db w = Some d"
  shows "\<exists>reply. fst (exchange cfg uid user_text username w) = Inr reply"
proof -
  let ?d1 = "snd (sql_add cfg uid User user_text d)"
  let ?w1 = "committed w ?d1"
  have 1: "add_msg cfg uid User user_text w = (Inr (), ?w1)"
    using nf d by (intro add_msg_ok) simp_all
  let ?o = "openai_reply cfg (prompt_for username (fst (sql_hist uid ?d1)) user_text)
              (committed ?w1 ?d1)"
  have 2: "generate_reply cfg uid user_text username ?w1 = (Inr (fst ?o), snd ?o)"
    using nf by (intro generate_reply_ok) simp_all
  let ?w2 = "snd ?o"
  have f2: "db_fault ?w2 = db_fault w" using openai_reply_backend [of cfg _ "committed ?w1 ?d1"] by simp
  have c2: "current_db ?w2 = Some ?d1" by (simp add: openai_reply_same_storage)
  let ?d3 = "snd (sql_add cfg uid Assistant (fst ?o) ?d1)"
  let ?w3 = "committed ?w2 ?d3"
  have 3: "add_msg cfg uid Assistant (fst ?o) ?w2 = (Inr (), ?w3)"
    using nf f2 c2 by (intro add_msg_ok) simp_all
  let ?w4 = "committed ?w3 (snd (sql_inc uid ?d3))"
  have 4: "inc_user_counter uid ?w3 = (Inr (), ?w4)"
    using nf f2 by (intro inc_user_counter_ok) simp_all
  have "exchange cfg uid user_text username w = (Inr (fst ?o), ?w4)"
    unfolding exchange_def
    by (simp add: io_bind_step [of _ w "()"] 1 io_bind_def 2 3 4 io_return_def)
  then have "fst (exchange cfg uid user_text username w) = Inr (fst ?o)" by simp
  then show ?thesis ..
qed

lemma local_allowed_steps:
  "io_bind (add_msg cfg uid User user_text) (\<lambda>_.
     io_bind (generate_reply cfg uid user_text username) (\<lambda>reply.
     io_bind (add_msg cfg uid Assistant reply) (\<lambda>_.
     io_bind (inc_user_counter uid) (\<lambda>_.
     print_lana reply)))) =
   io_bind (exchange cfg uid user_text username) print_lana"
  by (simp add: exchange_def io_bind_assoc io_bind_return)

lemma local_message_unfold:
  "local_message cfg user_text w =
     (case get_user fake_user_id (Some fake_username) w of
        (Inl e, w1) \<Rightarrow> (Inl e, w1)
      | (Inr (uid, used, lr), w1) \<Rightarrow>
          (case used of
             None \<Rightarrow> (Inl TypeError, w1)
           | Some n \<Rightarrow>
               if FREE_MESSAGES_PER_DAY cfg \<le> n then print_lana PAYWALL_TEXT w1
               else io_bind (exchange cfg uid user_text (Some fake_username)) print_lana w1))"
  unfolding local_message_def local_allowed_steps PAYWALL_HOOK_def
  by (simp add: io_bind_def io_raise_def split: prod.splits sum.splits option.splits)

lemma reply_text_html:
  "(if PARSEMODE_HTML cfg then reply_text reply True else reply_text reply False) =
   reply_text reply (PARSEMODE_HTML cfg)"
  by simp

lemma tg_allowed_steps:
  "io_bind (add_msg cfg uid User user_text) (\<lambda>_.
     io_bind (generate_reply cfg uid user_text username) (\<lambda>reply.
     io_bind (add_msg cfg uid Assistant reply) (\<lambda>_.
     io_bind (inc_user_counter uid) (\<lambda>_.
     if PARSEMODE_HTML cfg then reply_text reply True else reply_text reply False)))) =
   io_bind (exchange cfg uid user_text username) (\<lambda>reply. reply_text reply (PARSEMODE_HTML cfg))"
  unfolding reply_text_html
  by (simp add: exchange_def io_bind_assoc io_bind_return)

lemma tg_text_body_unfold:
  "tg_text_body cfg upd w =
     (case get_user (effective_user_id upd) (effective_username upd) w of
        (Inl e, w1) \<Rightarrow> (Inl e, w1)
      | (Inr (uid, used, lr), w1) \<Rightarrow>
          (case used of
             None \<Rightarrow> (Inl TypeError, w1)
           | Some n \<Rightarrow>
               if FREE_MESSAGES_PER_DAY cfg \<le> n then reply_text PAYWALL_TEXT False w1
               else io_bind
                      (exchange cfg uid
                         (strip (case message_text upd of None \<Rightarrow> [] | Some t \<Rightarrow> t))
                         (effective_username upd))
                      (\<lambda>reply. reply_text reply (PARSEMODE_HTML cfg)) w1))"
  unfolding tg_text_body_def Let_def tg_allowed_steps PAYWALL_HOOK_def
  by (simp add: io_bind_def io_raise_def split: prod.splits sum.splits option.splits)


section \<open>Runs of allowed messages\<close>

lemma get_user_used_now:
  assumes "backend_ok w" and "fst (get_user uid name w) = Inr (u, used, lr)"
  shows "u = uid \<and> used = used_now w uid \<and> lr = Some (today w) \<and> current_db w \<noteq> None \<and>
         used_now (snd (get_user uid name w)) uid = used"
proof -
  from get_user_success [OF assms]
  obtain d where d: "current_db w = Some d"
    and r: "(u, used, lr) = fst (sql_get (today w) uid name d)"
    and w': "snd (get_user uid name w) = committed w (snd (sql_get (today w) uid name d))"
    by blast
  from r have "u = uid" "used = db_used (today w) d uid" "lr = Some (today w)"
    by (simp_all add: sql_get_used)
  then show ?thesis
    using d unfolding w' by (simp add: used_now_def sql_get_keeps_used)
qed

lemma get_user_nonneg:
  assumes "backend_ok w" and "counters_ok w" and "fst (get_user uid name w) = Inr (u, used, lr)"
  shows "\<exists>n. used = Some n \<and> 0 \<le> n"
proof -
  from get_user_success [OF assms(1,3)]
  obtain d where d: "current_db w = Some d"
    and r: "(u, used, lr) = fst (sql_get (today w) uid name d)" by blast
  from assms(2) d have "db_counters_ok d" by (auto simp: current_db_def dest: counters_okD)
  then have "db_counters_ok (snd (sql_get (today w) uid name d))" by (rule sql_get_counters)
  moreover from sql_get_result_counter [OF r [symmetric]]
  obtain row where "users (snd (sql_get (today w) uid name d)) uid = Some row"
    "u_messages_today row = used" by blast
  ultimately show ?thesis unfolding db_counters_ok_def by blast
qed

lemma cycle_step:
  assumes ok: "world_ok w"
    and gu: "fst (get_user uid name w) = Inr (u, Some n, lr)"
    and ex: "fst (exchange cfg u user_text name' (snd (get_user uid name w))) = Inr reply"
  shows "used_now (snd (exchange cfg u user_text name' (snd (get_user uid name w)))) uid =
           Some (n + 1) \<and>
         world_ok (snd (exchange cfg u user_text name' (snd (get_user uid name w)))) \<and>
         quiet w (snd (exchange cfg u user_text name' (snd (get_user uid name w))))"
proof -
  let ?w1 = "snd (get_user uid name w)"
  let ?w' = "snd (exchange cfg u user_text name' ?w1)"
  from get_user_success [OF world_ok_backend [OF ok] gu]
  obtain d where d: "current_db w = Some d"
    and r: "(u, Some n, lr) = fst (sql_get (today w) uid name d)"
    and w1: "?w1 = committed w (snd (sql_get (today w) uid name d))" by blast
  let ?dg = "snd (sql_get (today w) uid name d)"
  from r have u: "u = uid" and n: "db_used (today w) d uid = Some n"
    by (simp_all add: sql_get_used)
  have wfd: "wf_db d" using ok d by (rule world_ok_wf)
  have ok1: "world_ok ?w1" unfolding w1 using ok sql_get_wf [OF wfd] by (rule world_ok_committed)
  have c1: "current_db ?w1 = Some ?dg" unfolding w1 by simp
  have q1: "quiet w ?w1" unfolding w1 by (rule quiet_committed)
  from exchange_success [OF ok1 ex] c1
  have c': "current_db ?w' = Some (sql_exchange cfg u user_text reply ?dg)"
    and ok': "world_ok ?w'" and q2: "quiet ?w1 ?w'" by auto
  have q: "quiet w ?w'" using q1 q2 by (rule quiet_trans)
  then have td: "today ?w' = today w" by (simp add: quiet_def)
  from sql_get_dated [of "today w" uid name d]
  obtain row where row: "users ?dg uid = Some row" "u_last_reset row = Some (today w)" by blast
  have "db_used (today w) (sql_exchange cfg uid user_text reply ?dg) uid =
          Some ((case db_used (today w) ?dg uid of None \<Rightarrow> 0 | Some k \<Rightarrow> k) + 1)"
    using row by (rule sql_exchange_used)
  then have "db_used (today w) (sql_exchange cfg uid user_text reply ?dg) uid = Some (n + 1)"
    using n by (simp add: sql_get_keeps_used)
  then have "used_now ?w' uid = Some (n + 1)"
    using c' td u by (simp add: used_now_def)
  with ok' q show ?thesis by simp
qed

lemma used_now_cong:
  "stores w' = stores w \<Longrightarrow> DB_URI w' = DB_URI w \<Longrightarrow> DB_DSN w' = DB_DSN w \<Longrightarrow>
   today w' = today w \<Longrightarrow> used_now w' uid = used_now w uid"
  by (simp add: used_now_def current_db_def db_key_def split: option.splits)

lemma print_lana_facts:
  "fst (print_lana s w) = Inr ()"
  "stores (snd (print_lana s w)) = stores w"
  "DB_URI (snd (print_lana s w)) = DB_URI w"
  "DB_DSN (snd (print_lana s w)) = DB_DSN w"
  "today (snd (print_lana s w)) = today w"
  "stdout (snd (print_lana s w)) = stdout w @ [ascii ''lana> '' @ s]"
  "requests (snd (print_lana s w)) = requests w"
  by (simp_all add: print_lana_def)

lemma reply_text_facts:
  "stores (snd (reply_text s html w)) = stores w"
  "DB_URI (snd (reply_text s html w)) = DB_URI w"
  "DB_DSN (snd (reply_text s html w)) = DB_DSN w"
  "today (snd (reply_text s html w)) = today w"
  "requests (snd (reply_text s html w)) = requests w"
  "tg_calls (snd (reply_text s html w)) = Suc (tg_calls w)"
  "tg_fault (snd (reply_text s html w)) = tg_fault w"
  "\<not> tg_fault w (tg_calls w) \<Longrightarrow> reply_text s html w =
      (Inr (), w\<lparr>tg_calls := Suc (tg_calls w), chat := chat w @ [(s, html)]\<rparr>)"
  "tg_fault w (tg_calls w) \<Longrightarrow> reply_text s html w =
      (Inl TransportError, w\<lparr>tg_calls := Suc (tg_calls w)\<rparr>)"
  by (simp_all add: reply_text_def Let_def)

lemma local_message_allowed:
  assumes "fst (get_user fake_user_id (Some fake_username) w) = Inr (u, Some n, lr)"
    and "n < FREE_MESSAGES_PER_DAY cfg"
  shows "local_message cfg user_text w =
           io_bind (exchange cfg u user_text (Some fake_username)) print_lana
             (snd (get_user fake_user_id (Some fake_username) w))"
proof -
  obtain r w1 where g: "get_user fake_user_id (Some fake_username) w = (r, w1)"
    by (cases "get_user fake_user_id (Some fake_username) w")
  with assms(1) have r: "r = Inr (u, Some n, lr)" by simp
  show ?thesis
    using assms(2) by (subst local_message_unfold) (simp add: g r)
qed

lemma local_message_blocked:
  assumes "fst (get_user fake_user_id (Some fake_username) w) = Inr (u, Some n, lr)"
    and "FREE_MESSAGES_PER_DAY cfg \<le> n"
  shows "local_message cfg user_text w =
           print_lana PAYWALL_TEXT (snd (get_user fake_user_id (Some fake_username) w))"
proof -
  obtain r w1 where g: "get_user fake_user_id (Some fake_username) w = (r, w1)"
    by (cases "get_user fake_user_id (Some fake_username) w")
  with assms(1) have r: "r = Inr (u, Some n, lr)" by simp
  show ?thesis
    using assms(2) by (subst local_message_unfold) (simp add: g r)
qed

lemma local_cycle:
  assumes ok: "world_ok w"
    and gu: "fst (get_user fake_user_id (Some fake_username) w) = Inr (u, Some n, lr)"
    and lt: "n < FREE_MESSAGES_PER_DAY cfg"
    and res: "fst (local_message cfg user_text w) = Inr ()"
  shows "used_now (snd (local_message cfg user_text w)) fake_user_id = Some (n + 1) \<and>
         world_ok (snd (local_message cfg user_text w)) \<and>
         today (snd (local_message cfg user_text w)) = today w"
proof -
  let ?w1 = "snd (get_user fake_user_id (Some fake_username) w)"
  let ?e = "exchange cfg u user_text (Some fake_username) ?w1"
  note lm = local_message_allowed [OF gu lt, of user_text]
  from io_bind_Inr [of "exchange cfg u user_text (Some fake_username)" print_lana ?w1 "()"] res lm
  obtain reply where ex: "fst ?e = Inr reply"
    and lm2: "local_message cfg user_text w = print_lana reply (snd ?e)" by auto
  from cycle_step [OF ok gu ex]
  have a: "used_now (snd ?e) fake_user_id = Some (n + 1)" and b: "world_ok (snd ?e)"
    and c: "quiet w (snd ?e)" by simp_all
  let ?w' = "snd (print_lana reply (snd ?e))"
  have "used_now ?w' fake_user_id = used_now (snd ?e) fake_user_id"
    by (rule used_now_cong) (simp_all add: print_lana_facts)
  moreover have "world_ok ?w' = world_ok (snd ?e)"
    by (rule same_storage) (simp_all add: print_lana_facts)
  moreover have "today ?w' = today w" using c by (simp add: print_lana_facts quiet_def)
  ultimately show ?thesis unfolding lm2 using a b by simp
qed

lemma local_cycles_used:
  assumes "world_ok w" and "used_now w fake_user_id = Some m"
    and "local_cycles cfg texts w = Some w'"
  shows "used_now w' fake_user_id = Some (m + int (length texts)) \<and> world_ok w'"
  using assms
proof (induction texts arbitrary: w m)
  case Nil
  then show ?case by simp
next
  case (Cons t rest)
  let ?g = "fst (get_user fake_user_id (Some fake_username) w)"
  from Cons.prems(3) obtain u n lr where gu: "?g = Inr (u, Some n, lr)"
    and lt: "n < FREE_MESSAGES_PER_DAY cfg"
    and res: "fst (local_message cfg t w) = Inr ()"
    and rest: "local_cycles cfg rest (snd (local_message cfg t w)) = Some w'"
    by (auto split: sum.splits prod.splits option.splits if_splits)
  from get_user_used_now [OF world_ok_backend [OF Cons.prems(1)] gu] Cons.prems(2)
  have nm: "n = m" by simp
  from local_cycle [OF Cons.prems(1) gu lt res]
  have a: "used_now (snd (local_message cfg t w)) fake_user_id = Some (n + 1)"
    and b: "world_ok (snd (local_message cfg t w))" by simp_all
  from Cons.IH [OF b a rest] nm show ?case by simp
qed


lemma tg_text_body_allowed:
  assumes "fst (get_user (effective_user_id upd) (effective_username upd) w) = Inr (u, Some n, lr)"
    and "n < FREE_MESSAGES_PER_DAY cfg"
  shows "tg_text_body cfg upd w =
           io_bind
             (exchange cfg u (strip (case message_text upd of None \<Rightarrow> [] | Some t \<Rightarrow> t))
                (effective_username upd))
             (\<lambda>reply. reply_text reply (PARSEMODE_HTML cfg))
             (snd (get_user (effective_user_id upd) (effective_username upd) w))"
proof -
  obtain r w1 where g: "get_user (effective_user_id upd) (effective_username upd) w = (r, w1)"
    by (cases "get_user (effective_user_id upd) (effective_username upd) w")
  with assms(1) have r: "r = Inr (u, Some n, lr)" by simp
  show ?thesis
    using assms(2) by (subst tg_text_body_unfold) (simp add: g r)
qed

lemma tg_text_body_blocked:
  assumes "fst (get_user (effective_user_id upd) (effective_username upd) w) = Inr (u, Some n, lr)"
    and "FREE_MESSAGES_PER_DAY cfg \<le> n"
  shows "tg_text_body cfg upd w =
           reply_text PAYWALL_TEXT False
             (snd (get_user (effective_user_id upd) (effective_username upd) w))"
proof -
  obtain r w1 where g: "get_user (effective_user_id upd) (effective_username upd) w = (r, w1)"
    by (cases "get_user (effective_user_id upd) (effective_username upd) w")
  with assms(1) have r: "r = Inr (u, Some n, lr)" by simp
  show ?thesis
    using assms(2) by (subst tg_text_body_unfold) (simp add: g r)
qed

lemma tg_text_returns: "fst (tg_text cfg upd w) = Inr ()"
  by (auto simp: tg_text_def io_catch_def io_return_def split: prod.splits sum.splits)

lemma tg_reset_returns: "fst (tg_reset upd w) = Inr ()"
  by (auto simp: tg_reset_def io_catch_def io_return_def split: prod.splits sum.splits)

lemma tg_text_no_exception:
  "fst (tg_text_body cfg upd w) = Inr x \<Longrightarrow> tg_text cfg upd w = tg_text_body cfg upd w"
  by (cases "tg_text_body cfg upd w") (auto simp: tg_text_def io_catch_def)

lemma tg_text_exception:
  "fst (tg_text_body cfg upd w) = Inl e \<Longrightarrow>
   tg_text cfg upd w =
     io_catch (reply_text TG_TEXT_APOLOGY False) (\<lambda>_. io_return ())
       ((snd (tg_text_body cfg upd w))
          \<lparr>logged := logged (snd (tg_text_body cfg upd w)) @ [Exc_tg_text e]\<rparr>)"
  by (cases "tg_text_body cfg upd w") (auto simp: tg_text_def io_catch_def)

lemma apology_stores:
  "stores (snd (io_catch (reply_text s False) (\<lambda>_. io_return ()) (w\<lparr>logged := l\<rparr>))) = stores w"
  by (simp add: io_catch_def reply_text_def io_return_def Let_def)

lemma tg_cycle:
  assumes ok: "world_ok w"
    and gu: "fst (get_user (effective_user_id upd) (effective_username upd) w) = Inr (u, Some n, lr)"
    and lt: "n < FREE_MESSAGES_PER_DAY cfg"
    and res: "fst (tg_text_body cfg upd w) = Inr ()"
  shows "used_now (snd (tg_text cfg upd w)) (effective_user_id upd) = Some (n + 1) \<and>
         world_ok (snd (tg_text cfg upd w)) \<and>
         today (snd (tg_text cfg upd w)) = today w"
proof -
  let ?w1 = "snd (get_user (effective_user_id upd) (effective_username upd) w)"
  let ?t = "strip (case message_text upd of None \<Rightarrow> [] | Some t \<Rightarrow> t)"
  let ?e = "exchange cfg u ?t (effective_username upd) ?w1"
  let ?k = "\<lambda>reply. reply_text reply (PARSEMODE_HTML cfg)"
  note tb = tg_text_body_allowed [OF gu lt]
  from io_bind_Inr [of "exchange cfg u ?t (effective_username upd)" ?k ?w1 "()"] res tb
  obtain reply where ex: "fst ?e = Inr reply"
    and tb2: "tg_text_body cfg upd w = reply_text reply (PARSEMODE_HTML cfg) (snd ?e)" by auto
  from cycle_step [OF ok gu ex]
  have a: "used_now (snd ?e) (effective_user_id upd) = Some (n + 1)" and b: "world_ok (snd ?e)"
    and c: "quiet w (snd ?e)" by simp_all
  let ?w' = "snd (reply_text reply (PARSEMODE_HTML cfg) (snd ?e))"
  have "used_now ?w' (effective_user_id upd) = used_now (snd ?e) (effective_user_id upd)"
    by (rule used_now_cong) (simp_all add: reply_text_facts)
  moreover have "world_ok ?w' = world_ok (snd ?e)"
    by (rule same_storage) (simp_all add: reply_text_facts)
  moreover have "today ?w' = today w" using c by (simp add: reply_text_facts quiet_def)
  ultimately show ?thesis
    unfolding tg_text_no_exception [OF res] tb2 using a b by simp
qed

lemma tg_cycles_used:
  assumes "world_ok w" and "used_now w uid = Some m"
    and "tg_cycles cfg upds w = Some w'"
    and "\<forall>upd\<in>set upds. effective_user_id upd = uid"
  shows "used_now w' uid = Some (m + int (length upds)) \<and> world_ok w'"
  using assms
proof (induction upds arbitrary: w m)
  case Nil
  then show ?case by simp
next
  case (Cons upd rest)
  have uid: "effective_user_id upd = uid" using Cons.prems(4) by simp
  let ?g = "fst (get_user (effective_user_id upd) (effective_username upd) w)"
  from Cons.prems(3) obtain u n lr where gu: "?g = Inr (u, Some n, lr)"
    and lt: "n < FREE_MESSAGES_PER_DAY cfg"
    and res: "fst (tg_text_body cfg upd w) = Inr ()"
    and rest: "tg_cycles cfg rest (snd (tg_text cfg upd w)) = Some w'"
    by (auto split: sum.splits prod.splits option.splits if_splits)
  from get_user_used_now [OF world_ok_backend [OF Cons.prems(1)] gu] Cons.prems(2) uid
  have nm: "n = m" by simp
  from tg_cycle [OF Cons.prems(1) gu lt res] uid
  have a: "used_now (snd (tg_text cfg upd w)) uid = Some (n + 1)"
    and b: "world_ok (snd (tg_text cfg upd w))" by simp_all
  have c: "\<forall>upd\<in>set rest. effective_user_id upd = uid" using Cons.prems(4) by simp
  from Cons.IH [OF b a rest c] nm show ?case by simp
qed


section \<open>The reset, and a message when nothing fails\<close>

lemma used_now_Some_db: "used_now w uid = Some m \<Longrightarrow> \<exists>d. current_db w = Some d \<and> db_used (today w) d uid = Some m"
  by (simp add: used_now_def split: option.splits)

lemma get_user_ok_used:
  assumes nf: "db_fault w (db_calls w) = None" and u: "used_now w uid = Some m"
  shows "fst (get_user uid name w) = Inr (uid, Some m, Some (today w)) \<and>
         db_fault (snd (get_user uid name w)) = db_fault w \<and>
         current_db (snd (get_user uid name w)) \<noteq> None"
proof -
  from used_now_Some_db [OF u] obtain d where d: "current_db w = Some d"
    and m: "db_used (today w) d uid = Some m" by blast
  from get_user_ok [OF nf d, of uid name] m show ?thesis by (simp add: sql_get_used)
qed

lemma local_message_ok:
  assumes ok: "world_ok w" and nf: "\<forall>n. db_fault w n = None"
    and u: "used_now w fake_user_id = Some m" and lt: "m < FREE_MESSAGES_PER_DAY cfg"
  shows "fst (local_message cfg user_text w) = Inr () \<and>
         used_now (snd (local_message cfg user_text w)) fake_user_id = Some (m + 1) \<and>
         world_ok (snd (local_message cfg user_text w))"
proof -
  let ?w1 = "snd (get_user fake_user_id (Some fake_username) w)"
  from get_user_ok_used [OF nf [rule_format] u, of "Some fake_username"]
  have gu: "fst (get_user fake_user_id (Some fake_username) w) =
              Inr (fake_user_id, Some m, Some (today w))"
    and f1: "db_fault ?w1 = db_fault w" and c1: "current_db ?w1 \<noteq> None" by simp_all
  from c1 obtain d1 where d1: "current_db ?w1 = Some d1" by auto
  have nf1: "\<forall>n. db_fault ?w1 n = None" using nf f1 by simp
  from exchange_ok [OF nf1 d1, of cfg fake_user_id user_text "Some fake_username"]
  obtain reply where ex: "fst (exchange cfg fake_user_id user_text (Some fake_username) ?w1) = Inr reply" ..
  have "local_message cfg user_text w =
          print_lana reply (snd (exchange cfg fake_user_id user_text (Some fake_username) ?w1))"
    unfolding local_message_allowed [OF gu lt] using ex by (rule io_bind_step)
  then have r: "fst (local_message cfg user_text w) = Inr ()" by (simp add: print_lana_facts)
  from local_cycle [OF ok gu lt r] r show ?thesis by simp
qed

lemma tg_text_ok:
  assumes ok: "world_ok w" and nf: "\<forall>n. db_fault w n = None" and nt: "\<forall>n. \<not> tg_fault w n"
    and u: "used_now w (effective_user_id upd) = Some m" and lt: "m < FREE_MESSAGES_PER_DAY cfg"
  shows "fst (tg_text_body cfg upd w) = Inr () \<and>
         used_now (snd (tg_text cfg upd w)) (effective_user_id upd) = Some (m + 1) \<and>
         world_ok (snd (tg_text cfg upd w)) \<and>
         length (chat (snd (tg_text cfg upd w))) = Suc (length (chat w))"
proof -
  let ?uid = "effective_user_id upd"
  let ?nm = "effective_username upd"
  let ?t = "strip (case message_text upd of None \<Rightarrow> [] | Some t \<Rightarrow> t)"
  let ?w1 = "snd (get_user ?uid ?nm w)"
  from get_user_ok_used [OF nf [rule_format] u, of ?nm]
  have gu: "fst (get_user ?uid ?nm w) = Inr (?uid, Some m, Some (today w))"
    and f1: "db_fault ?w1 = db_fault w" and c1: "current_db ?w1 \<noteq> None" by simp_all
  from c1 obtain d1 where d1: "current_db ?w1 = Some d1" by auto
  have nf1: "\<forall>n. db_fault ?w1 n = None" using nf f1 by simp
  from exchange_ok [OF nf1 d1, of cfg ?uid ?t ?nm]
  obtain reply where ex: "fst (exchange cfg ?uid ?t ?nm ?w1) = Inr reply" ..
  let ?w2 = "snd (exchange cfg ?uid ?t ?nm ?w1)"
  have tb: "tg_text_body cfg upd w = reply_text reply (PARSEMODE_HTML cfg) ?w2"
    unfolding tg_text_body_allowed [OF gu lt] using ex by (rule io_bind_step)
  from cycle_step [OF ok gu ex] have q: "quiet w ?w2" by simp
  then have tf: "\<not> tg_fault ?w2 (tg_calls ?w2)" and ch: "chat ?w2 = chat w"
    using nt by (simp_all add: quiet_def)
  have rt: "reply_text reply (PARSEMODE_HTML cfg) ?w2 =
      (Inr (), ?w2\<lparr>tg_calls := Suc (tg_calls ?w2), chat := chat ?w2 @ [(reply, PARSEMODE_HTML cfg)]\<rparr>)"
    using tf by (rule reply_text_facts)
  have r: "fst (tg_text_body cfg upd w) = Inr ()" unfolding tb rt by simp
  have "length (chat (snd (tg_text cfg upd w))) = Suc (length (chat w))"
    unfolding tg_text_no_exception [OF r] tb rt using ch by simp
  with tg_cycle [OF ok gu lt r] r show ?thesis by simp
qed

lemma do_reset_effect:
  assumes ok: "backend_ok w" and res: "fst (do_reset uid w) = Inr x"
  shows "\<exists>d d'. current_db w = Some d \<and> current_db (snd (do_reset uid w)) = Some d' \<and>
           users d' = users d \<and> seq d' = seq d \<and>
           filter (\<lambda>r. c_user_id r = uid) (convo d') = [] \<and>
           filter (\<lambda>r. c_user_id r \<noteq> uid) (convo d') = filter (\<lambda>r. c_user_id r \<noteq> uid) (convo d) \<and>
           (\<forall>k. k \<noteq> db_key w \<longrightarrow> stores (snd (do_reset uid w)) k = stores w k) \<and>
           db_key (snd (do_reset uid w)) = db_key w \<and> quiet w (snd (do_reset uid w))"
proof -
  from do_reset_success [OF ok res] obtain d where d: "current_db w = Some d"
    and w1: "snd (do_reset uid w) = committed w (snd (sql_do_reset uid d))" by blast
  have "quiet w (committed w (snd (sql_do_reset uid d)))" by (rule quiet_committed)
  moreover have "\<forall>k. k \<noteq> db_key w \<longrightarrow> stores (committed w (snd (sql_do_reset uid d))) k = stores w k"
    by (simp add: committed_def)
  ultimately show ?thesis
    unfolding w1 using d by (simp add: sql_do_reset_def)
qed

lemma do_reset_keeps_used:
  assumes ok: "world_ok w" and res: "fst (do_reset uid w) = Inr x"
  shows "used_now (snd (do_reset uid w)) u = used_now w u \<and> world_ok (snd (do_reset uid w)) \<and>
         db_fault (snd (do_reset uid w)) = db_fault w \<and> tg_fault (snd (do_reset uid w)) = tg_fault w"
proof -
  from do_reset_success [OF world_ok_backend [OF ok] res] obtain d where d: "current_db w = Some d"
    and w1: "snd (do_reset uid w) = committed w (snd (sql_do_reset uid d))" by blast
  have wf: "wf_db (snd (sql_do_reset uid d))"
    using world_ok_wf [OF ok d] by (rule sql_do_reset_wf)
  have "world_ok (committed w (snd (sql_do_reset uid d)))" using ok wf by (rule world_ok_committed)
  moreover have "used_now (committed w (snd (sql_do_reset uid d))) u = used_now w u"
    using d by (simp add: used_now_def db_used_users [OF sql_do_reset_users])
  ultimately show ?thesis unfolding w1 by (simp add: committed_def)
qed

lemma local_reset_line:
  "local_lines cfg [ascii ''/reset''] w =
      (case do_reset fake_user_id w of
         (Inl e, w1) \<Rightarrow> (Inl e, w1)
       | (Inr _, w1) \<Rightarrow> (Inr (), w1\<lparr>stdout := stdout w1 @ [LOCAL_RESET_ACK]\<rparr>))"
proof -
  have st: "strip (ascii ''/reset'') = ascii ''/reset''"
    by (simp add: strip_def ascii_def isspace_def)
  show ?thesis
    by (simp add: st) (simp add: ascii_def split: prod.splits sum.splits)
qed

lemma tg_reset_unfold:
  "tg_reset upd w =
     (case do_reset (effective_user_id upd) w of
        (Inr _, w1) \<Rightarrow> io_catch (reply_text TG_RESET_ACK False)
            (\<lambda>e v. io_catch (reply_text TG_RESET_FAILED False) (\<lambda>_. io_return ())
                      (v\<lparr>logged := logged v @ [Exc_tg_reset e]\<rparr>)) w1
      | (Inl e, w1) \<Rightarrow> io_catch (reply_text TG_RESET_FAILED False) (\<lambda>_. io_return ())
                      (w1\<lparr>logged := logged w1 @ [Exc_tg_reset e]\<rparr>))"
  by (auto simp: tg_reset_def io_catch_def io_bind_def split: prod.splits sum.splits)

lemma tg_reset_storage:
  "stores (snd (tg_reset upd w)) = stores (snd (do_reset (effective_user_id upd) w)) \<and>
   DB_URI (snd (tg_reset upd w)) = DB_URI (snd (do_reset (effective_user_id upd) w)) \<and>
   DB_DSN (snd (tg_reset upd w)) = DB_DSN (snd (do_reset (effective_user_id upd) w)) \<and>
   today (snd (tg_reset upd w)) = today (snd (do_reset (effective_user_id upd) w)) \<and>
   db_fault (snd (tg_reset upd w)) = db_fault (snd (do_reset (effective_user_id upd) w)) \<and>
   tg_fault (snd (tg_reset upd w)) = tg_fault (snd (do_reset (effective_user_id upd) w))"
  by (cases "do_reset (effective_user_id upd) w")
     (auto simp: tg_reset_unfold io_catch_def reply_text_def io_return_def Let_def
       split: sum.splits)

lemma local_reset_storage:
  "stores (snd (local_lines cfg [ascii ''/reset''] w)) = stores (snd (do_reset fake_user_id w)) \<and>
   DB_URI (snd (local_lines cfg [ascii ''/reset''] w)) = DB_URI (snd (do_reset fake_user_id w)) \<and>
   DB_DSN (snd (local_lines cfg [ascii ''/reset''] w)) = DB_DSN (snd (do_reset fake_user_id w)) \<and>
   today (snd (local_lines cfg [ascii ''/reset''] w)) = today (snd (do_reset fake_user_id w)) \<and>
   db_fault (snd (local_lines cfg [ascii ''/reset''] w)) = db_fault (snd (do_reset fake_user_id w)) \<and>
   fst (local_lines cfg [ascii ''/reset''] w) = fst (do_reset fake_user_id w)"
  unfolding local_reset_line
  by (cases "do_reset fake_user_id w") (auto split: sum.splits)


section \<open>The worlds a process reaches\<close>

text \<open>
  A process starts with \<open>DB_URI = False\<close> and no table anywhere; every storage call keeps
  \<open>world_ok\<close>, whether it returns or raises.
\<close>

lemma run_sql_world_ok:
  assumes body: "\<And>d. wf_db d \<Longrightarrow> wf_db (snd (body d))" and ok: "world_ok w"
  shows "world_ok (snd (run_sql body w))"
proof (cases "db_fault w (db_calls w) = None \<and> current_db w \<noteq> None")
  case True
  then obtain d where d: "current_db w = Some d" by auto
  have "snd (run_sql body w) = committed w (snd (body d))"
    using True d by (simp add: run_sql_def Let_def committed_def current_db_def)
  moreover have "wf_db (snd (body d))" using world_ok_wf [OF ok d] by (rule body)
  ultimately show ?thesis using ok by (simp add: world_ok_committed)
next
  case False
  then have "stores (snd (run_sql body w)) = stores w"
    by (auto simp: run_sql_def Let_def current_db_def split: option.splits)
  moreover have "DB_URI (snd (run_sql body w)) = DB_URI w" "DB_DSN (snd (run_sql body w)) = DB_DSN w"
    using run_sql_frame [of body w] by simp_all
  ultimately show ?thesis using same_storage(3) [of "snd (run_sql body w)" w] ok by simp
qed

lemma sql_init_world_ok:
  assumes ok: "world_ok w"
  shows "world_ok (snd (sql_init w))"
proof (cases "db_fault w (db_calls w)")
  case (Some e)
  then have "stores (snd (sql_init w)) = stores w" "DB_URI (snd (sql_init w)) = DB_URI w"
    "DB_DSN (snd (sql_init w)) = DB_DSN w" by (simp_all add: sql_init_def Let_def)
  then show ?thesis using same_storage(3) [of "snd (sql_init w)" w] ok by simp
next
  case None
  let ?d = "case current_db w of None \<Rightarrow> empty_database | Some d \<Rightarrow> d"
  have "snd (sql_init w) = committed w ?d"
    using None by (simp add: sql_init_def Let_def committed_def current_db_def)
  moreover have "wf_db ?d"
    using ok by (auto simp: world_ok_def wf_db_def empty_database_def split: option.splits)
  ultimately show ?thesis using ok by (simp add: world_ok_committed)
qed

lemma switch_world_ok:
  assumes "world_ok w" and "\<not> DB_URI w"
  shows "world_ok (switch_to_memory_db (w\<lparr>logged := l\<rparr>))"
  using assms
  by (simp add: world_ok_def backend_ok_def current_db_def db_key_def switch_to_memory_db_def)

lemma db_try_world_ok:
  assumes fn: "\<And>v. world_ok v \<Longrightarrow> world_ok (snd (fn v))" and ok: "world_ok w"
  shows "world_ok (snd (db_try fn w))"
proof -
  obtain r w1 where rw: "fn w = (r, w1)" by (cases "fn w")
  have ok1: "world_ok w1" using fn [OF ok] rw by simp
  show ?thesis
  proof (cases r)
    case (Inr x)
    with rw ok1 show ?thesis by (simp add: db_try_def)
  next
    case (Inl e)
    show ?thesis
    proof (cases "is_io e \<and> \<not> DB_URI w1")
      case True
      let ?w2 = "switch_to_memory_db (w1\<lparr>logged := logged w1 @ [Warn_db_op_failed e]\<rparr>)"
      have "db_try fn w = fn ?w2" using rw Inl True by (simp add: db_try_retries)
      moreover have "world_ok ?w2" using ok1 True by (intro switch_world_ok) simp_all
      ultimately show ?thesis using fn [of ?w2] by simp
    next
      case False
      then have "db_try fn w = (Inl e, w1)" using rw Inl by (intro db_try_propagates) auto
      with ok1 show ?thesis by simp
    qed
  qed
qed

lemma run_call_world_ok: "world_ok w \<Longrightarrow> world_ok (run_call cfg c w)"
proof (cases c)
  case Call_init_db
  assume "world_ok w"
  then show ?thesis unfolding Call_init_db run_call.simps init_db_def
    by (rule db_try_world_ok [rotated]) (rule sql_init_world_ok)
next
  case (Call_get_user u n)
  assume "world_ok w"
  then show ?thesis unfolding Call_get_user run_call.simps get_user_def
    by (rule db_try_world_ok [rotated]) (rule run_sql_world_ok, rule sql_get_wf)
next
  case (Call_inc_user_counter u)
  assume "world_ok w"
  then show ?thesis unfolding Call_inc_user_counter run_call.simps inc_user_counter_def
    by (rule db_try_world_ok [rotated]) (rule run_sql_world_ok, rule sql_inc_wf)
next
  case (Call_add_msg u r t)
  assume "world_ok w"
  then show ?thesis unfolding Call_add_msg run_call.simps add_msg_def
    by (rule db_try_world_ok [rotated]) (rule run_sql_world_ok, rule sql_add_wf)
next
  case (Call_get_history u)
  assume "world_ok w"
  then show ?thesis unfolding Call_get_history run_call.simps get_history_def
    by (rule db_try_world_ok [rotated]) (rule run_sql_world_ok, simp add: sql_hist_unchanged)
next
  case (Call_do_reset u)
  assume "world_ok w"
  then show ?thesis unfolding Call_do_reset run_call.simps do_reset_def
    by (rule db_try_world_ok [rotated]) (rule run_sql_world_ok, rule sql_do_reset_wf)
next
  case (Clock d)
  assume "world_ok w"
  then show ?thesis unfolding Clock
    by (simp add: world_ok_def backend_ok_def current_db_def db_key_def)
qed

lemma run_calls_world_ok: "world_ok w \<Longrightarrow> world_ok (run_calls cfg calls w)"
  unfolding run_calls_def
  by (induction calls arbitrary: w) (simp_all add: run_call_world_ok)

lemma process_start_world_ok:
  "\<not> DB_URI w \<Longrightarrow> \<forall>k. stores w k = None \<Longrightarrow> world_ok w \<and> counters_ok w"
  by (simp add: world_ok_def backend_ok_def current_db_def counters_ok_def db_key_def)


section \<open>C1: the history of a user is capped\<close>

text \<open>
  Claim C1. Let \<open>k\<close> turns be appended for one user by consecutive calls of \<open>add_msg\<close>
  that return, and let \<open>get_history\<close> return \<open>h\<close> afterwards. If \<open>k\<close> is more than
  \<open>2 * HISTORY_TURNS\<close>, then \<open>h\<close> is exactly the last \<open>2 * HISTORY_TURNS\<close> appended turns,
  in the order of their insertion, oldest first, so the \<open>k - 2 * HISTORY_TURNS\<close> oldest
  are gone; and after at least one append the read never shows more than
  \<open>2 * HISTORY_TURNS\<close> turns, whatever was stored before. The number of turns kept is
  \<open>nat (2 * HISTORY_TURNS)\<close>: a negative \<open>HISTORY_TURNS\<close> keeps no turn, as zero does.
\<close>

theorem history_keeps_last_turns:
  assumes "world_ok w"
    and "turns \<noteq> []"
    and "fst (add_msgs cfg user_id turns w) = Inr ()"
    and "fst (get_history user_id (snd (add_msgs cfg user_id turns w))) = Inr h"
  shows "length h \<le> nat (HISTORY_TURNS cfg * 2) \<and>
         (HISTORY_TURNS cfg * 2 < int (length turns) \<longrightarrow>
            h = drop (length turns - nat (HISTORY_TURNS cfg * 2)) turns \<and>
            length h = nat (HISTORY_TURNS cfg * 2))"
proof -
  let ?n = "nat (HISTORY_TURNS cfg * 2)"
  let ?w' = "snd (add_msgs cfg user_id turns w)"
  have bok: "backend_ok w" using assms(1) by (simp add: world_ok_def)
  from add_msgs_needs_db [OF bok assms(3,2)] obtain d where d: "current_db w = Some d" ..
  then have wf: "wf_db d" using assms(1) by (simp add: world_ok_def)
  from add_msgs_success [OF assms(1,3) d]
  have ok': "world_ok ?w'" and d': "current_db ?w' = Some (sql_adds cfg user_id turns d)"
    by simp_all
  from ok' have "backend_ok ?w'" by (simp add: world_ok_def)
  from get_history_success [OF this assms(4)] d'
  have "h = fst (sql_hist user_id (sql_adds cfg user_id turns d))" by auto
  then have h: "h = lastn ?n (fst (sql_hist user_id d) @ turns)"
    using sql_adds_hist_same [OF wf assms(2)] by simp
  have short: "length h \<le> ?n" unfolding h by (simp add: length_lastn)
  have long: "h = drop (length turns - ?n) turns \<and> length h = ?n"
    if "HISTORY_TURNS cfg * 2 < int (length turns)"
  proof -
    from that have le: "?n \<le> length turns" by linarith
    then have "h = drop (length turns - ?n) turns" unfolding h by (rule lastn_append_long)
    then show ?thesis using le by simp
  qed
  from short long show ?thesis by blast
qed

theorem history_keeps_last_turns_witness:
  "world_ok ready_world \<and>
   fst (add_msgs stub_config 7
          [(User, ascii ''a''), (Assistant, ascii ''b''), (User, ascii ''c'')] ready_world) = Inr () \<and>
   fst (get_history 7 (snd (add_msgs stub_config 7
          [(User, ascii ''a''), (Assistant, ascii ''b''), (User, ascii ''c'')] ready_world))) =
     Inr [(Assistant, ascii ''b''), (User, ascii ''c'')] \<and>
   [(User, ascii ''a''), (Assistant, ascii ''b''), (User, ascii ''c'')] \<noteq> [] \<and>
   HISTORY_TURNS stub_config * 2 < int (length [(User, ascii ''a''), (Assistant, ascii ''b''), (User, ascii ''c'')]) \<and>
   [(Assistant, ascii ''b''), (User, ascii ''c'')] =
     drop (3 - nat (HISTORY_TURNS stub_config * 2))
       [(User, ascii ''a''), (Assistant, ascii ''b''), (User, ascii ''c'')] \<and>
   length [(Assistant, ascii ''b''), (User, ascii ''c'')] = nat (HISTORY_TURNS stub_config * 2)"
proof -
  let ?turns = "[(User, ascii ''a''), (Assistant, ascii ''b''), (User, ascii ''c'')]"
  have 1: "world_ok ready_world" by (simp add: storage_defs)
  have 2: "fst (add_msgs stub_config 7 ?turns ready_world) = Inr ()"
    by (simp add: storage_defs)
  have 3: "fst (get_history 7 (snd (add_msgs stub_config 7 ?turns ready_world))) =
             Inr [(Assistant, ascii ''b''), (User, ascii ''c'')]"
    by (simp add: storage_defs)
  have 4: "HISTORY_TURNS stub_config * 2 < int (length ?turns)"
    by (simp add: stub_config_def)
  have 5: "?turns \<noteq> []" by simp
  from history_keeps_last_turns [OF 1 5 2 3] 4 1 2 3 show ?thesis
    by (simp add: stub_config_def)
qed

section \<open>C3: the one-shot fallback of the storage wrapper\<close>

text \<open>
  Claim C3. Let an inner storage function \<open>fn\<close> raise an I/O-class error (\<open>OSError\<close> or
  \<open>sqlite3.OperationalError\<close>) under \<open>_db_try\<close>. While the backend is the file
  (\<open>DB_URI\<close> is false), the process switches to the shared in-memory database and calls
  \<open>fn\<close> exactly once more: the outcome of \<open>_db_try\<close> is the outcome of that second call,
  whatever it is, two connections were opened in all, and one switch was logged. When
  the backend is already in memory, the error propagates after the one call. Over any
  run of storage calls a set \<open>DB_URI\<close> stays set with no further switch, and at most one
  switch is ever added.
\<close>

theorem db_try_falls_back_once:
  fixes fn :: "'a io"
  shows "(storage_fn fn \<and> fst (fn w) = Inl e \<and> is_io e \<and> \<not> DB_URI w \<longrightarrow>
            db_try fn w =
              fn (switch_to_memory_db
                    ((snd (fn w))\<lparr>logged := logged (snd (fn w)) @ [Warn_db_op_failed e]\<rparr>)) \<and>
            DB_URI (snd (db_try fn w)) \<and> DB_DSN (snd (db_try fn w)) = MEM_DSN \<and>
            db_calls (snd (db_try fn w)) = db_calls w + 2 \<and>
            switches (snd (db_try fn w)) = switches w + 1) \<and>
         (storage_fn fn \<and> fst (fn w) = Inl e \<and> DB_URI w \<longrightarrow>
            db_try fn w = (Inl e, snd (fn w)) \<and> DB_URI (snd (db_try fn w)) \<and>
            db_calls (snd (db_try fn w)) = db_calls w + 1 \<and>
            switches (snd (db_try fn w)) = switches w) \<and>
         (DB_URI v \<longrightarrow>
            DB_URI (run_calls cfg calls v) \<and> switches (run_calls cfg calls v) = switches v) \<and>
         switches (run_calls cfg calls v) \<le> switches v + 1"
proof (intro conjI impI)
  assume h: "storage_fn fn \<and> fst (fn w) = Inl e \<and> is_io e \<and> \<not> DB_URI w"
  let ?w1 = "snd (fn w)"
  let ?w2 = "switch_to_memory_db (?w1\<lparr>logged := logged ?w1 @ [Warn_db_op_failed e]\<rparr>)"
  from h have sf: "storage_fn fn" by simp
  have fr: "db_calls (snd (fn u)) = Suc (db_calls u) \<and> DB_URI (snd (fn u)) = DB_URI u \<and>
            DB_DSN (snd (fn u)) = DB_DSN u \<and> logged (snd (fn u)) = logged u" for u
    using sf unfolding storage_fn_def by blast
  have rw: "fn w = (Inl e, ?w1)" using h by (simp add: prod_eq_iff)
  have nuri: "\<not> DB_URI ?w1" using fr [of w] h by simp
  show eq: "db_try fn w = fn ?w2" using rw h nuri by (rule_tac db_try_retries) simp_all
  show "DB_URI (snd (db_try fn w))"
    unfolding eq using fr [of ?w2] by (simp add: switch_to_memory_db_def)
  show "DB_DSN (snd (db_try fn w)) = MEM_DSN"
    unfolding eq using fr [of ?w2] by (simp add: switch_to_memory_db_def)
  show "db_calls (snd (db_try fn w)) = db_calls w + 2"
    unfolding eq using fr [of ?w2] fr [of w] by (simp add: switch_to_memory_db_def)
  show "switches (snd (db_try fn w)) = switches w + 1"
    unfolding eq using storage_fn_switches [OF sf, of ?w2] storage_fn_switches [OF sf, of w]
      switches_switch [of ?w1 e] by simp
next
  assume h: "storage_fn fn \<and> fst (fn w) = Inl e \<and> DB_URI w"
  let ?w1 = "snd (fn w)"
  from h have sf: "storage_fn fn" by simp
  have fr: "db_calls (snd (fn u)) = Suc (db_calls u) \<and> DB_URI (snd (fn u)) = DB_URI u" for u
    using sf unfolding storage_fn_def by blast
  have rw: "fn w = (Inl e, ?w1)" using h by (simp add: prod_eq_iff)
  have uri: "DB_URI ?w1" using fr [of w] h by simp
  show eq: "db_try fn w = (Inl e, ?w1)" using rw uri by (rule_tac db_try_propagates) simp_all
  show "DB_URI (snd (db_try fn w))" unfolding eq using uri by simp
  show "db_calls (snd (db_try fn w)) = db_calls w + 1" unfolding eq using fr [of w] by simp
  show "switches (snd (db_try fn w)) = switches w"
    unfolding eq using storage_fn_switches [OF sf, of w] by simp
next
  assume "DB_URI v"
  then show "DB_URI (run_calls cfg calls v)" using run_calls_backend [of v cfg calls] by simp
next
  assume "DB_URI v"
  then show "switches (run_calls cfg calls v) = switches v"
    using run_calls_backend [of v cfg calls] by simp
next
  show "switches (run_calls cfg calls v) \<le> switches v + 1"
    using run_calls_backend [of v cfg calls] by (simp split: if_splits)
qed

text \<open>
  The witness: \<open>init_db\<close> on the world whose first connection raises falls back and
  returns; the next call, \<open>inc_user_counter\<close>, meets the second fault in memory mode and
  raises.
\<close>

theorem db_try_falls_back_once_witness:
  "storage_fn sql_init \<and> fst (sql_init faulty_world) = Inl OSError \<and> is_io OSError \<and>
   \<not> DB_URI faulty_world \<and>
   fst (db_try sql_init faulty_world) = Inr () \<and>
   DB_URI (snd (db_try sql_init faulty_world)) \<and>
   DB_DSN (snd (db_try sql_init faulty_world)) = MEM_DSN \<and>
   db_calls (snd (db_try sql_init faulty_world)) = 2 \<and>
   switches (snd (db_try sql_init faulty_world)) = 1 \<and>
   storage_fn (run_sql (sql_inc 1)) \<and>
   fst (run_sql (sql_inc 1) (snd (init_db faulty_world))) = Inl OSError \<and>
   DB_URI (snd (init_db faulty_world)) \<and>
   fst (db_try (run_sql (sql_inc 1)) (snd (init_db faulty_world))) = Inl OSError \<and>
   db_calls (snd (db_try (run_sql (sql_inc 1)) (snd (init_db faulty_world)))) = 3 \<and>
   switches (snd (db_try (run_sql (sql_inc 1)) (snd (init_db faulty_world)))) = 1 \<and>
   DB_URI (run_calls stub_config [Call_inc_user_counter 1, Call_init_db]
             (snd (init_db faulty_world)))"
proof -
  let ?w = "snd (init_db faulty_world)"
  have a1: "storage_fn sql_init" by (rule storage_fn_sql_init)
  have a2: "fst (sql_init faulty_world) = Inl OSError" by (simp add: storage_defs)
  have a3: "is_io OSError" by (simp add: is_io_def)
  have a4: "\<not> DB_URI faulty_world" by (simp add: storage_defs)
  have b1: "storage_fn (run_sql (sql_inc 1))"
    using storage_fn_run_sql [of "\<lambda>v. sql_inc 1"] by simp
  have b2: "fst (run_sql (sql_inc 1) ?w) = Inl OSError" by (simp add: storage_defs)
  have b3: "DB_URI ?w" by (simp add: storage_defs)
  have c1: "fst (db_try sql_init faulty_world) = Inr ()" by (simp add: storage_defs)
  have c2: "db_calls faulty_world = 0" "switches faulty_world = 0"
    by (simp_all add: storage_defs)
  have c3: "db_calls ?w = 2" "switches ?w = 1" by (simp_all add: storage_defs)
  note first = db_try_falls_back_once [of sql_init faulty_world OSError ?w stub_config
      "[Call_inc_user_counter 1, Call_init_db]"]
  note second = db_try_falls_back_once [of "run_sql (sql_inc 1)" ?w OSError ?w stub_config
      "[Call_inc_user_counter 1, Call_init_db]"]
  have F: "DB_URI (snd (db_try sql_init faulty_world)) \<and>
           DB_DSN (snd (db_try sql_init faulty_world)) = MEM_DSN \<and>
           db_calls (snd (db_try sql_init faulty_world)) = db_calls faulty_world + 2 \<and>
           switches (snd (db_try sql_init faulty_world)) = switches faulty_world + 1"
    using first a1 a2 a3 a4 by blast
  have S: "db_try (run_sql (sql_inc 1)) ?w = (Inl OSError, snd (run_sql (sql_inc 1) ?w)) \<and>
           db_calls (snd (db_try (run_sql (sql_inc 1)) ?w)) = db_calls ?w + 1 \<and>
           switches (snd (db_try (run_sql (sql_inc 1)) ?w)) = switches ?w"
    using second b1 b2 b3 by blast
  then have S1: "fst (db_try (run_sql (sql_inc 1)) ?w) = Inl OSError" by simp
  have T: "DB_URI (run_calls stub_config [Call_inc_user_counter 1, Call_init_db] ?w)"
    using second b3 by blast
  show ?thesis
    using F S [THEN conjunct2] S1 T a1 a2 a3 a4 b1 b2 b3 c1 c2 c3 by simp
qed

section \<open>C4: get-or-create with the daily rollover\<close>

text \<open>
  Claim C4. When \<open>get_user\<close> returns: for a \<open>user_id\<close> with no row it has inserted the row
  with counter 0 and today's date and returns \<open>(user_id, 0, today)\<close>; for a row whose
  \<open>last_reset\<close> is not today (\<open>NULL\<close> included) it has set the counter to 0 and the date to
  today and returns \<open>(user_id, 0, today)\<close>; for a row dated today it returns the stored
  counter and date and leaves the table as it was. No other row and no turn changes. It
  does return when the connection does not fail and the tables exist.
\<close>

theorem get_user_creates_or_rolls_over:
  "(backend_ok w \<and> fst (get_user user_id username w) = Inr r \<longrightarrow>
      (\<exists>d d'. current_db w = Some d \<and>
         current_db (snd (get_user user_id username w)) = Some d' \<and>
         convo d' = convo d \<and>
         (\<forall>other. other \<noteq> user_id \<longrightarrow> users d' other = users d other) \<and>
         (case users d user_id of
            None \<Rightarrow>
              r = (user_id, Some 0, Some (today w)) \<and>
              users d' user_id =
                Some \<lparr>u_username = username, u_messages_today = Some 0,
                      u_last_reset = Some (today w)\<rparr>
          | Some row \<Rightarrow>
              if u_last_reset row \<noteq> Some (today w) then
                r = (user_id, Some 0, Some (today w)) \<and>
                users d' user_id =
                  Some (row\<lparr>u_messages_today := Some 0, u_last_reset := Some (today w)\<rparr>)
              else
                r = (user_id, u_messages_today row, u_last_reset row) \<and> d' = d))) \<and>
   (db_fault w (db_calls w) = None \<and> current_db w \<noteq> None \<longrightarrow>
      (\<exists>r. fst (get_user user_id username w) = Inr r))"
proof (intro conjI impI)
  assume h: "backend_ok w \<and> fst (get_user user_id username w) = Inr r"
  then obtain d where d: "current_db w = Some d"
    and r: "r = fst (sql_get (today w) user_id username d)"
    and w': "snd (get_user user_id username w) =
               committed w (snd (sql_get (today w) user_id username d))"
    using get_user_success [of w user_id username r] by blast
  let ?d' = "snd (sql_get (today w) user_id username d)"
  have cur: "current_db (snd (get_user user_id username w)) = Some ?d'"
    unfolding w' by simp
  have frame: "convo ?d' = convo d \<and>
               (\<forall>other. other \<noteq> user_id \<longrightarrow> users ?d' other = users d other)"
    by (simp add: sql_get_def split: option.splits)
  have cases: "(case users d user_id of
            None \<Rightarrow>
              r = (user_id, Some 0, Some (today w)) \<and>
              users ?d' user_id =
                Some \<lparr>u_username = username, u_messages_today = Some 0,
                      u_last_reset = Some (today w)\<rparr>
          | Some row \<Rightarrow>
              if u_last_reset row \<noteq> Some (today w) then
                r = (user_id, Some 0, Some (today w)) \<and>
                users ?d' user_id =
                  Some (row\<lparr>u_messages_today := Some 0, u_last_reset := Some (today w)\<rparr>)
              else
                r = (user_id, u_messages_today row, u_last_reset row) \<and> ?d' = d)"
    unfolding r by (auto simp: sql_get_def split: option.splits)
  from d cur frame cases
  show "\<exists>d d'. current_db w = Some d \<and>
         current_db (snd (get_user user_id username w)) = Some d' \<and>
         convo d' = convo d \<and>
         (\<forall>other. other \<noteq> user_id \<longrightarrow> users d' other = users d other) \<and>
         (case users d user_id of
            None \<Rightarrow>
              r = (user_id, Some 0, Some (today w)) \<and>
              users d' user_id =
                Some \<lparr>u_username = username, u_messages_today = Some 0,
                      u_last_reset = Some (today w)\<rparr>
          | Some row \<Rightarrow>
              if u_last_reset row \<noteq> Some (today w) then
                r = (user_id, Some 0, Some (today w)) \<and>
                users d' user_id =
                  Some (row\<lparr>u_messages_today := Some 0, u_last_reset := Some (today w)\<rparr>)
              else
                r = (user_id, u_messages_today row, u_last_reset row) \<and> d' = d)"
    by blast
next
  assume "db_fault w (db_calls w) = None \<and> current_db w \<noteq> None"
  then obtain d where "db_fault w (db_calls w) = None" "current_db w = Some d" by auto
  from get_user_ok [OF this, of user_id username]
  have "fst (get_user user_id username w) = Inr (fst (sql_get (today w) user_id username d))"
    by simp
  then show "\<exists>r. fst (get_user user_id username w) = Inr r" ..
qed

text \<open>
  The witness: user 42 was last seen the day before and is rolled over, user 43 is dated
  today and keeps the counter, user 44 is new.
\<close>

theorem get_user_creates_or_rolls_over_witness:
  "backend_ok seeded_world \<and>
   fst (get_user 42 (Some (ascii ''tester'')) seeded_world) = Inr (42, Some 0, Some (Date 2026 11 4)) \<and>
   fst (get_user 43 None seeded_world) = Inr (43, Some 2, Some (Date 2026 11 4)) \<and>
   fst (get_user 44 None seeded_world) = Inr (44, Some 0, Some (Date 2026 11 4)) \<and>
   (\<exists>d'. current_db (snd (get_user 42 (Some (ascii ''tester'')) seeded_world)) = Some d' \<and>
      convo d' = convo seeded_db \<and> users d' 43 = users seeded_db 43 \<and>
      users d' 42 =
        Some \<lparr>u_username = Some (ascii ''tester''), u_messages_today = Some 0,
              u_last_reset = Some (Date 2026 11 4)\<rparr>) \<and>
   current_db (snd (get_user 43 None seeded_world)) = Some seeded_db \<and>
   (\<exists>d'. current_db (snd (get_user 44 None seeded_world)) = Some d' \<and>
      users d' 44 =
        Some \<lparr>u_username = None, u_messages_today = Some 0,
              u_last_reset = Some (Date 2026 11 4)\<rparr>)"
proof -
  have ok: "backend_ok seeded_world" by (simp add: storage_defs)
  have cur: "current_db seeded_world = Some seeded_db"
    by (simp add: current_db_def db_key_def seeded_world_def fresh_world_def)
  have td: "today seeded_world = Date 2026 11 4" by (simp add: seeded_world_def fresh_world_def)
  have u42: "users seeded_db 42 =
      Some \<lparr>u_username = Some (ascii ''tester''), u_messages_today = Some 5,
            u_last_reset = Some (Date 2026 11 3)\<rparr>"
    and u43: "users seeded_db 43 =
      Some \<lparr>u_username = None, u_messages_today = Some 2, u_last_reset = Some (Date 2026 11 4)\<rparr>"
    and u44: "users seeded_db 44 = None"
    by (simp_all add: seeded_db_def)
  have r42: "fst (get_user 42 (Some (ascii ''tester'')) seeded_world) =
               Inr (42, Some 0, Some (Date 2026 11 4))"
    by (simp add: storage_defs)
  have r43: "fst (get_user 43 None seeded_world) = Inr (43, Some 2, Some (Date 2026 11 4))"
    by (simp add: storage_defs)
  have r44: "fst (get_user 44 None seeded_world) = Inr (44, Some 0, Some (Date 2026 11 4))"
    by (simp add: storage_defs)
  have a: "\<exists>d'. current_db (snd (get_user 42 (Some (ascii ''tester'')) seeded_world)) = Some d' \<and>
      convo d' = convo seeded_db \<and> users d' 43 = users seeded_db 43 \<and>
      users d' 42 =
        Some \<lparr>u_username = Some (ascii ''tester''), u_messages_today = Some 0,
              u_last_reset = Some (Date 2026 11 4)\<rparr>"
    using get_user_creates_or_rolls_over
      [of seeded_world 42 "Some (ascii ''tester'')" "(42, Some 0, Some (Date 2026 11 4))"]
      ok r42 cur td u42 by auto
  have b: "current_db (snd (get_user 43 None seeded_world)) = Some seeded_db"
    using get_user_creates_or_rolls_over
      [of seeded_world 43 None "(43, Some 2, Some (Date 2026 11 4))"]
      ok r43 cur td u43 by auto
  have c: "\<exists>d'. current_db (snd (get_user 44 None seeded_world)) = Some d' \<and>
      users d' 44 =
        Some \<lparr>u_username = None, u_messages_today = Some 0,
              u_last_reset = Some (Date 2026 11 4)\<rparr>"
    using get_user_creates_or_rolls_over
      [of seeded_world 44 None "(44, Some 0, Some (Date 2026 11 4))"]
      ok r44 cur td u44 by auto
  from ok r42 r43 r44 a b c show ?thesis by blast
qed

section \<open>C7: a cleared history reads as empty\<close>

text \<open>
  Claim C7. For every user and every state of the store: when the reset of the user (the
  \<open>DELETE\<close> that \<open>/reset\<close> runs under \<open>_db_try\<close>) returns and the \<open>get_history\<close> that
  follows it returns, the history is the empty list. The same holds when the reset is
  the \<open>/reset\<close> line of the local session, for its user.
\<close>

theorem reset_then_history_empty:
  "(backend_ok w \<and> fst (do_reset user_id w) = Inr () \<and>
    fst (get_history user_id (snd (do_reset user_id w))) = Inr h \<longrightarrow> h = []) \<and>
   (backend_ok w \<and> fst (local_lines cfg [ascii ''/reset''] w) = Inr () \<and>
    fst (get_history fake_user_id (snd (local_lines cfg [ascii ''/reset''] w))) = Inr h \<longrightarrow>
      h = [])"
proof (intro conjI impI)
  assume h: "backend_ok w \<and> fst (do_reset user_id w) = Inr () \<and>
    fst (get_history user_id (snd (do_reset user_id w))) = Inr h"
  then obtain d where d: "current_db w = Some d"
    and w1: "snd (do_reset user_id w) = committed w (snd (sql_do_reset user_id d))"
    using do_reset_success [of w user_id "()"] by blast
  have "backend_ok (committed w (snd (sql_do_reset user_id d)))"
    using h by (simp add: backend_ok_committed)
  from get_history_success [OF this, of user_id h] h w1
  have "h = fst (sql_hist user_id (snd (sql_do_reset user_id d)))" by auto
  then show "h = []" by (simp add: sql_hist_after_reset)
next
  assume h: "backend_ok w \<and> fst (local_lines cfg [ascii ''/reset''] w) = Inr () \<and>
    fst (get_history fake_user_id (snd (local_lines cfg [ascii ''/reset''] w))) = Inr h"
  have st: "strip (ascii ''/reset'') = ascii ''/reset''"
    by (simp add: strip_def ascii_def isspace_def)
  have ll: "local_lines cfg [ascii ''/reset''] w =
      (case do_reset fake_user_id w of
         (Inl e, w1) \<Rightarrow> (Inl e, w1)
       | (Inr _, w1) \<Rightarrow> (Inr (), w1\<lparr>stdout := stdout w1 @ [LOCAL_RESET_ACK]\<rparr>))"
    by (simp add: st) (simp add: ascii_def split: prod.splits sum.splits)
  obtain r w1 where rw: "do_reset fake_user_id w = (r, w1)" by (cases "do_reset fake_user_id w")
  from h ll rw have r: "r = Inr ()" by (cases r) auto
  from do_reset_success [of w fake_user_id "()"] h rw r
  obtain d where d: "current_db w = Some d"
    and w1: "w1 = committed w (snd (sql_do_reset fake_user_id d))" by auto
  let ?w2 = "w1\<lparr>stdout := stdout w1 @ [LOCAL_RESET_ACK]\<rparr>"
  have w2: "snd (local_lines cfg [ascii ''/reset''] w) = ?w2" using ll rw r by simp
  have bok: "backend_ok ?w2"
    using h w1 backend_ok_committed [of w "snd (sql_do_reset fake_user_id d)"]
    by (simp add: backend_ok_def)
  have cur: "current_db ?w2 = Some (snd (sql_do_reset fake_user_id d))"
    using current_db_committed [of w "snd (sql_do_reset fake_user_id d)"] w1
    by (simp add: current_db_def db_key_def)
  from get_history_success [OF bok, of fake_user_id h] h w2 cur
  have "h = fst (sql_hist fake_user_id (snd (sql_do_reset fake_user_id d)))" by auto
  then show "h = []" by (simp add: sql_hist_after_reset)
qed

text \<open>The witness clears the three turns of user 42 and reads the history back.\<close>

theorem reset_then_history_empty_witness:
  "backend_ok seeded_world \<and>
   fst (get_history 42 seeded_world) =
     Inr [(User, ascii ''hello''), (Assistant, ascii ''ok''), (User, ascii ''again'')] \<and>
   fst (do_reset 42 seeded_world) = Inr () \<and>
   fst (get_history 42 (snd (do_reset 42 seeded_world))) = Inr []"
proof -
  have ok: "backend_ok seeded_world" by (simp add: storage_defs)
  have h0: "fst (get_history 42 seeded_world) =
     Inr [(User, ascii ''hello''), (Assistant, ascii ''ok''), (User, ascii ''again'')]"
    by (simp add: storage_defs)
  have r: "fst (do_reset 42 seeded_world) = Inr ()" by (simp add: storage_defs)
  obtain h where h: "fst (get_history 42 (snd (do_reset 42 seeded_world))) = Inr h"
    by (simp add: storage_defs)
  from reset_then_history_empty [of seeded_world 42 h] ok r h have "h = []" by blast
  with ok h0 r h show ?thesis by simp
qed

section \<open>C9: the prompt that \<open>generate_reply\<close> builds\<close>

text \<open>
  Claim C9. \<open>generate_reply\<close> never writes to a database: every store is the same after
  the call, whether it returns or raises. When it returns and a completion client is
  there, the one request it sent holds, in this order: the persona instruction as a
  \<open>system\<close> message; then, only for a non-empty username, the \<open>system\<close> note with the
  username; then every stored turn of the user in the order of \<open>get_history\<close>; then the
  new text as the last message, of role \<open>user\<close>. Without a client no request is sent.
\<close>

theorem generate_reply_prompt_and_no_writes:
  "stores (snd (generate_reply cfg user_id user_text username w)) = stores w \<and>
   (backend_ok w \<and> has_client cfg \<and>
    fst (generate_reply cfg user_id user_text username w) = Inr reply \<longrightarrow>
      (\<exists>d. current_db w = Some d \<and>
         requests (snd (generate_reply cfg user_id user_text username w)) =
           requests w @
           [\<lparr>msg_role = System, msg_content = SYSTEM_PROMPT\<rparr> #
            (if username = None \<or> username = Some [] then []
             else [\<lparr>msg_role = System,
                    msg_content =
                      ascii ''User telegram username is @'' @ the username @ ascii ''.''\<rparr>]) @
            map (\<lambda>turn. \<lparr>msg_role = fst turn, msg_content = snd turn\<rparr>)
              (fst (sql_hist user_id d)) @
            [\<lparr>msg_role = User, msg_content = user_text\<rparr>]])) \<and>
   (\<not> has_client cfg \<longrightarrow>
      requests (snd (generate_reply cfg user_id user_text username w)) = requests w)"
proof -
  let ?g = "generate_reply cfg user_id user_text username w"
  obtain r w1 where rw: "get_history user_id w = (r, w1)" by (cases "get_history user_id w")
  have st1: "stores w1 = stores w" using get_history_stores [of user_id w] rw by simp
  have so1: "storage_only w w1" using get_history_storage_only [of w user_id] rw by simp
  then have rq1: "requests w1 = requests w" by (simp add: storage_only_def)
  show ?thesis
  proof (cases r)
    case (Inl e)
    then have "?g = (Inl e, w1)" using rw by (simp add: generate_reply_unfold)
    then show ?thesis using st1 rq1 by simp
  next
    case (Inr h)
    let ?o = "openai_reply cfg (prompt_for username h user_text) w1"
    have g: "?g = (Inr (fst ?o), snd ?o)" using rw Inr by (simp add: generate_reply_unfold)
    have a: "stores (snd ?g) = stores w" unfolding g using openai_reply_stores st1 by simp
    have rq: "requests (snd ?g) =
        (if has_client cfg then requests w @ [prompt_for username h user_text] else requests w)"
      unfolding g using openai_reply_requests [of cfg "prompt_for username h user_text" w1] rq1
      by simp
    have b: "\<exists>d. current_db w = Some d \<and>
         requests (snd ?g) = requests w @ [prompt_for username (fst (sql_hist user_id d)) user_text]"
      if "backend_ok w" "has_client cfg"
    proof -
      from get_history_success [OF that(1), of user_id h] rw Inr
      obtain d where "current_db w = Some d" "h = fst (sql_hist user_id d)" by auto
      with rq that(2) show ?thesis by simp
    qed
    from a b rq show ?thesis by (auto simp: prompt_for_def)
  qed
qed

text \<open>
  The witness: a request for user 42, whose three stored turns come between the two
  \<open>system\<close> messages and the new text.
\<close>

theorem generate_reply_prompt_and_no_writes_witness:
  "backend_ok seeded_world \<and> has_client client_config \<and>
   fst (generate_reply client_config 42 (ascii ''hey'') (Some (ascii ''tester'')) seeded_world) =
     Inr OPENAI_APOLOGY \<and>
   requests (snd (generate_reply client_config 42 (ascii ''hey'') (Some (ascii ''tester''))
                    seeded_world)) =
     [[\<lparr>msg_role = System, msg_content = SYSTEM_PROMPT\<rparr>,
       \<lparr>msg_role = System, msg_content = ascii ''User telegram username is @tester.''\<rparr>,
       \<lparr>msg_role = User, msg_content = ascii ''hello''\<rparr>,
       \<lparr>msg_role = Assistant, msg_content = ascii ''ok''\<rparr>,
       \<lparr>msg_role = User, msg_content = ascii ''again''\<rparr>,
       \<lparr>msg_role = User, msg_content = ascii ''hey''\<rparr>]] \<and>
   stores (snd (generate_reply client_config 42 (ascii ''hey'') (Some (ascii ''tester''))
                  seeded_world)) = stores seeded_world"
proof -
  let ?g = "generate_reply client_config 42 (ascii ''hey'') (Some (ascii ''tester'')) seeded_world"
  have ok: "backend_ok seeded_world" by (simp add: storage_defs)
  have cl: "has_client client_config" by (simp add: has_client_def client_config_def ascii_def)
  have r: "fst ?g = Inr OPENAI_APOLOGY" by (simp add: chat_defs storage_defs)
  have cur: "current_db seeded_world = Some seeded_db"
    by (simp add: current_db_def db_key_def seeded_world_def fresh_world_def)
  have h: "fst (sql_hist 42 seeded_db) =
             [(User, ascii ''hello''), (Assistant, ascii ''ok''), (User, ascii ''again'')]"
    by (simp add: sql_hist_def seeded_db_def)
  have rq0: "requests seeded_world = []" by (simp add: seeded_world_def fresh_world_def)
  note inst = generate_reply_prompt_and_no_writes
    [of client_config 42 "ascii ''hey''" "Some (ascii ''tester'')" seeded_world OPENAI_APOLOGY]
  from inst have st: "stores (snd ?g) = stores seeded_world" by (rule conjunct1)
  from inst ok cl r cur h rq0
  have rq: "requests (snd ?g) =
     [[\<lparr>msg_role = System, msg_content = SYSTEM_PROMPT\<rparr>,
       \<lparr>msg_role = System, msg_content = ascii ''User telegram username is @tester.''\<rparr>,
       \<lparr>msg_role = User, msg_content = ascii ''hello''\<rparr>,
       \<lparr>msg_role = Assistant, msg_content = ascii ''ok''\<rparr>,
       \<lparr>msg_role = User, msg_content = ascii ''again''\<rparr>,
       \<lparr>msg_role = User, msg_content = ascii ''hey''\<rparr>]]"
    by (auto simp: ascii_def)
  from ok cl r rq st show ?thesis by blast
qed

section \<open>C5: the replies without a working completion provider\<close>

text \<open>
  Claim C5, as the spec states it, says that the reply echoes the user's text whenever
  the provider fails or is unavailable. The counterexample: with a client whose request
  raises, the reply to \<open>hello\<close> is the fixed apology of line 266, which does not contain
  \<open>hello\<close>.
\<close>

theorem generate_reply_apology_does_not_echo:
  "has_client client_config \<and>
   provider ready_world 0 (prompt_for None [] (ascii ''hello'')) = ProviderRaises \<and>
   fst (generate_reply client_config 7 (ascii ''hello'') None ready_world) = Inr OPENAI_APOLOGY \<and>
   \<not> sublist (ascii ''hello'') OPENAI_APOLOGY"
proof -
  have 1: "has_client client_config" by (simp add: has_client_def client_config_def ascii_def)
  have 2: "provider ready_world 0 (prompt_for None [] (ascii ''hello'')) = ProviderRaises"
    by (simp add: ready_world_def fresh_world_def)
  have 3: "fst (generate_reply client_config 7 (ascii ''hello'') None ready_world) =
             Inr OPENAI_APOLOGY"
    by (simp add: chat_defs storage_defs)
  have 4: "\<not> sublist (ascii ''hello'') OPENAI_APOLOGY"
    unfolding ascii_def OPENAI_APOLOGY_def by (simp add: sublist_Cons_right prefix_Cons)
  from 1 2 3 4 show ?thesis by blast
qed

text \<open>
  Claim C5, amended. Let the read of the history return. Without a completion client,
  \<open>generate_reply\<close> returns the fixed prefix of line 269 followed by the user's text: a
  non-empty string that contains the text and depends on nothing else. With a client
  whose request raises, it returns the fixed apology of line 266, non-empty and the same
  for every text. Both are ordinary return values; \<open>generate_reply\<close> raises exactly when
  the read of the history raises.
\<close>

theorem generate_reply_fallbacks:
  "(\<not> has_client cfg \<and> fst (get_history user_id w) = Inr h \<longrightarrow>
      fst (generate_reply cfg user_id user_text username w) = Inr (STUB_PREFIX @ user_text) \<and>
      STUB_PREFIX @ user_text \<noteq> [] \<and> sublist user_text (STUB_PREFIX @ user_text)) \<and>
   (has_client cfg \<and> fst (get_history user_id w) = Inr h \<and>
    provider w (length (requests w)) (prompt_for username h user_text) = ProviderRaises \<longrightarrow>
      fst (generate_reply cfg user_id user_text username w) = Inr OPENAI_APOLOGY \<and>
      OPENAI_APOLOGY \<noteq> []) \<and>
   ((fst (generate_reply cfg user_id user_text username w) = Inl e) =
    (fst (get_history user_id w) = Inl e))"
proof -
  obtain r w1 where rw: "get_history user_id w = (r, w1)" by (cases "get_history user_id w")
  have so: "storage_only w w1" using get_history_storage_only [of w user_id] rw by simp
  have a: "fst (generate_reply cfg user_id user_text username w) = Inr (STUB_PREFIX @ user_text)"
    if "\<not> has_client cfg" "fst (get_history user_id w) = Inr h"
    using that rw by (simp add: generate_reply_unfold openai_reply_stub)
  have ne: "STUB_PREFIX @ user_text \<noteq> []" by (simp add: STUB_PREFIX_def)
  have sub: "sublist user_text (STUB_PREFIX @ user_text)"
    by (metis append_Nil2 sublist_appendI)
  have b: "fst (generate_reply cfg user_id user_text username w) = Inr OPENAI_APOLOGY"
    if "has_client cfg" "fst (get_history user_id w) = Inr h"
       "provider w (length (requests w)) (prompt_for username h user_text) = ProviderRaises"
  proof -
    have "provider w1 (length (requests w1)) (prompt_for username h user_text) = ProviderRaises"
      using so that(3) by (simp add: storage_only_def)
    from openai_reply_raises [OF that(1) this] that(2) rw show ?thesis
      by (simp add: generate_reply_unfold)
  qed
  have ne2: "OPENAI_APOLOGY \<noteq> []" by (simp add: OPENAI_APOLOGY_def)
  have c: "(fst (generate_reply cfg user_id user_text username w) = Inl e) =
           (fst (get_history user_id w) = Inl e)"
    using rw by (cases r) (simp_all add: generate_reply_unfold)
  from a ne sub b ne2 c show ?thesis by blast
qed

text \<open>
  The witness: without a client the reply to \<open>hello\<close> is the prefix and \<open>hello\<close>; with the
  failing client it is the apology.
\<close>

theorem generate_reply_fallbacks_witness:
  "\<not> has_client stub_config \<and> fst (get_history 7 ready_world) = Inr [] \<and>
   fst (generate_reply stub_config 7 (ascii ''hello'') None ready_world) =
     Inr (STUB_PREFIX @ ascii ''hello'') \<and>
   sublist (ascii ''hello'') (STUB_PREFIX @ ascii ''hello'') \<and>
   has_client client_config \<and>
   provider ready_world (length (requests ready_world)) (prompt_for None [] (ascii ''hello'')) =
     ProviderRaises \<and>
   fst (generate_reply client_config 7 (ascii ''hello'') None ready_world) = Inr OPENAI_APOLOGY"
proof -
  have 1: "\<not> has_client stub_config" by (simp add: has_client_def stub_config_def)
  have 2: "fst (get_history 7 ready_world) = Inr []" by (simp add: storage_defs)
  have 3: "has_client client_config" by (simp add: has_client_def client_config_def ascii_def)
  have 4: "provider ready_world (length (requests ready_world))
             (prompt_for None [] (ascii ''hello'')) = ProviderRaises"
    by (simp add: ready_world_def fresh_world_def)
  note stub = generate_reply_fallbacks [of stub_config 7 ready_world "[]" "ascii ''hello''" None]
  note fails = generate_reply_fallbacks [of client_config 7 ready_world "[]" "ascii ''hello''" None]
  from stub 1 2 have a: "fst (generate_reply stub_config 7 (ascii ''hello'') None ready_world) =
     Inr (STUB_PREFIX @ ascii ''hello'') \<and> sublist (ascii ''hello'') (STUB_PREFIX @ ascii ''hello'')"
    by blast
  from fails 3 2 4
  have b: "fst (generate_reply client_config 7 (ascii ''hello'') None ready_world) = Inr OPENAI_APOLOGY"
    by blast
  from 1 2 3 4 a b show ?thesis by blast
qed

section \<open>C10: \<open>messages_today\<close> is a non-negative integer\<close>

text \<open>
  Claim C10. Over any run of storage calls, with the clock moving in between, every
  stored counter stays a non-negative integer once all are, and they are at the start
  of a process, where no table exists. \<open>inc_user_counter\<close>, when it returns, has added
  exactly 1 to the counter of the user, reading \<open>NULL\<close> as 0, and has changed nothing
  else; for a user without a row it changes nothing. \<open>get_user\<close> returns a non-negative
  integer, and it returns and stores 0 for a user that is new or was last seen on
  another day.
\<close>

theorem messages_today_never_negative:
  "(counters_ok w \<longrightarrow> counters_ok (run_calls cfg calls w)) \<and>
   ((\<forall>k. stores w k = None) \<longrightarrow> counters_ok (run_calls cfg calls w)) \<and>
   (backend_ok w \<and> fst (inc_user_counter user_id w) = Inr () \<longrightarrow>
      (\<exists>d d'. current_db w = Some d \<and>
         current_db (snd (inc_user_counter user_id w)) = Some d' \<and>
         convo d' = convo d \<and>
         (\<forall>other. other \<noteq> user_id \<longrightarrow> users d' other = users d other) \<and>
         (case users d user_id of
            None \<Rightarrow> users d' user_id = None
          | Some row \<Rightarrow>
              users d' user_id =
                Some (row\<lparr>u_messages_today :=
                  Some ((case u_messages_today row of None \<Rightarrow> 0 | Some n \<Rightarrow> n) + 1)\<rparr>)))) \<and>
   (backend_ok w \<and> counters_ok w \<and> fst (get_user user_id username w) = Inr (u, used, lr) \<longrightarrow>
      (\<exists>n. used = Some n \<and> 0 \<le> n)) \<and>
   (backend_ok w \<and> fst (get_user user_id username w) = Inr (u, used, lr) \<and>
    (\<forall>d row. current_db w = Some d \<and> users d user_id = Some row \<longrightarrow>
       u_last_reset row \<noteq> Some (today w)) \<longrightarrow>
      used = Some 0 \<and>
      (\<exists>d' row'. current_db (snd (get_user user_id username w)) = Some d' \<and>
         users d' user_id = Some row' \<and> u_messages_today row' = Some 0))"
proof (intro conjI impI)
  assume "counters_ok w"
  then show "counters_ok (run_calls cfg calls w)" by (rule run_calls_counters)
next
  assume "\<forall>k. stores w k = None"
  then have "counters_ok w" by (simp add: counters_ok_def)
  then show "counters_ok (run_calls cfg calls w)" by (rule run_calls_counters)
next
  assume h: "backend_ok w \<and> fst (inc_user_counter user_id w) = Inr ()"
  then obtain d where d: "current_db w = Some d"
    and w': "snd (inc_user_counter user_id w) = committed w (snd (sql_inc user_id d))"
    using inc_user_counter_success [of w user_id "()"] by blast
  let ?d' = "snd (sql_inc user_id d)"
  have cur: "current_db (snd (inc_user_counter user_id w)) = Some ?d'" unfolding w' by simp
  have body: "convo ?d' = convo d \<and>
         (\<forall>other. other \<noteq> user_id \<longrightarrow> users ?d' other = users d other) \<and>
         (case users d user_id of
            None \<Rightarrow> users ?d' user_id = None
          | Some row \<Rightarrow>
              users ?d' user_id =
                Some (row\<lparr>u_messages_today :=
                  Some ((case u_messages_today row of None \<Rightarrow> 0 | Some n \<Rightarrow> n) + 1)\<rparr>))"
    by (simp add: sql_inc_def split: option.splits)
  from d cur body
  show "\<exists>d d'. current_db w = Some d \<and>
         current_db (snd (inc_user_counter user_id w)) = Some d' \<and>
         convo d' = convo d \<and>
         (\<forall>other. other \<noteq> user_id \<longrightarrow> users d' other = users d other) \<and>
         (case users d user_id of
            None \<Rightarrow> users d' user_id = None
          | Some row \<Rightarrow>
              users d' user_id =
                Some (row\<lparr>u_messages_today :=
                  Some ((case u_messages_today row of None \<Rightarrow> 0 | Some n \<Rightarrow> n) + 1)\<rparr>))"
    by blast
next
  assume h: "backend_ok w \<and> counters_ok w \<and> fst (get_user user_id username w) = Inr (u, used, lr)"
  then obtain d where d: "current_db w = Some d"
    and r: "(u, used, lr) = fst (sql_get (today w) user_id username d)"
    using get_user_success [of w user_id username "(u, used, lr)"] by blast
  from h d have "db_counters_ok d" by (auto simp: current_db_def dest: counters_okD)
  then have "db_counters_ok (snd (sql_get (today w) user_id username d))"
    by (rule sql_get_counters)
  moreover from sql_get_result_counter [OF r [symmetric]]
  obtain row where "users (snd (sql_get (today w) user_id username d)) user_id = Some row"
    "u_messages_today row = used" by blast
  ultimately show "\<exists>n. used = Some n \<and> 0 \<le> n" unfolding db_counters_ok_def by blast
next
  assume h: "backend_ok w \<and> fst (get_user user_id username w) = Inr (u, used, lr) \<and>
    (\<forall>d row. current_db w = Some d \<and> users d user_id = Some row \<longrightarrow>
       u_last_reset row \<noteq> Some (today w))"
  then obtain d where d: "current_db w = Some d"
    and r: "(u, used, lr) = fst (sql_get (today w) user_id username d)"
    and w': "snd (get_user user_id username w) =
               committed w (snd (sql_get (today w) user_id username d))"
    using get_user_success [of w user_id username "(u, used, lr)"] by blast
  from h d have stale: "\<And>row. users d user_id = Some row \<Longrightarrow> u_last_reset row \<noteq> Some (today w)"
    by blast
  have u0: "used = Some 0"
    using r stale by (auto simp: sql_get_def split: option.splits if_splits)
  from sql_get_result_counter [OF r [symmetric]]
  obtain row where row: "users (snd (sql_get (today w) user_id username d)) user_id = Some row"
    "u_messages_today row = used" by blast
  have "current_db (snd (get_user user_id username w)) =
          Some (snd (sql_get (today w) user_id username d))" unfolding w' by simp
  with row u0
  show "\<exists>d' row'. current_db (snd (get_user user_id username w)) = Some d' \<and>
         users d' user_id = Some row' \<and> u_messages_today row' = Some 0" by auto
  show "used = Some 0" by (rule u0)
qed

text \<open>
  The witness: a process that creates the tables, sees user 7, counts two messages,
  and after midnight sees the user again and counts one; and the counter of user 42
  going from 5 to 6.
\<close>

theorem messages_today_never_negative_witness:
  "(\<forall>k. stores fresh_world k = None) \<and>
   counters_ok (run_calls stub_config
      [Call_init_db, Call_get_user 7 None, Call_inc_user_counter 7, Call_inc_user_counter 7,
       Clock (Date 2026 11 5), Call_get_user 7 None, Call_inc_user_counter 7] fresh_world) \<and>
   map_option (\<lambda>d. map_option u_messages_today (users d 7))
     (current_db (run_calls stub_config
        [Call_init_db, Call_get_user 7 None, Call_inc_user_counter 7, Call_inc_user_counter 7]
        fresh_world)) = Some (Some (Some 2)) \<and>
   map_option (\<lambda>d. map_option u_messages_today (users d 7))
     (current_db (run_calls stub_config
        [Call_init_db, Call_get_user 7 None, Call_inc_user_counter 7, Call_inc_user_counter 7,
         Clock (Date 2026 11 5), Call_get_user 7 None, Call_inc_user_counter 7] fresh_world)) =
     Some (Some (Some 1)) \<and>
   backend_ok seeded_world \<and> fst (inc_user_counter 42 seeded_world) = Inr () \<and>
   (\<exists>d'. current_db (snd (inc_user_counter 42 seeded_world)) = Some d' \<and>
      map_option u_messages_today (users d' 42) = Some (Some 6) \<and> users d' 43 = users seeded_db 43)"
proof -
  let ?calls = "[Call_init_db, Call_get_user 7 None, Call_inc_user_counter 7,
       Call_inc_user_counter 7, Clock (Date 2026 11 5), Call_get_user 7 None,
       Call_inc_user_counter 7]"
  have 1: "\<forall>k. stores fresh_world k = None" by (simp add: fresh_world_def)
  note inst = messages_today_never_negative [of fresh_world stub_config ?calls]
  from inst 1 have 2: "counters_ok (run_calls stub_config ?calls fresh_world)" by blast
  have 3: "map_option (\<lambda>d. map_option u_messages_today (users d 7))
     (current_db (run_calls stub_config
        [Call_init_db, Call_get_user 7 None, Call_inc_user_counter 7, Call_inc_user_counter 7]
        fresh_world)) = Some (Some (Some 2))"
    by (simp add: storage_defs)
  have 4: "map_option (\<lambda>d. map_option u_messages_today (users d 7))
     (current_db (run_calls stub_config ?calls fresh_world)) = Some (Some (Some 1))"
    by (simp add: storage_defs)
  have 5: "backend_ok seeded_world" by (simp add: storage_defs)
  have 6: "fst (inc_user_counter 42 seeded_world) = Inr ()" by (simp add: storage_defs)
  have cur: "current_db seeded_world = Some seeded_db"
    by (simp add: current_db_def db_key_def seeded_world_def fresh_world_def)
  have u42: "users seeded_db 42 =
      Some \<lparr>u_username = Some (ascii ''tester''), u_messages_today = Some 5,
            u_last_reset = Some (Date 2026 11 3)\<rparr>"
    by (simp add: seeded_db_def)
  note inst2 = messages_today_never_negative
    [of seeded_world stub_config "[]" 42 None 42 None None,
     THEN conjunct2, THEN conjunct2, THEN conjunct1, rule_format]
  from inst2 5 6 cur u42
  have 7: "\<exists>d'. current_db (snd (inc_user_counter 42 seeded_world)) = Some d' \<and>
      map_option u_messages_today (users d' 42) = Some (Some 6) \<and> users d' 43 = users seeded_db 43"
    by auto
  from 1 2 3 4 5 6 7 show ?thesis by blast
qed

section \<open>C2: the paywall\<close>

text \<open>
  Claim C2. When \<open>get_user\<close> returns a \<open>messages_today\<close> of at least
  \<open>FREE_MESSAGES_PER_DAY\<close>, the handler of either transport emits the fixed paywall
  notice (the local session prints it; \<open>_tg_text\<close> sends it when the transport delivers)
  and returns; no store changes after \<open>get_user\<close>, so no turn is appended and the counter
  is still the one \<open>get_user\<close> returned, and no completion is requested. Consequently,
  after a run of at least \<open>FREE_MESSAGES_PER_DAY\<close> message and reply cycles of one user
  on one day, a \<open>get_user\<close> that returns for that user returns a counter of at least
  \<open>FREE_MESSAGES_PER_DAY\<close>, so the next message is blocked this way.
\<close>

theorem paywall_blocks_without_writes:
  "(fst (get_user fake_user_id (Some fake_username) w) = Inr (u, Some n, lr) \<and>
    FREE_MESSAGES_PER_DAY cfg \<le> n \<longrightarrow>
      fst (local_message cfg user_text w) = Inr () \<and>
      stdout (snd (local_message cfg user_text w)) = stdout w @ [ascii ''lana> '' @ PAYWALL_TEXT] \<and>
      stores (snd (local_message cfg user_text w)) =
        stores (snd (get_user fake_user_id (Some fake_username) w)) \<and>
      requests (snd (local_message cfg user_text w)) = requests w \<and>
      (backend_ok w \<longrightarrow>
         used_now (snd (local_message cfg user_text w)) fake_user_id = Some n \<and>
         map_option convo (current_db (snd (local_message cfg user_text w))) =
           map_option convo (current_db w))) \<and>
   (fst (get_user (effective_user_id upd) (effective_username upd) w) = Inr (u, Some n, lr) \<and>
    FREE_MESSAGES_PER_DAY cfg \<le> n \<longrightarrow>
      fst (tg_text cfg upd w) = Inr () \<and>
      (\<not> tg_fault w (tg_calls w) \<longrightarrow>
         chat (snd (tg_text cfg upd w)) = chat w @ [(PAYWALL_TEXT, False)]) \<and>
      stores (snd (tg_text cfg upd w)) =
        stores (snd (get_user (effective_user_id upd) (effective_username upd) w)) \<and>
      requests (snd (tg_text cfg upd w)) = requests w \<and>
      (backend_ok w \<longrightarrow>
         used_now (snd (tg_text cfg upd w)) (effective_user_id upd) = Some n \<and>
         map_option convo (current_db (snd (tg_text cfg upd w))) =
           map_option convo (current_db w))) \<and>
   (world_ok w \<and> counters_ok w \<and> local_cycles cfg texts w = Some w' \<and>
    FREE_MESSAGES_PER_DAY cfg \<le> int (length texts) \<and>
    fst (get_user fake_user_id (Some fake_username) w') = Inr (u, used, lr) \<longrightarrow>
      (\<exists>m. used = Some m \<and> FREE_MESSAGES_PER_DAY cfg \<le> m)) \<and>
   (world_ok w \<and> counters_ok w \<and> tg_cycles cfg upds w = Some w' \<and>
    (\<forall>x\<in>set upds. effective_user_id x = uid) \<and>
    FREE_MESSAGES_PER_DAY cfg \<le> int (length upds) \<and>
    fst (get_user uid name w') = Inr (u, used, lr) \<longrightarrow>
      (\<exists>m. used = Some m \<and> FREE_MESSAGES_PER_DAY cfg \<le> m))"
proof -
  have frame: "map_option convo (current_db (snd (get_user i nm w))) = map_option convo (current_db w) \<and>
               used_now (snd (get_user i nm w)) i = Some n"
    if "backend_ok w" "fst (get_user i nm w) = Inr (u, Some n, lr)" for i nm
  proof -
    from get_user_success [OF that]
    obtain d where d: "current_db w = Some d"
      and w1: "snd (get_user i nm w) = committed w (snd (sql_get (today w) i nm d))" by blast
    from get_user_used_now [OF that] d w1 show ?thesis by (simp add: sql_get_convo)
  qed
  have local: "fst (local_message cfg user_text w) = Inr () \<and>
      stdout (snd (local_message cfg user_text w)) = stdout w @ [ascii ''lana> '' @ PAYWALL_TEXT] \<and>
      stores (snd (local_message cfg user_text w)) =
        stores (snd (get_user fake_user_id (Some fake_username) w)) \<and>
      requests (snd (local_message cfg user_text w)) = requests w \<and>
      (backend_ok w \<longrightarrow>
         used_now (snd (local_message cfg user_text w)) fake_user_id = Some n \<and>
         map_option convo (current_db (snd (local_message cfg user_text w))) =
           map_option convo (current_db w))"
    if h: "fst (get_user fake_user_id (Some fake_username) w) = Inr (u, Some n, lr) \<and>
           FREE_MESSAGES_PER_DAY cfg \<le> n"
  proof -
    let ?w1 = "snd (get_user fake_user_id (Some fake_username) w)"
    have lm: "local_message cfg user_text w = print_lana PAYWALL_TEXT ?w1"
      by (rule local_message_blocked [OF conjunct1 [OF h] conjunct2 [OF h]])
    have so: "storage_only w ?w1" by (rule get_user_storage_only)
    let ?w' = "snd (print_lana PAYWALL_TEXT ?w1)"
    have same: "current_db ?w' = current_db ?w1" "used_now ?w' fake_user_id = used_now ?w1 fake_user_id"
      by (rule same_storage, simp_all add: print_lana_facts)
         (rule used_now_cong, simp_all add: print_lana_facts)
    show ?thesis
      unfolding lm using so same frame [of fake_user_id "Some fake_username"] h
      by (simp add: print_lana_facts storage_only_def)
  qed
  have tg: "fst (tg_text cfg upd w) = Inr () \<and>
      (\<not> tg_fault w (tg_calls w) \<longrightarrow>
         chat (snd (tg_text cfg upd w)) = chat w @ [(PAYWALL_TEXT, False)]) \<and>
      stores (snd (tg_text cfg upd w)) =
        stores (snd (get_user (effective_user_id upd) (effective_username upd) w)) \<and>
      requests (snd (tg_text cfg upd w)) = requests w \<and>
      (backend_ok w \<longrightarrow>
         used_now (snd (tg_text cfg upd w)) (effective_user_id upd) = Some n \<and>
         map_option convo (current_db (snd (tg_text cfg upd w))) =
           map_option convo (current_db w))"
    if h: "fst (get_user (effective_user_id upd) (effective_username upd) w) = Inr (u, Some n, lr) \<and>
           FREE_MESSAGES_PER_DAY cfg \<le> n"
  proof -
    let ?w1 = "snd (get_user (effective_user_id upd) (effective_username upd) w)"
    have tb: "tg_text_body cfg upd w = reply_text PAYWALL_TEXT False ?w1"
      by (rule tg_text_body_blocked [OF conjunct1 [OF h] conjunct2 [OF h]])
    have so: "storage_only w ?w1" by (rule get_user_storage_only)
    then have env: "tg_fault ?w1 = tg_fault w" "tg_calls ?w1 = tg_calls w" "chat ?w1 = chat w"
      "requests ?w1 = requests w" by (simp_all add: storage_only_def)
    let ?w' = "snd (tg_text cfg upd w)"
    have w': "stores ?w' = stores ?w1 \<and> DB_URI ?w' = DB_URI ?w1 \<and> DB_DSN ?w' = DB_DSN ?w1 \<and>
              today ?w' = today ?w1 \<and> requests ?w' = requests ?w1 \<and>
              (\<not> tg_fault w (tg_calls w) \<longrightarrow> chat ?w' = chat w @ [(PAYWALL_TEXT, False)])"
      using env
      by (simp add: tg_text_def tb io_catch_def reply_text_def io_return_def Let_def)
    then have same: "current_db ?w' = current_db ?w1"
      "used_now ?w' (effective_user_id upd) = used_now ?w1 (effective_user_id upd)"
      by (intro same_storage, simp_all) (intro used_now_cong, simp_all)
    show ?thesis
      using w' env same frame [of "effective_user_id upd" "effective_username upd"] h
      by (simp add: tg_text_returns)
  qed
  have after: "\<exists>m. used = Some m \<and> FREE_MESSAGES_PER_DAY cfg \<le> m"
    if ok: "world_ok w" and cnt: "counters_ok w"
      and run: "k = 0 \<and> w' = w \<or>
                0 < k \<and> (\<exists>a b c nm. fst (get_user i nm w) = Inr (a, Some b, c)) \<and>
                (\<forall>m. used_now w i = Some m \<longrightarrow> used_now w' i = Some (m + k) \<and> world_ok w')"
      and len: "FREE_MESSAGES_PER_DAY cfg \<le> k"
      and gu: "fst (get_user i nm' w') = Inr (u, used, lr)" for i k nm'
  proof -
    from run show ?thesis
    proof
      assume z: "k = 0 \<and> w' = w"
      from get_user_nonneg [OF world_ok_backend [OF ok] cnt] gu z
      obtain m where "used = Some m" "0 \<le> m" by blast
      with len z show ?thesis by auto
    next
      assume s: "0 < k \<and> (\<exists>a b c nm. fst (get_user i nm w) = Inr (a, Some b, c)) \<and>
                (\<forall>m. used_now w i = Some m \<longrightarrow> used_now w' i = Some (m + k) \<and> world_ok w')"
      then obtain a b c nm where g0: "fst (get_user i nm w) = Inr (a, Some b, c)" by blast
      from get_user_nonneg [OF world_ok_backend [OF ok] cnt g0] have b0: "0 \<le> b" by simp
      from get_user_used_now [OF world_ok_backend [OF ok] g0]
      have "used_now w i = Some b" by simp
      with s have u': "used_now w' i = Some (b + k)" and ok': "world_ok w'" by simp_all
      from get_user_used_now [OF world_ok_backend [OF ok'] gu] u'
      have "used = Some (b + k)" by simp
      with b0 len show ?thesis by simp
    qed
  qed
  have loc_cycles: "\<exists>m. used = Some m \<and> FREE_MESSAGES_PER_DAY cfg \<le> m"
    if h: "world_ok w \<and> counters_ok w \<and> local_cycles cfg texts w = Some w' \<and>
           FREE_MESSAGES_PER_DAY cfg \<le> int (length texts) \<and>
           fst (get_user fake_user_id (Some fake_username) w') = Inr (u, used, lr)"
  proof (rule after [of "int (length texts)" fake_user_id "Some fake_username"])
    show "world_ok w" "counters_ok w" "FREE_MESSAGES_PER_DAY cfg \<le> int (length texts)"
      "fst (get_user fake_user_id (Some fake_username) w') = Inr (u, used, lr)"
      using h by simp_all
    show "int (length texts) = 0 \<and> w' = w \<or>
          0 < int (length texts) \<and>
          (\<exists>a b c nm. fst (get_user fake_user_id nm w) = Inr (a, Some b, c)) \<and>
          (\<forall>m. used_now w fake_user_id = Some m \<longrightarrow>
               used_now w' fake_user_id = Some (m + int (length texts)) \<and> world_ok w')"
    proof (cases texts)
      case Nil
      with h show ?thesis by simp
    next
      case (Cons t rest)
      with h have "\<exists>a b c. fst (get_user fake_user_id (Some fake_username) w) = Inr (a, Some b, c)"
        by (auto split: sum.splits prod.splits option.splits if_splits)
      moreover have "used_now w' fake_user_id = Some (m + int (length texts)) \<and> world_ok w'"
        if "used_now w fake_user_id = Some m" for m
        using local_cycles_used [of w m cfg texts w'] h that by simp
      ultimately show ?thesis using Cons by auto
    qed
  qed
  have tg_cyc: "\<exists>m. used = Some m \<and> FREE_MESSAGES_PER_DAY cfg \<le> m"
    if h: "world_ok w \<and> counters_ok w \<and> tg_cycles cfg upds w = Some w' \<and>
           (\<forall>x\<in>set upds. effective_user_id x = uid) \<and>
           FREE_MESSAGES_PER_DAY cfg \<le> int (length upds) \<and>
           fst (get_user uid name w') = Inr (u, used, lr)"
  proof (rule after [of "int (length upds)" uid name])
    show "world_ok w" "counters_ok w" "FREE_MESSAGES_PER_DAY cfg \<le> int (length upds)"
      "fst (get_user uid name w') = Inr (u, used, lr)"
      using h by simp_all
    show "int (length upds) = 0 \<and> w' = w \<or>
          0 < int (length upds) \<and>
          (\<exists>a b c nm. fst (get_user uid nm w) = Inr (a, Some b, c)) \<and>
          (\<forall>m. used_now w uid = Some m \<longrightarrow>
               used_now w' uid = Some (m + int (length upds)) \<and> world_ok w')"
    proof (cases upds)
      case Nil
      with h show ?thesis by simp
    next
      case (Cons x rest)
      with h have "effective_user_id x = uid" by simp
      with Cons h
      have "\<exists>a b c. fst (get_user uid (effective_username x) w) = Inr (a, Some b, c)"
        by (auto split: sum.splits prod.splits option.splits if_splits)
      moreover have "used_now w' uid = Some (m + int (length upds)) \<and> world_ok w'"
        if "used_now w uid = Some m" for m
        using tg_cycles_used [of w uid m cfg upds w'] h that by simp
      ultimately show ?thesis using Cons by auto
    qed
  qed
  from local tg loc_cycles tg_cyc show ?thesis by blast
qed

text \<open>
  The witness, with a quota of 2: the local session handles two texts, after which the
  counter is 2 and a third text gets the paywall line and writes nothing; and the update
  of a Telegram user whose counter is 2 gets the paywall notice.
\<close>

theorem paywall_blocks_without_writes_witness:
  "world_ok ready_world \<and> counters_ok ready_world \<and>
   local_cycles stub_config [ascii ''hi'', ascii ''there''] ready_world \<noteq> None \<and>
   FREE_MESSAGES_PER_DAY stub_config \<le> int (length [ascii ''hi'', ascii ''there'']) \<and>
   fst (get_user fake_user_id (Some fake_username)
          (the (local_cycles stub_config [ascii ''hi'', ascii ''there''] ready_world))) =
     Inr (1, Some 2, Some (Date 2026 11 4)) \<and>
   fst (local_message stub_config (ascii ''more'')
          (the (local_cycles stub_config [ascii ''hi'', ascii ''there''] ready_world))) = Inr () \<and>
   stdout (snd (local_message stub_config (ascii ''more'')
          (the (local_cycles stub_config [ascii ''hi'', ascii ''there''] ready_world)))) =
     [ascii ''lana> '' @ STUB_PREFIX @ ascii ''hi'', ascii ''lana> '' @ STUB_PREFIX @ ascii ''there'',
      ascii ''lana> '' @ PAYWALL_TEXT] \<and>
   stores (snd (local_message stub_config (ascii ''more'')
          (the (local_cycles stub_config [ascii ''hi'', ascii ''there''] ready_world)))) =
     stores (snd (get_user fake_user_id (Some fake_username)
          (the (local_cycles stub_config [ascii ''hi'', ascii ''there''] ready_world)))) \<and>
   fst (get_user 43 None seeded_world) = Inr (43, Some 2, Some (Date 2026 11 4)) \<and>
   \<not> tg_fault seeded_world (tg_calls seeded_world) \<and>
   chat (snd (tg_text stub_config blocked_update seeded_world)) = [(PAYWALL_TEXT, False)] \<and>
   stores (snd (tg_text stub_config blocked_update seeded_world)) =
     stores (snd (get_user 43 None seeded_world)) \<and>
   effective_user_id new_update = 50 \<and>
   tg_cycles stub_config [new_update, new_update] ready_world \<noteq> None \<and>
   (\<exists>m. Some 2 = Some m \<and> FREE_MESSAGES_PER_DAY stub_config \<le> m) \<and>
   fst (get_user 50 None (the (tg_cycles stub_config [new_update, new_update] ready_world))) =
     Inr (50, Some 2, Some (Date 2026 11 4))"
proof -
  let ?texts = "[ascii ''hi'', ascii ''there'']"
  let ?w2 = "the (local_cycles stub_config ?texts ready_world)"
  have 1: "world_ok ready_world" by (simp add: storage_defs)
  have 2: "counters_ok ready_world"
    by (simp add: counters_ok_def db_counters_ok_def storage_defs)
  have 3: "local_cycles stub_config ?texts ready_world \<noteq> None"
    by (simp add: chat_defs storage_defs)
  then have cyc: "local_cycles stub_config ?texts ready_world = Some ?w2" by simp
  have 4: "FREE_MESSAGES_PER_DAY stub_config \<le> int (length ?texts)"
    by (simp add: stub_config_def)
  have 5: "fst (get_user fake_user_id (Some fake_username) ?w2) =
             Inr (1, Some 2, Some (Date 2026 11 4))"
    by (simp add: chat_defs storage_defs)
  from paywall_blocks_without_writes
    [where w = ready_world and cfg = stub_config and texts = ?texts and w' = ?w2
       and u = 1 and used = "Some 2" and lr = "Some (Date 2026 11 4)",
     THEN conjunct2, THEN conjunct2, THEN conjunct1] 1 2 cyc 4 5
  have 6: "FREE_MESSAGES_PER_DAY stub_config \<le> 2" by (simp add: fake_user_id_def)
  have 7: "stdout ?w2 =
     [ascii ''lana> '' @ STUB_PREFIX @ ascii ''hi'', ascii ''lana> '' @ STUB_PREFIX @ ascii ''there'']"
    by (simp add: chat_defs storage_defs)
  note loc = paywall_blocks_without_writes
    [of ?w2 1 2 "Some (Date 2026 11 4)" stub_config "ascii ''more''",
     THEN conjunct1, rule_format, OF conjI [OF 5 6]]
  have 8: "fst (get_user 43 None seeded_world) = Inr (43, Some 2, Some (Date 2026 11 4))"
    by (simp add: storage_defs)
  have g43: "fst (get_user (effective_user_id blocked_update) (effective_username blocked_update)
              seeded_world) = Inr (43, Some 2, Some (Date 2026 11 4))"
    using 8 by (simp add: blocked_update_def)
  have 9: "\<not> tg_fault seeded_world (tg_calls seeded_world)"
    by (simp add: seeded_world_def fresh_world_def)
  have 10: "chat seeded_world = []" by (simp add: seeded_world_def fresh_world_def)
  note tg = paywall_blocks_without_writes
    [of seeded_world 43 2 "Some (Date 2026 11 4)" stub_config _ blocked_update,
     THEN conjunct2, THEN conjunct1, rule_format, OF conjI [OF g43 6]]
  from tg 9 10 have 11: "chat (snd (tg_text stub_config blocked_update seeded_world)) =
      [(PAYWALL_TEXT, False)]" by simp
  from tg have 12: "stores (snd (tg_text stub_config blocked_update seeded_world)) =
      stores (snd (get_user 43 None seeded_world))" by (simp add: blocked_update_def)
  from loc 7 have 13: "fst (local_message stub_config (ascii ''more'') ?w2) = Inr () \<and>
     stdout (snd (local_message stub_config (ascii ''more'') ?w2)) =
       [ascii ''lana> '' @ STUB_PREFIX @ ascii ''hi'', ascii ''lana> '' @ STUB_PREFIX @ ascii ''there'',
        ascii ''lana> '' @ PAYWALL_TEXT] \<and>
     stores (snd (local_message stub_config (ascii ''more'') ?w2)) =
       stores (snd (get_user fake_user_id (Some fake_username) ?w2))" by simp
  let ?upds = "[new_update, new_update]"
  let ?w3 = "the (tg_cycles stub_config ?upds ready_world)"
  have 14: "tg_cycles stub_config ?upds ready_world \<noteq> None"
    by (simp add: chat_defs storage_defs new_update_def)
  then have tcyc: "tg_cycles stub_config ?upds ready_world = Some ?w3" by simp
  have 15: "\<forall>x\<in>set ?upds. effective_user_id x = 50" by (simp add: new_update_def)
  have 16: "FREE_MESSAGES_PER_DAY stub_config \<le> int (length ?upds)"
    by (simp add: stub_config_def)
  have 17: "fst (get_user 50 None ?w3) = Inr (50, Some 2, Some (Date 2026 11 4))"
    by (simp add: chat_defs storage_defs new_update_def)
  from paywall_blocks_without_writes
    [where w = ready_world and cfg = stub_config and upds = ?upds and w' = ?w3 and uid = 50
       and name = None and u = 50 and used = "Some 2" and lr = "Some (Date 2026 11 4)",
     THEN conjunct2, THEN conjunct2, THEN conjunct2] 1 2 tcyc 15 16 17
  have 18: "\<exists>m. Some 2 = Some m \<and> FREE_MESSAGES_PER_DAY stub_config \<le> m" by blast
  have 19: "effective_user_id new_update = 50" by (simp add: new_update_def)
  from 1 2 3 4 5 8 9 11 12 13 14 17 18 19 show ?thesis by blast
qed

section \<open>C8: what \<open>/reset\<close> changes\<close>

text \<open>
  Claim C8. The \<open>DELETE\<close> that \<open>/reset\<close> runs, when it returns, leaves no turn of the
  issuing user and changes nothing else: the table \<open>users\<close> is the same, so the counter and
  the date of the user are, the turns of every other user are the same, and so is every
  other database. The \<open>/reset\<close> line of the local session and \<open>_tg_reset\<close> do to the stores
  exactly what that \<open>DELETE\<close> does. A message of the user after the reset, when storage
  (and for Telegram the transport) does not fail and the counter \<open>m\<close> of before the reset
  is below the quota, is answered, and the counter is \<open>m + 1\<close> afterwards.
\<close>

theorem reset_clears_only_history:
  "(backend_ok w \<and> fst (do_reset uid w) = Inr () \<longrightarrow>
      (\<exists>d d'. current_db w = Some d \<and> current_db (snd (do_reset uid w)) = Some d' \<and>
         users d' = users d \<and>
         filter (\<lambda>r. c_user_id r = uid) (convo d') = [] \<and>
         filter (\<lambda>r. c_user_id r \<noteq> uid) (convo d') =
           filter (\<lambda>r. c_user_id r \<noteq> uid) (convo d) \<and>
         (\<forall>k. k \<noteq> db_key w \<longrightarrow> stores (snd (do_reset uid w)) k = stores w k))) \<and>
   stores (snd (local_lines cfg [ascii ''/reset''] w)) = stores (snd (do_reset fake_user_id w)) \<and>
   stores (snd (tg_reset upd w)) = stores (snd (do_reset (effective_user_id upd) w)) \<and>
   (world_ok w \<and> (\<forall>n. db_fault w n = None) \<and> used_now w fake_user_id = Some m \<and>
    m < FREE_MESSAGES_PER_DAY cfg \<longrightarrow>
      fst (local_lines cfg [ascii ''/reset''] w) = Inr () \<and>
      fst (local_message cfg user_text (snd (local_lines cfg [ascii ''/reset''] w))) = Inr () \<and>
      used_now (snd (local_message cfg user_text (snd (local_lines cfg [ascii ''/reset''] w))))
        fake_user_id = Some (m + 1)) \<and>
   (world_ok w \<and> (\<forall>n. db_fault w n = None) \<and> (\<forall>n. \<not> tg_fault w n) \<and>
    used_now w (effective_user_id upd) = Some m \<and> m < FREE_MESSAGES_PER_DAY cfg \<and>
    effective_user_id upd' = effective_user_id upd \<longrightarrow>
      fst (tg_text_body cfg upd' (snd (tg_reset upd w))) = Inr () \<and>
      used_now (snd (tg_text cfg upd' (snd (tg_reset upd w)))) (effective_user_id upd) =
        Some (m + 1))"
proof -
  have a: "\<exists>d d'. current_db w = Some d \<and> current_db (snd (do_reset uid w)) = Some d' \<and>
         users d' = users d \<and>
         filter (\<lambda>r. c_user_id r = uid) (convo d') = [] \<and>
         filter (\<lambda>r. c_user_id r \<noteq> uid) (convo d') =
           filter (\<lambda>r. c_user_id r \<noteq> uid) (convo d) \<and>
         (\<forall>k. k \<noteq> db_key w \<longrightarrow> stores (snd (do_reset uid w)) k = stores w k)"
    if "backend_ok w \<and> fst (do_reset uid w) = Inr ()"
    using do_reset_effect [of w uid "()"] that by blast
  have b: "stores (snd (local_lines cfg [ascii ''/reset''] w)) = stores (snd (do_reset fake_user_id w))"
    using local_reset_storage [of cfg w] by simp
  have c: "stores (snd (tg_reset upd w)) = stores (snd (do_reset (effective_user_id upd) w))"
    using tg_reset_storage [of upd w] by simp
  have reset_ok: "fst (do_reset i w) = Inr () \<and> world_ok (snd (do_reset i w)) \<and>
      used_now (snd (do_reset i w)) i = Some k \<and>
      db_fault (snd (do_reset i w)) = db_fault w \<and> tg_fault (snd (do_reset i w)) = tg_fault w"
    if ok: "world_ok w" and nf: "\<forall>n. db_fault w n = None" and u: "used_now w i = Some k" for i k
  proof -
    from used_now_Some_db [OF u] obtain d where d: "current_db w = Some d" by blast
    from do_reset_ok [OF nf [rule_format] d, of i]
    have r: "fst (do_reset i w) = Inr ()" by simp
    from do_reset_keeps_used [OF ok r, of i] r u show ?thesis by simp
  qed
  have d: "fst (local_lines cfg [ascii ''/reset''] w) = Inr () \<and>
      fst (local_message cfg user_text (snd (local_lines cfg [ascii ''/reset''] w))) = Inr () \<and>
      used_now (snd (local_message cfg user_text (snd (local_lines cfg [ascii ''/reset''] w))))
        fake_user_id = Some (m + 1)"
    if h: "world_ok w \<and> (\<forall>n. db_fault w n = None) \<and> used_now w fake_user_id = Some m \<and>
           m < FREE_MESSAGES_PER_DAY cfg"
  proof -
    let ?w0 = "snd (do_reset fake_user_id w)"
    let ?w1 = "snd (local_lines cfg [ascii ''/reset''] w)"
    from reset_ok [of fake_user_id m] h
    have r: "fst (do_reset fake_user_id w) = Inr ()" and ok0: "world_ok ?w0"
      and u0: "used_now ?w0 fake_user_id = Some m" and f0: "db_fault ?w0 = db_fault w"
      by simp_all
    note ls = local_reset_storage [of cfg w]
    have ok1: "world_ok ?w1" using same_storage(3) [of ?w1 ?w0] ls ok0 by simp
    have u1: "used_now ?w1 fake_user_id = Some m"
      using used_now_cong [of ?w1 ?w0 fake_user_id] ls u0 by simp
    have nf1: "\<forall>n. db_fault ?w1 n = None" using ls f0 h by simp
    have lt: "m < FREE_MESSAGES_PER_DAY cfg" using h by simp
    from local_message_ok [OF ok1 nf1 u1 lt, of user_text] ls r show ?thesis by simp
  qed
  have e: "fst (tg_text_body cfg upd' (snd (tg_reset upd w))) = Inr () \<and>
      used_now (snd (tg_text cfg upd' (snd (tg_reset upd w)))) (effective_user_id upd) =
        Some (m + 1)"
    if h: "world_ok w \<and> (\<forall>n. db_fault w n = None) \<and> (\<forall>n. \<not> tg_fault w n) \<and>
    used_now w (effective_user_id upd) = Some m \<and> m < FREE_MESSAGES_PER_DAY cfg \<and>
    effective_user_id upd' = effective_user_id upd"
  proof -
    let ?i = "effective_user_id upd"
    let ?w0 = "snd (do_reset ?i w)"
    let ?w1 = "snd (tg_reset upd w)"
    from reset_ok [of ?i m] h
    have ok0: "world_ok ?w0" and u0: "used_now ?w0 ?i = Some m"
      and f0: "db_fault ?w0 = db_fault w" and t0: "tg_fault ?w0 = tg_fault w"
      by simp_all
    note ts = tg_reset_storage [of upd w]
    have ok1: "world_ok ?w1" using same_storage(3) [of ?w1 ?w0] ts ok0 by simp
    have u1: "used_now ?w1 (effective_user_id upd') = Some m"
      using used_now_cong [of ?w1 ?w0 ?i] ts u0 h by simp
    have nf1: "\<forall>n. db_fault ?w1 n = None" using ts f0 h by simp
    have nt1: "\<forall>n. \<not> tg_fault ?w1 n" using ts t0 h by simp
    have lt: "m < FREE_MESSAGES_PER_DAY cfg" using h by simp
    from tg_text_ok [OF ok1 nf1 nt1 u1 lt] h show ?thesis by simp
  qed
  from a b c d e show ?thesis by blast
qed

text \<open>
  The witness, with a quota of 2: after one answered message the local user has a counter
  of 1 and two turns. \<open>/reset\<close> leaves no turn and the counter at 1; the next message is
  answered and makes the counter 2.
\<close>

theorem reset_clears_only_history_witness:
  "world_ok (the (local_cycles stub_config [ascii ''hi''] ready_world)) \<and>
   (\<forall>n. db_fault (the (local_cycles stub_config [ascii ''hi''] ready_world)) n = None) \<and>
   used_now (the (local_cycles stub_config [ascii ''hi''] ready_world)) fake_user_id = Some 1 \<and>
   1 < FREE_MESSAGES_PER_DAY stub_config \<and>
   fst (get_history fake_user_id (the (local_cycles stub_config [ascii ''hi''] ready_world))) =
     Inr [(User, ascii ''hi''), (Assistant, STUB_PREFIX @ ascii ''hi'')] \<and>
   fst (local_lines stub_config [ascii ''/reset'']
          (the (local_cycles stub_config [ascii ''hi''] ready_world))) = Inr () \<and>
   fst (get_history fake_user_id
          (snd (local_lines stub_config [ascii ''/reset'']
             (the (local_cycles stub_config [ascii ''hi''] ready_world))))) = Inr [] \<and>
   used_now (snd (local_lines stub_config [ascii ''/reset'']
             (the (local_cycles stub_config [ascii ''hi''] ready_world)))) fake_user_id = Some 1 \<and>
   fst (local_message stub_config (ascii ''again'')
          (snd (local_lines stub_config [ascii ''/reset'']
             (the (local_cycles stub_config [ascii ''hi''] ready_world))))) = Inr () \<and>
   used_now (snd (local_message stub_config (ascii ''again'')
          (snd (local_lines stub_config [ascii ''/reset'']
             (the (local_cycles stub_config [ascii ''hi''] ready_world)))))) fake_user_id = Some 2"
proof -
  let ?w = "the (local_cycles stub_config [ascii ''hi''] ready_world)"
  let ?w1 = "snd (local_lines stub_config [ascii ''/reset''] ?w)"
  have 1: "world_ok ?w" by (simp add: chat_defs storage_defs)
  have 2: "\<forall>n. db_fault ?w n = None" by (simp add: chat_defs storage_defs)
  have 3: "used_now ?w fake_user_id = Some 1" by (simp add: chat_defs storage_defs)
  have 4: "1 < FREE_MESSAGES_PER_DAY stub_config" by (simp add: stub_config_def)
  have 5: "fst (get_history fake_user_id ?w) =
             Inr [(User, ascii ''hi''), (Assistant, STUB_PREFIX @ ascii ''hi'')]"
    by (simp add: chat_defs storage_defs)
  have 6: "fst (get_history fake_user_id ?w1) = Inr []" by (simp add: chat_defs storage_defs)
  have 7: "used_now ?w1 fake_user_id = Some 1" by (simp add: chat_defs storage_defs)
  from reset_clears_only_history
    [where w = ?w and cfg = stub_config and m = 1 and user_text = "ascii ''again''",
     THEN conjunct2, THEN conjunct2, THEN conjunct2, THEN conjunct1] 1 2 3 4
  have 8: "fst (local_lines stub_config [ascii ''/reset''] ?w) = Inr () \<and>
           fst (local_message stub_config (ascii ''again'') ?w1) = Inr () \<and>
           used_now (snd (local_message stub_config (ascii ''again'') ?w1)) fake_user_id = Some 2"
    by simp
  from 1 2 3 4 5 6 7 8 show ?thesis by blast
qed

section \<open>C6: an exception while a message is handled\<close>

text \<open>
  Claim C6 asks that an exception raised while a message is handled is caught at the loop
  boundary in every transport and turned into one apology. \<open>_tg_text\<close> does so; the loop of
  \<open>run_local_session\<close> has no \<open>try\<close>. The session below reads two lines. The \<open>get_user\<close> of
  the first line meets \<open>sqlite3.OperationalError\<close>; \<open>_db_try\<close> switches to the in-memory
  database, which has no tables, so the retry raises \<open>OperationalError\<close> again, and the
  exception leaves \<open>run_local_session\<close>: nothing is printed and the second line is never
  read. On the same failure \<open>_tg_text\<close> returns and the user gets the apology of line 370.
\<close>

theorem local_session_ends_at_storage_error:
  "fst (run_local_session stub_config [ascii ''hi'', ascii ''there''] crash_world) =
     Inl OperationalError \<and>
   stdout (snd (run_local_session stub_config [ascii ''hi'', ascii ''there''] crash_world)) = [] \<and>
   db_calls (snd (run_local_session stub_config [ascii ''hi'', ascii ''there''] crash_world)) = 4 \<and>
   fst (tg_text stub_config new_update locked_world) = Inr () \<and>
   chat (snd (tg_text stub_config new_update locked_world)) = [(TG_TEXT_APOLOGY, False)] \<and>
   logged (snd (tg_text stub_config new_update locked_world)) =
     [Warn_db_op_failed OperationalError, Warn_switching, Exc_tg_text OperationalError]"
  by (simp add: chat_defs storage_defs)

end
